(* ===== verification/Prelude.thy ===== *)
theory Prelude
  imports Main "HOL-Library.Word" "HOL-Library.Finite_Map"
begin

text \<open>
  Shared vocabulary of the development: Rust's \<open>Result\<close> and panics as values, byte
  strings, the monotonic clock (\<open>Instant\<close>, \<open>Duration\<close>), hash maps as finite maps with
  \<open>retain\<close>, and \<open>Iterator::max_by_key\<close>.  The collections declared here gather the
  facts the component proofs use together: \<open>wire_simps\<close> for what happens to text that is
  printed and split again, \<open>lease_simps\<close> for look-ups in expiring tables.
\<close>

unbundle bit_operations_syntax

named_theorems wire_simps
named_theorems lease_simps

section \<open>Results and panics\<close>

text \<open>
  A \<open>Result<T, String>\<close> is a sum with the error text on the left.  A panic ends the
  process; an operation that can panic returns an \<open>outcome\<close>.
\<close>

type_synonym 'a result = "string + 'a"

abbreviation Err :: "string \<Rightarrow> 'a result" where "Err \<equiv> Inl"
abbreviation Ok :: "'a \<Rightarrow> 'a result" where "Ok \<equiv> Inr"

definition is_err :: "'a result \<Rightarrow> bool" where
  "is_err r \<longleftrightarrow> (case r of Inl _ \<Rightarrow> True | Inr _ \<Rightarrow> False)"

definition and_then :: "'e + 'a \<Rightarrow> ('a \<Rightarrow> 'e + 'b) \<Rightarrow> 'e + 'b" where
  "and_then r f = (case r of Inl e \<Rightarrow> Inl e | Inr x \<Rightarrow> f x)"

definition map_err :: "('e \<Rightarrow> 'f) \<Rightarrow> 'e + 'a \<Rightarrow> 'f + 'a" where
  "map_err f r = (case r of Inl e \<Rightarrow> Inl (f e) | Inr x \<Rightarrow> Inr x)"

definition ok_or :: "'e \<Rightarrow> 'a option \<Rightarrow> 'e + 'a" where
  "ok_or e r = (case r of None \<Rightarrow> Inl e | Some x \<Rightarrow> Inr x)"

lemma is_err_simps [simp]: "is_err (Inl e)" "\<not> is_err (Inr x)"
  by (simp_all add: is_err_def)

lemma and_then_simps [simp]: "and_then (Inl e) f = Inl e" "and_then (Inr x) f = f x"
  by (simp_all add: and_then_def)

lemma map_err_simps [simp]: "map_err g (Inl e) = Inl (g e)" "map_err g (Inr x) = Inr x"
  by (simp_all add: map_err_def)

lemma ok_or_simps [simp]: "ok_or e None = Inl e" "ok_or e (Some x) = Inr x"
  by (simp_all add: ok_or_def)

lemma and_then_eq_Inr [simp]: "and_then r f = Inr y \<longleftrightarrow> (\<exists>x. r = Inr x \<and> f x = Inr y)"
  by (cases r) auto

lemma map_err_eq_Inr [simp]: "map_err g r = Inr y \<longleftrightarrow> r = Inr y"
  by (cases r) auto

lemma ok_or_eq_Inr [simp]: "ok_or e r = Inr y \<longleftrightarrow> r = Some y"
  by (cases r) auto

text \<open>The error side: which step of a chain of fallible calls failed.\<close>

lemma and_then_eq_Inl: "and_then r f = Inl e \<longleftrightarrow> r = Inl e \<or> (\<exists>x. r = Inr x \<and> f x = Inl e)"
  by (cases r) auto

lemma is_err_and_then [simp]: "is_err r \<Longrightarrow> is_err (and_then r f)"
  by (cases r) auto

lemma ok_or_eq_Inl: "ok_or e r = Inl y \<longleftrightarrow> r = None \<and> y = e"
  by (cases r) auto

datatype 'a outcome = Returns 'a | Panics string

definition out_bind :: "'a outcome \<Rightarrow> ('a \<Rightarrow> 'b outcome) \<Rightarrow> 'b outcome" where
  "out_bind r f = (case r of Returns x \<Rightarrow> f x | Panics m \<Rightarrow> Panics m)"

text \<open>\<open>Option::expect\<close> panics with its message on \<open>None\<close>; \<open>unwrap_or_else\<close> with a
  panicking closure does the same for a \<open>Result\<close>.\<close>

definition expect :: "string \<Rightarrow> 'a option \<Rightarrow> 'a outcome" where
  "expect message r = (case r of None \<Rightarrow> Panics message | Some x \<Rightarrow> Returns x)"

definition or_panic :: "('e \<Rightarrow> string) \<Rightarrow> 'e + 'a \<Rightarrow> 'a outcome" where
  "or_panic message r = (case r of Inl e \<Rightarrow> Panics (message e) | Inr x \<Rightarrow> Returns x)"

lemma out_bind_simps [simp]:
  "out_bind (Returns x) f = f x" "out_bind (Panics m) f = Panics m"
  by (simp_all add: out_bind_def)

lemma expect_simps [simp]:
  "expect m None = Panics m" "expect m (Some x) = Returns x"
  by (simp_all add: expect_def)

lemma or_panic_simps [simp]:
  "or_panic g (Inl e) = Panics (g e)" "or_panic g (Inr x) = Returns x"
  by (simp_all add: or_panic_def)

lemma out_bind_eq_Returns [simp]:
  "out_bind r f = Returns y \<longleftrightarrow> (\<exists>x. r = Returns x \<and> f x = Returns y)"
  by (cases r) auto

lemma expect_eq_Returns [simp]: "expect m r = Returns x \<longleftrightarrow> r = Some x"
  by (cases r) auto

lemma or_panic_eq_Returns [simp]: "or_panic g r = Returns x \<longleftrightarrow> r = Inr x"
  by (cases r) auto

section \<open>Bytes and strings\<close>

text \<open>
  A Rust \<open>&str\<close> is a UTF-8 byte sequence, and every operation the program applies to one
  works on those bytes; HOL's \<open>char\<close> is a byte, so a \<open>string\<close> is that sequence.
  Datagrams and keys are lists of \<open>8 word\<close>.
\<close>

type_synonym u8 = "8 word"
type_synonym u16 = "16 word"
type_synonym u32 = "32 word"
type_synonym u64 = "64 word"
type_synonym bytes = "u8 list"

definition byte_of_char :: "char \<Rightarrow> u8" where
  "byte_of_char c = of_nat (of_char c)"

definition char_of_byte :: "u8 \<Rightarrow> char" where
  "char_of_byte b = char_of (unat b)"

definition as_bytes :: "string \<Rightarrow> bytes" where
  "as_bytes s = map byte_of_char s"

definition str_of_bytes :: "bytes \<Rightarrow> string" where
  "str_of_bytes bs = map char_of_byte bs"

lemma char_of_byte_of_char [simp]: "char_of_byte (byte_of_char c) = c"
  by (simp add: char_of_byte_def byte_of_char_def unat_of_nat)

lemma byte_of_char_of_byte [simp]: "byte_of_char (char_of_byte b) = b"
proof -
  have "unat b < 256" using unsigned_less [of b] by simp
  then show ?thesis by (simp add: char_of_byte_def byte_of_char_def)
qed

lemma byte_of_char_inject [simp]: "byte_of_char c = byte_of_char d \<longleftrightarrow> c = d"
  by (metis char_of_byte_of_char)

lemma str_of_bytes_as_bytes [simp]: "str_of_bytes (as_bytes s) = s"
  by (simp add: str_of_bytes_def as_bytes_def comp_def)

lemma as_bytes_str_of_bytes [simp]: "as_bytes (str_of_bytes bs) = bs"
  by (simp add: str_of_bytes_def as_bytes_def comp_def)

lemma as_bytes_inject [simp]: "as_bytes s = as_bytes t \<longleftrightarrow> s = t"
  by (metis str_of_bytes_as_bytes)

lemma length_as_bytes [simp]: "length (as_bytes s) = length s"
  by (simp add: as_bytes_def)

lemma length_str_of_bytes [simp]: "length (str_of_bytes bs) = length bs"
  by (simp add: str_of_bytes_def)

lemma as_bytes_append [simp]: "as_bytes (s @ t) = as_bytes s @ as_bytes t"
  by (simp add: as_bytes_def)

section \<open>The monotonic clock\<close>

text \<open>
  An \<open>Instant\<close> is a reading of the monotonic clock, here in nanoseconds.  On Linux it holds
  a signed 64-bit count of seconds and a nanosecond part, so \<open>checked_add\<close> fails from
  \<open>2 ^ 63\<close> seconds on.  A \<open>Duration\<close> is a count of nanoseconds.
\<close>

type_synonym instant = nat
type_synonym duration = nat

definition nanos_per_sec :: nat where "nanos_per_sec = 1000000000"

definition instant_end :: nat where "instant_end = 2 ^ 63 * nanos_per_sec"

definition from_secs :: "nat \<Rightarrow> duration" where "from_secs n = n * nanos_per_sec"

definition as_secs :: "duration \<Rightarrow> nat" where "as_secs d = d div nanos_per_sec"

definition checked_add_instant :: "instant \<Rightarrow> duration \<Rightarrow> instant option" where
  "checked_add_instant t d = (if t + d < instant_end then Some (t + d) else None)"

lemma as_secs_from_secs [simp]: "as_secs (from_secs n) = n"
  by (simp add: as_secs_def from_secs_def nanos_per_sec_def)

lemma from_secs_inject [simp]: "from_secs m = from_secs n \<longleftrightarrow> m = n"
  by (simp add: from_secs_def nanos_per_sec_def)

lemma checked_add_instant_Some [simp]:
  "checked_add_instant t d = Some e \<longleftrightarrow> t + d < instant_end \<and> e = t + d"
  by (auto simp: checked_add_instant_def)

lemma checked_add_instant_ok: "t + d < instant_end \<Longrightarrow> checked_add_instant t d = Some (t + d)"
  by simp

section \<open>Hash maps\<close>

text \<open>
  A \<open>HashMap\<close> is a finite map; its iteration order is never observed by the program.
  \<open>retain\<close> keeps the entries that satisfy a predicate.
\<close>

definition retain :: "('k \<Rightarrow> 'v \<Rightarrow> bool) \<Rightarrow> ('k, 'v) fmap \<Rightarrow> ('k, 'v) fmap" where
  "retain p m = fmfilter (\<lambda>k. case fmlookup m k of None \<Rightarrow> False | Some v \<Rightarrow> p k v) m"

lemma fmlookup_retain [simp]:
  "fmlookup (retain p m) k =
     (case fmlookup m k of None \<Rightarrow> None | Some v \<Rightarrow> if p k v then Some v else None)"
  by (auto simp: retain_def split: option.splits)

lemma retain_retain: "retain p (retain q m) = retain (\<lambda>k v. p k v \<and> q k v) m"
  by (rule fmap_ext) (simp split: option.splits)

lemma retain_all: "(\<And>k v. fmlookup m k = Some v \<Longrightarrow> p k v) \<Longrightarrow> retain p m = m"
  by (rule fmap_ext) (simp split: option.splits)

lemma retain_empty [simp]: "retain p fmempty = fmempty"
  by (rule fmap_ext) simp

section \<open>Iterator::max\_by\_key\<close>

text \<open>The last of the elements whose key is greatest, as the standard library documents.\<close>

fun max_by_key :: "('a \<Rightarrow> 'k::linorder) \<Rightarrow> 'a list \<Rightarrow> 'a option" where
  "max_by_key key [] = None"
| "max_by_key key (x # xs) =
     Some (foldl (\<lambda>best y. if key y < key best then best else y) x xs)"

lemma max_by_key_snoc:
  "max_by_key key (xs @ [y]) =
     (case max_by_key key xs of None \<Rightarrow> Some y
      | Some best \<Rightarrow> Some (if key y < key best then best else y))"
  by (cases xs) auto

lemma max_by_key_None [simp]: "max_by_key key xs = None \<longleftrightarrow> xs = []"
  by (cases xs) auto

lemma max_by_key_split:
  "max_by_key key xs = Some m \<Longrightarrow>
     \<exists>ys zs. xs = ys @ m # zs \<and> (\<forall>y \<in> set ys. key y \<le> key m) \<and> (\<forall>z \<in> set zs. key z < key m)"
proof (induction xs arbitrary: m rule: rev_induct)
  case Nil
  then show ?case by simp
next
  case (snoc x xs)
  show ?case
  proof (cases "max_by_key key xs")
    case None
    with snoc.prems show ?thesis
      by (intro exI [of _ "[]"] exI [of _ "[]"]) (simp add: max_by_key_snoc)
  next
    case (Some best)
    from snoc.IH [OF this] obtain ys zs where split: "xs = ys @ best # zs"
      and ys: "\<forall>y \<in> set ys. key y \<le> key best" and zs: "\<forall>z \<in> set zs. key z < key best"
      by blast
    show ?thesis
    proof (cases "key x < key best")
      case True
      with snoc.prems Some have "m = best" by (simp add: max_by_key_snoc)
      then show ?thesis using split ys zs True
        by (intro exI [of _ ys] exI [of _ "zs @ [x]"]) auto
    next
      case False
      with snoc.prems Some have m: "m = x" by (simp add: max_by_key_snoc)
      have "\<forall>y \<in> set xs. key y \<le> key x"
        using split ys zs False by (auto simp: not_less dest: order.trans less_imp_le)
      then show ?thesis using m by (intro exI [of _ xs] exI [of _ "[]"]) auto
    qed
  qed
qed

lemma max_by_key_in_set: "max_by_key key xs = Some m \<Longrightarrow> m \<in> set xs"
  by (auto dest: max_by_key_split)

lemma max_by_key_greatest: "max_by_key key xs = Some m \<Longrightarrow> x \<in> set xs \<Longrightarrow> key x \<le> key m"
  by (fastforce dest: max_by_key_split)

lemma filter_append_split:
  "filter P xs = us @ vs \<Longrightarrow> \<exists>ys zs. xs = ys @ zs \<and> filter P ys = us \<and> filter P zs = vs"
proof (induction xs arbitrary: us)
  case Nil
  then show ?case by simp
next
  case (Cons x xs)
  show ?case
  proof (cases "P x \<and> us \<noteq> []")
    case True
    with Cons.prems obtain us' where "us = x # us'" "filter P xs = us' @ vs" by (cases us) auto
    with Cons.IH [of us'] True show ?thesis by (metis append_Cons filter.simps(2))
  next
    case False
    show ?thesis
    proof (cases "P x")
      case True
      with False Cons.prems show ?thesis by (intro exI [of _ "[]"] exI [of _ "x # xs"]) simp
    next
      case noP: False
      with Cons.prems Cons.IH [of us] show ?thesis by (metis append_Cons filter.simps(2))
    qed
  qed
qed

lemma max_by_key_filter_split:
  assumes "max_by_key key (filter P xs) = Some m"
  shows "\<exists>ys zs. xs = ys @ m # zs \<and> P m \<and> (\<forall>y \<in> set ys. P y \<longrightarrow> key y \<le> key m)
           \<and> (\<forall>z \<in> set zs. P z \<longrightarrow> key z < key m)"
proof -
  from max_by_key_split [OF assms] obtain us vs where split: "filter P xs = us @ m # vs"
    and le: "\<forall>y \<in> set us. key y \<le> key m" and less: "\<forall>z \<in> set vs. key z < key m" by blast
  obtain ys zs where "xs = ys @ zs" "filter P ys = us" "filter P zs = m # vs"
    using filter_append_split [OF split] by blast
  moreover from this(3) obtain as bs where "zs = as @ m # bs" "\<forall>a \<in> set as. \<not> P a" "P m" "filter P bs = vs"
    by (auto simp: filter_eq_Cons_iff)
  ultimately show ?thesis using le less
    by (intro exI [of _ "ys @ as"] exI [of _ bs]) auto
qed

lemma max_by_key_last:
  fixes key :: "'a \<Rightarrow> 'k::linorder"
  assumes "\<forall>y \<in> set ys. key y \<le> key x" and "\<forall>z \<in> set zs. key z < key x"
  shows "max_by_key key (ys @ x # zs) = Some x"
  using assms(2)
proof (induction zs rule: rev_induct)
  case Nil
  show ?case
  proof (cases "max_by_key key ys")
    case (Some y)
    then have "\<not> key x < key y" using assms(1) max_by_key_in_set [OF Some] by (simp add: not_less)
    with Some show ?thesis by (simp add: max_by_key_snoc)
  qed (simp add: max_by_key_snoc)
next
  case (snoc z zs)
  then show ?case using max_by_key_snoc [of key "ys @ x # zs" z] by auto
qed

lemma max_by_key_map: "max_by_key key (map f xs) = map_option f (max_by_key (\<lambda>x. key (f x)) xs)"
  by (induction xs rule: rev_induct) (auto simp: max_by_key_snoc split: option.split)

section \<open>Calling an operation once per element\<close>

text \<open>The results of a stateful operation applied to a list in order.\<close>

fun call_each :: "('s \<Rightarrow> 'a \<Rightarrow> 's \<times> 'b) \<Rightarrow> 's \<Rightarrow> 'a list \<Rightarrow> 's \<times> 'b list" where
  "call_each f s [] = (s, [])"
| "call_each f s (x # xs) =
     (let (s, y) = f s x; (s, ys) = call_each f s xs in (s, y # ys))"

lemma call_each_append:
  "call_each f s (xs @ ys) =
     (let (s, us) = call_each f s xs; (s, vs) = call_each f s ys in (s, us @ vs))"
  by (induction xs arbitrary: s) (auto simp: Let_def split: prod.split)

lemma call_each_length: "length (snd (call_each f s xs)) = length xs"
  by (induction xs arbitrary: s) (simp_all add: Let_def case_prod_beta)

text \<open>The successful results, in order.\<close>

definition oks :: "('e + 'a) list \<Rightarrow> 'a list" where
  "oks rs = List.map_filter (\<lambda>r. case r of Inl _ \<Rightarrow> None | Inr x \<Rightarrow> Some x) rs"

lemma oks_simps [simp]:
  "oks [] = []" "oks (Inl e # rs) = oks rs" "oks (Inr x # rs) = x # oks rs"
  by (simp_all add: oks_def List.map_filter_simps)

section \<open>Big-endian 64-bit integers\<close>

definition to_be_bytes :: "u64 \<Rightarrow> bytes" where
  "to_be_bytes w = map (\<lambda>i. ucast (drop_bit (8 * i) w)) [7, 6, 5, 4, 3, 2, 1, 0]"

definition from_be_bytes :: "bytes \<Rightarrow> u64" where
  "from_be_bytes bs = foldl (\<lambda>acc b. push_bit 8 acc OR ucast b) 0 bs"

lemma length_to_be_bytes [simp]: "length (to_be_bytes w) = 8"
  by (simp add: to_be_bytes_def)

lemma join_byte:
  "push_bit 8 (drop_bit (m + 8) w) OR ucast (ucast (drop_bit m w) :: u8) = drop_bit m (w :: u64)"
proof (rule bit_word_eqI)
  fix n assume "n < LENGTH(64)"
  then show "bit (push_bit 8 (drop_bit (m + 8) w) OR ucast (ucast (drop_bit m w) :: u8)) n
      \<longleftrightarrow> bit (drop_bit m w) n"
    by (cases "n < 8") (auto simp: bit_simps add.assoc)
qed

lemma from_to_be_bytes [simp]: "from_be_bytes (to_be_bytes w) = w"
proof -
  have top: "ucast (ucast (drop_bit 56 w) :: u8) = drop_bit 56 w"
    by (rule bit_word_eqI) (auto simp: bit_simps dest: bit_imp_le_length)
  show ?thesis
    using join_byte [of 48 w] join_byte [of 40 w] join_byte [of 32 w] join_byte [of 24 w]
      join_byte [of 16 w] join_byte [of 8 w] join_byte [of 0 w] top
    by (simp add: from_be_bytes_def to_be_bytes_def)
qed

lemma to_be_bytes_inject [simp]: "to_be_bytes v = to_be_bytes w \<longleftrightarrow> v = w"
  by (metis from_to_be_bytes)

lemma list8_cases:
  assumes "length bs = 8"
  obtains a b c d e f g h where "bs = [a, b, c, d, e, f, g, h]"
  using assms by (auto simp: numeral_eq_Suc length_Suc_conv)

lemma to_from_be_bytes:
  assumes "length bs = 8"
  shows "to_be_bytes (from_be_bytes bs) = bs"
  using assms
  by (rule list8_cases)
    (auto simp: from_be_bytes_def to_be_bytes_def intro!: bit_word_eqI, auto simp: bit_simps dest: bit_imp_le_length)

definition checked_succ :: "u64 \<Rightarrow> u64 option" where
  "checked_succ n = (if n = 0xFFFFFFFFFFFFFFFF then None else Some (n + 1))"

lemma unat_checked_succ: "checked_succ n = Some m \<Longrightarrow> unat m = unat n + 1"
proof -
  assume a: "checked_succ n = Some m"
  then have "n \<noteq> 0xFFFFFFFFFFFFFFFF" and m: "m = n + 1"
    by (auto simp: checked_succ_def split: if_splits)
  then have "unat n \<noteq> 0xFFFFFFFFFFFFFFFF" by (simp add: word_unat_eq_iff)
  moreover have "unat n < 2 ^ 64" using unsigned_less [of n, where 'a = nat] by simp
  ultimately show ?thesis using m by (simp add: unat_word_ariths)
qed

section \<open>Writers and readers of a format\<close>

text \<open>
  The contract of a printer and a parser: the parser inverts the printer on the valid values
  and returns only valid values.  Every textual format of the program is an instance.
\<close>

locale codec =
  fixes enc :: "'a \<Rightarrow> 'b"
    and dec :: "'b \<Rightarrow> 'a result"
    and valid :: "'a \<Rightarrow> bool"
  assumes dec_enc: "valid x \<Longrightarrow> dec (enc x) = Ok x"
    and dec_valid: "dec y = Ok x \<Longrightarrow> valid x"
begin

lemma round_trip_iff: "dec (enc x) = Ok x \<longleftrightarrow> valid x"
  using dec_enc dec_valid by blast

lemma enc_inject: "valid x \<Longrightarrow> valid y \<Longrightarrow> enc x = enc y \<longleftrightarrow> x = y"
  by (metis dec_enc sum.inject(2))

lemma normal_form: "dec y = Ok x \<Longrightarrow> dec (enc x) = Ok x"
  by (blast intro: dec_enc dec_valid)

end

end
