(* ===== verification/Std_Text.thy ===== *)
theory Std_Text
  imports Prelude "HOL-Library.Monad_Syntax"
begin

text \<open>
  The text operations of Rust's standard library that the program uses: splitting on ASCII
  whitespace, printing and parsing unsigned integers, IPv4 addresses in dotted decimal and
  UTF-8 validation.  The lemmas say that printing and parsing are inverse to each other and
  which inputs a parser accepts.
\<close>

section \<open>ASCII classes and whitespace splitting\<close>

definition is_ascii_digit :: "char \<Rightarrow> bool" where
  "is_ascii_digit c \<longleftrightarrow> 48 \<le> (of_char c :: nat) \<and> (of_char c :: nat) \<le> 57"

definition is_ascii_alphanumeric :: "char \<Rightarrow> bool" where
  "is_ascii_alphanumeric c \<longleftrightarrow> is_ascii_digit c
     \<or> (65 \<le> (of_char c :: nat) \<and> (of_char c :: nat) \<le> 90)
     \<or> (97 \<le> (of_char c :: nat) \<and> (of_char c :: nat) \<le> 122)"

text \<open>Tab, line feed, form feed, carriage return and space.\<close>

definition is_ascii_whitespace :: "char \<Rightarrow> bool" where
  "is_ascii_whitespace c \<longleftrightarrow> (of_char c :: nat) \<in> {9, 10, 12, 13, 32}"

function split_ascii_whitespace :: "string \<Rightarrow> string list" where
  "split_ascii_whitespace [] = []"
| "split_ascii_whitespace (c # cs) =
     (if is_ascii_whitespace c then split_ascii_whitespace cs
      else (c # takeWhile (\<lambda>d. \<not> is_ascii_whitespace d) cs)
             # split_ascii_whitespace (dropWhile (\<lambda>d. \<not> is_ascii_whitespace d) cs))"
  by pat_completeness auto
termination
  by (relation "measure length") (auto simp: less_Suc_eq_le length_dropWhile_le)

definition plain_word :: "string \<Rightarrow> bool" where
  "plain_word w \<longleftrightarrow> w \<noteq> [] \<and> list_all (\<lambda>c. \<not> is_ascii_whitespace c) w"

text \<open>Fields separated by single spaces, the shape of every format string of the protocols.\<close>

fun unwords :: "string list \<Rightarrow> string" where
  "unwords [] = []"
| "unwords [w] = w"
| "unwords (w # ws) = w @ CHR '' '' # unwords ws"

lemma space_is_whitespace [simp]: "is_ascii_whitespace (CHR '' '')"
  by (simp add: is_ascii_whitespace_def)

lemma plain_word_append: "u \<noteq> [] \<or> v \<noteq> [] \<Longrightarrow>
    plain_word (u @ v) \<longleftrightarrow> (u = [] \<or> plain_word u) \<and> (v = [] \<or> plain_word v)"
  by (auto simp: plain_word_def)

lemma split_plain_word:
  assumes "plain_word w"
  shows "split_ascii_whitespace w = [w]"
proof -
  from assms obtain c cs where w: "w = c # cs" and "\<not> is_ascii_whitespace c"
    and "\<forall>d \<in> set cs. \<not> is_ascii_whitespace d"
    by (cases w) (auto simp: plain_word_def list_all_iff)
  then show ?thesis by (simp add: takeWhile_eq_all_conv [THEN iffD2] dropWhile_eq_Nil_conv [THEN iffD2])
qed

lemma split_plain_word_space:
  assumes "plain_word w"
  shows "split_ascii_whitespace (w @ CHR '' '' # rest) = w # split_ascii_whitespace rest"
proof -
  from assms obtain c cs where w: "w = c # cs" and "\<not> is_ascii_whitespace c"
    and "\<forall>d \<in> set cs. \<not> is_ascii_whitespace d"
    by (cases w) (auto simp: plain_word_def list_all_iff)
  then show ?thesis by (simp add: takeWhile_append dropWhile_append)
qed

lemma split_unwords [wire_simps]:
  "list_all plain_word ws \<Longrightarrow> split_ascii_whitespace (unwords ws) = ws"
  by (induction ws rule: unwords.induct) (auto simp: split_plain_word split_plain_word_space)

lemma split_fields_plain: "w \<in> set (split_ascii_whitespace s) \<Longrightarrow> plain_word w"
proof (induction s rule: split_ascii_whitespace.induct)
  case 1
  then show ?case by simp
next
  case (2 c cs)
  show ?case
  proof (cases "is_ascii_whitespace c")
    case True
    with 2 show ?thesis by simp
  next
    case False
    then have "plain_word (c # takeWhile (\<lambda>d. \<not> is_ascii_whitespace d) cs)"
      by (auto simp: plain_word_def list_all_iff dest: set_takeWhileD)
    moreover from False "2.prems" have "w = c # takeWhile (\<lambda>d. \<not> is_ascii_whitespace d) cs
        \<or> w \<in> set (split_ascii_whitespace (dropWhile (\<lambda>d. \<not> is_ascii_whitespace d) cs))"
      by simp
    ultimately show ?thesis using "2.IH"(2) [OF False] by blast
  qed
qed

lemma split_last_line_feed:
  assumes "plain_word w"
  shows "split_ascii_whitespace (w @ [CHR 0x0A]) = [w]"
proof -
  from assms obtain c cs where w: "w = c # cs" and "\<not> is_ascii_whitespace c"
    and "\<forall>d \<in> set cs. \<not> is_ascii_whitespace d"
    by (cases w) (auto simp: plain_word_def list_all_iff)
  moreover have "is_ascii_whitespace (CHR 0x0A)" by (simp add: is_ascii_whitespace_def)
  ultimately show ?thesis by (simp add: takeWhile_append dropWhile_append)
qed

lemma split_unwords_line_feed [wire_simps]:
  "list_all plain_word ws \<Longrightarrow> ws \<noteq> [] \<Longrightarrow>
     split_ascii_whitespace (unwords ws @ [CHR 0x0A]) = ws"
  by (induction ws rule: unwords.induct) (auto simp: split_last_line_feed split_plain_word_space)

section \<open>Unsigned integers in decimal\<close>

definition digit_char :: "nat \<Rightarrow> char" where
  "digit_char d = char_of (48 + d)"

definition digit_value :: "char \<Rightarrow> nat" where
  "digit_value c = of_char c - 48"

fun decimal :: "nat \<Rightarrow> string" where
  "decimal n = (if n < 10 then [digit_char n] else decimal (n div 10) @ [digit_char (n mod 10)])"

declare decimal.simps [simp del]

definition digits_value :: "string \<Rightarrow> nat" where
  "digits_value ds = foldl (\<lambda>acc c. acc * 10 + digit_value c) 0 ds"

text \<open>
  \<open>str::parse\<close> for an unsigned type with greatest value \<open>limit\<close>: an optional plus sign,
  then at least one digit and nothing else, and no overflow.
\<close>

definition parse_unsigned :: "nat \<Rightarrow> string \<Rightarrow> nat option" where
  "parse_unsigned limit s =
     (let ds = (case s of c # cs \<Rightarrow> if c = CHR ''+'' then cs else s | [] \<Rightarrow> [])
      in if ds \<noteq> [] \<and> list_all is_ascii_digit ds \<and> digits_value ds \<le> limit
         then Some (digits_value ds) else None)"

definition u8_max :: nat where "u8_max = 255"
definition u64_max :: nat where "u64_max = 18446744073709551615"

lemma digit_char_digit [simp]: "d < 10 \<Longrightarrow> is_ascii_digit (digit_char d)"
  by (simp add: is_ascii_digit_def digit_char_def)

lemma digit_value_char [simp]: "d < 10 \<Longrightarrow> digit_value (digit_char d) = d"
  by (simp add: digit_value_def digit_char_def)

lemma digit_char_value [simp]: "is_ascii_digit c \<Longrightarrow> digit_char (digit_value c) = c"
  by (simp add: digit_value_def digit_char_def is_ascii_digit_def)

lemma digit_value_less [simp]: "is_ascii_digit c \<Longrightarrow> digit_value c < 10"
  by (auto simp add: digit_value_def is_ascii_digit_def)

lemma digits_value_snoc [simp]: "digits_value (ds @ [c]) = digits_value ds * 10 + digit_value c"
  by (simp add: digits_value_def)

lemma digits_value_Nil [simp]: "digits_value [] = 0"
  by (simp add: digits_value_def)

lemma decimal_digits: "list_all is_ascii_digit (decimal n)"
proof (induction n rule: decimal.induct)
  case (1 n)
  then show ?case by (cases "n < 10") (auto simp: decimal.simps [of n])
qed

lemma decimal_nonempty [simp]: "decimal n \<noteq> []"
  by (subst decimal.simps) simp

lemma digits_value_decimal [simp]: "digits_value (decimal n) = n"
proof (induction n rule: decimal.induct)
  case (1 n)
  then show ?case
    by (cases "n < 10") (auto simp: decimal.simps [of n] digits_value_def)
qed

lemma decimal_inject [simp]: "decimal m = decimal n \<longleftrightarrow> m = n"
  by (metis digits_value_decimal)

lemma is_ascii_digit_not_whitespace: "is_ascii_digit c \<Longrightarrow> \<not> is_ascii_whitespace c"
  by (auto simp: is_ascii_digit_def is_ascii_whitespace_def)

lemma decimal_plain [simp]: "plain_word (decimal n)"
  using decimal_digits [of n]
  by (auto simp: plain_word_def list_all_iff is_ascii_digit_not_whitespace)

lemma decimal_hd_digit: "is_ascii_digit (hd (decimal n))"
  using decimal_digits [of n] by (cases "decimal n") auto

lemma decimal_hd_zero: "hd (decimal n) = CHR ''0'' \<longleftrightarrow> n = 0"
proof (induction n rule: decimal.induct)
  case (1 n)
  have zero: "digit_char d = CHR ''0'' \<longleftrightarrow> d = 0" if "d < 10" for d
    using digit_value_char [OF that] by (auto simp: digit_value_def digit_char_def char_of_def bit_0)
  show ?case using 1 zero by (cases "n < 10") (auto simp: decimal.simps [of n])
qed

text \<open>A digit string without a superfluous leading zero is the decimal print of its value.\<close>

lemma decimal_digits_value:
  "list_all is_ascii_digit ds \<Longrightarrow> ds \<noteq> [] \<Longrightarrow> hd ds \<noteq> CHR ''0'' \<or> length ds = 1 \<Longrightarrow>
     decimal (digits_value ds) = ds"
proof (induction ds rule: rev_induct)
  case Nil
  then show ?case by simp
next
  case (snoc c cs)
  show ?case
  proof (cases "cs = []")
    case True
    with snoc.prems show ?thesis by (simp add: decimal.simps digits_value_def)
  next
    case False
    with snoc.prems have IH: "decimal (digits_value cs) = cs" using snoc.IH by auto
    have "digits_value cs \<noteq> 0"
      using IH decimal_hd_zero [of "digits_value cs"] snoc.prems False by auto
    with IH snoc.prems show ?thesis
      by (simp add: decimal.simps [of "digits_value cs * 10 + digit_value c"])
  qed
qed

lemma parse_unsigned_decimal [wire_simps]:
  "n \<le> limit \<Longrightarrow> parse_unsigned limit (decimal n) = Some n"
proof -
  assume n: "n \<le> limit"
  have "hd (decimal n) \<noteq> CHR ''+''" using decimal_hd_digit [of n]
    by (auto simp: is_ascii_digit_def)
  then have "(case decimal n of [] \<Rightarrow> [] | c # cs \<Rightarrow> if c = CHR ''+'' then cs else decimal n) = decimal n"
    by (cases "decimal n") auto
  then show ?thesis using n decimal_digits [of n] by (simp add: parse_unsigned_def)
qed

lemma parse_unsigned_le: "parse_unsigned limit s = Some n \<Longrightarrow> n \<le> limit"
  by (auto simp: parse_unsigned_def Let_def split: if_splits)

section \<open>UTF-8\<close>

text \<open>
  \<open>std::str::from_utf8\<close>: the well-formed byte sequences of the Unicode standard, which
  exclude overlong forms, surrogates and code points beyond U+10FFFF.
\<close>

definition is_continuation :: "u8 \<Rightarrow> bool" where
  "is_continuation b \<longleftrightarrow> 0x80 \<le> b \<and> b \<le> 0xBF"

definition three_byte_start :: "u8 \<Rightarrow> u8 \<Rightarrow> bool" where
  "three_byte_start a b \<longleftrightarrow>
     (a = 0xE0 \<and> 0xA0 \<le> b \<and> b \<le> 0xBF)
   \<or> (0xE1 \<le> a \<and> a \<le> 0xEC \<and> is_continuation b)
   \<or> (a = 0xED \<and> 0x80 \<le> b \<and> b \<le> 0x9F)
   \<or> (0xEE \<le> a \<and> a \<le> 0xEF \<and> is_continuation b)"

definition four_byte_start :: "u8 \<Rightarrow> u8 \<Rightarrow> bool" where
  "four_byte_start a b \<longleftrightarrow>
     (a = 0xF0 \<and> 0x90 \<le> b \<and> b \<le> 0xBF)
   \<or> (0xF1 \<le> a \<and> a \<le> 0xF3 \<and> is_continuation b)
   \<or> (a = 0xF4 \<and> 0x80 \<le> b \<and> b \<le> 0x8F)"

fun utf8_valid :: "bytes \<Rightarrow> bool" where
  "utf8_valid [] = True"
| "utf8_valid (a # bs) =
     (if a < 0x80 then utf8_valid bs
      else case bs of
        [] \<Rightarrow> False
      | b # cs \<Rightarrow>
          if 0xC2 \<le> a \<and> a \<le> 0xDF then is_continuation b \<and> utf8_valid cs
          else (case cs of
            [] \<Rightarrow> False
          | c # ds \<Rightarrow>
              if three_byte_start a b then is_continuation c \<and> utf8_valid ds
              else (case ds of
                [] \<Rightarrow> False
              | d # es \<Rightarrow> four_byte_start a b \<and> is_continuation c \<and> is_continuation d
                           \<and> utf8_valid es)))"

definition from_utf8 :: "bytes \<Rightarrow> string option" where
  "from_utf8 bs = (if utf8_valid bs then Some (str_of_bytes bs) else None)"

definition ascii_text :: "string \<Rightarrow> bool" where
  "ascii_text s \<longleftrightarrow> list_all (\<lambda>c. (of_char c :: nat) < 128) s"

lemma ascii_text_simps [simp]:
  "ascii_text []" "ascii_text (c # s) \<longleftrightarrow> (of_char c :: nat) < 128 \<and> ascii_text s"
  "ascii_text (s @ t) \<longleftrightarrow> ascii_text s \<and> ascii_text t"
  by (auto simp: ascii_text_def)

lemma byte_of_char_ascii: "(of_char c :: nat) < 128 \<Longrightarrow> byte_of_char c < 0x80"
proof -
  assume c: "(of_char c :: nat) < 128"
  have "unat (byte_of_char c) = of_char c" by (simp add: byte_of_char_def unat_of_nat)
  then show ?thesis using c by (simp add: word_less_nat_alt)
qed

lemma utf8_valid_ascii: "ascii_text s \<Longrightarrow> utf8_valid (as_bytes s)"
  by (induction s) (auto simp: as_bytes_def byte_of_char_ascii)

lemma from_utf8_ascii [wire_simps]: "ascii_text s \<Longrightarrow> from_utf8 (as_bytes s) = Some s"
  by (simp add: from_utf8_def utf8_valid_ascii)

lemma from_utf8_Some: "from_utf8 bs = Some s \<longleftrightarrow> utf8_valid bs \<and> bs = as_bytes s"
  by (auto simp: from_utf8_def)

lemma decimal_ascii [simp]: "ascii_text (decimal n)"
  using decimal_digits [of n] by (auto simp: ascii_text_def list_all_iff is_ascii_digit_def)

lemma unwords_ascii: "list_all ascii_text ws \<Longrightarrow> ascii_text (unwords ws)"
  by (induction ws rule: unwords.induct) auto

section \<open>Texts made of lines\<close>

text \<open>The signed messages are sequences of lines, each closed by a line feed.\<close>

definition closed_lines :: "string list \<Rightarrow> string" where
  "closed_lines ls = concat (map (\<lambda>l. l @ [CHR 0x0A]) ls)"

definition one_line :: "string \<Rightarrow> bool" where
  "one_line l \<longleftrightarrow> CHR 0x0A \<notin> set l"

lemma closed_lines_simps [simp]:
  "closed_lines [] = []" "closed_lines (l # ls) = l @ CHR 0x0A # closed_lines ls"
  by (simp_all add: closed_lines_def)

lemma one_line_simps [simp]: "one_line []" "one_line (c # s) \<longleftrightarrow> c \<noteq> CHR 0x0A \<and> one_line s"
  by (auto simp: one_line_def)

lemma one_line_append [simp]: "one_line (u @ v) \<longleftrightarrow> one_line u \<and> one_line v"
  by (auto simp: one_line_def)

lemma one_line_decimal [simp]: "one_line (decimal n)"
  using decimal_digits [of n] by (auto simp: one_line_def list_all_iff is_ascii_digit_def)

lemma line_split:
  "one_line u \<Longrightarrow> one_line v \<Longrightarrow> u @ CHR 0x0A # s = v @ CHR 0x0A # t \<longleftrightarrow> u = v \<and> s = t"
  by (auto simp: one_line_def append_eq_append_conv2 append_eq_Cons_conv Cons_eq_append_conv)

lemma closed_lines_inject:
  "list_all one_line ks \<Longrightarrow> list_all one_line ls \<Longrightarrow> closed_lines ks = closed_lines ls \<longleftrightarrow> ks = ls"
proof (induction ks arbitrary: ls)
  case Nil
  then show ?case by (cases ls) auto
next
  case (Cons k ks)
  then show ?case by (cases ls) (auto simp: line_split)
qed

text \<open>The lines at the front of a text are determined once their number is.\<close>

lemma closed_lines_prefix:
  "list_all one_line ks \<Longrightarrow> list_all one_line ls \<Longrightarrow> length ks = length ls \<Longrightarrow>
     closed_lines ks @ u = closed_lines ls @ v \<longleftrightarrow> ks = ls \<and> u = v"
proof (induction ks arbitrary: ls)
  case (Cons k ks)
  then show ?case by (cases ls) (auto simp: line_split)
qed simp

lemma signed_lines_prefix:
  assumes "list_all one_line ks" and "list_all one_line ls" and "length ks = length ls"
  shows "as_bytes (closed_lines ks) @ u = as_bytes (closed_lines ls) @ v \<longleftrightarrow> ks = ls \<and> u = v"
proof -
  have "as_bytes (closed_lines ms) @ w = as_bytes (closed_lines ms @ str_of_bytes w)" for ms w by simp
  then have "as_bytes (closed_lines ks) @ u = as_bytes (closed_lines ls) @ v
      \<longleftrightarrow> closed_lines ks @ str_of_bytes u = closed_lines ls @ str_of_bytes v"
    by (metis as_bytes_inject)
  then show ?thesis using closed_lines_prefix [OF assms]
    by (metis as_bytes_str_of_bytes)
qed

end
