(* ===== verification/Std_Net.thy ===== *)
theory Std_Net
  imports Std_Text
begin

text \<open>
  \<open>std::net\<close> values as the program uses them: IPv4 addresses with their numeric form,
  printing and parsing, and socket addresses of both families with the printing that
  coordinator replies contain.
\<close>

section \<open>IPv4 addresses\<close>

datatype ipv4_addr = Ipv4 u8 u8 u8 u8

fun u32_of_ipv4 :: "ipv4_addr \<Rightarrow> u32" where
  "u32_of_ipv4 (Ipv4 a b c d) =
     push_bit 24 (ucast a) OR push_bit 16 (ucast b) OR push_bit 8 (ucast c) OR ucast d"

definition ipv4_of_u32 :: "u32 \<Rightarrow> ipv4_addr" where
  "ipv4_of_u32 w = Ipv4 (ucast (drop_bit 24 w)) (ucast (drop_bit 16 w)) (ucast (drop_bit 8 w)) (ucast w)"

fun show_ipv4 :: "ipv4_addr \<Rightarrow> string" where
  "show_ipv4 (Ipv4 a b c d) =
     decimal (unat a) @ CHR ''.'' # decimal (unat b) @ CHR ''.'' # decimal (unat c)
       @ CHR ''.'' # decimal (unat d)"

text \<open>
  An octet is one to three digits, without a superfluous leading zero, of value at most 255;
  the whole text is at most 15 bytes long and nothing may follow the fourth octet.
\<close>

definition read_octet :: "string \<Rightarrow> (u8 \<times> string) option" where
  "read_octet s =
     (let ds = takeWhile is_ascii_digit s
      in if ds = [] \<or> 3 < length ds \<or> (hd ds = CHR ''0'' \<and> 1 < length ds) \<or> 255 < digits_value ds
         then None
         else Some (of_nat (digits_value ds), dropWhile is_ascii_digit s))"

definition read_dot :: "string \<Rightarrow> string option" where
  "read_dot s = (case s of [] \<Rightarrow> None | c # cs \<Rightarrow> if c = CHR ''.'' then Some cs else None)"

definition parse_ipv4_addr :: "string \<Rightarrow> ipv4_addr option" where
  "parse_ipv4_addr s =
     (if 15 < length s then None
      else do {
        (a, s) \<leftarrow> read_octet s;
        s \<leftarrow> read_dot s;
        (b, s) \<leftarrow> read_octet s;
        s \<leftarrow> read_dot s;
        (c, s) \<leftarrow> read_octet s;
        s \<leftarrow> read_dot s;
        (d, s) \<leftarrow> read_octet s;
        if s = [] then Some (Ipv4 a b c d) else None
      })"

lemma ipv4_of_u32_of_ipv4 [simp]: "ipv4_of_u32 (u32_of_ipv4 x) = x"
proof (cases x)
  case (Ipv4 a b c d)
  then show ?thesis
    by (auto simp: ipv4_of_u32_def intro!: bit_word_eqI)
       (auto simp: bit_simps dest: bit_imp_le_length)
qed

lemma u32_of_ipv4_of_u32 [simp]: "u32_of_ipv4 (ipv4_of_u32 w) = w"
proof (rule bit_word_eqI)
  fix n assume n: "n < LENGTH(32)"
  have shift: "16 \<le> n \<Longrightarrow> 16 + (n - 16) = n" "24 \<le> n \<Longrightarrow> 24 + (n - 24) = n" "8 \<le> n \<Longrightarrow> 8 + (n - 8) = n"
    by simp_all
  show "bit (u32_of_ipv4 (ipv4_of_u32 w)) n \<longleftrightarrow> bit w n"
    using n by (cases "n < 8"; cases "n < 16"; cases "n < 24")
      (auto simp: ipv4_of_u32_def bit_simps shift)
qed

lemma u32_of_ipv4_inject [simp]: "u32_of_ipv4 x = u32_of_ipv4 y \<longleftrightarrow> x = y"
  by (metis ipv4_of_u32_of_ipv4)

text \<open>Addresses are ordered as their numbers, which is the order of their octets.\<close>

instantiation ipv4_addr :: linorder
begin

definition less_eq_ipv4_addr :: "ipv4_addr \<Rightarrow> ipv4_addr \<Rightarrow> bool" where
  "less_eq_ipv4_addr x y \<longleftrightarrow> u32_of_ipv4 x \<le> u32_of_ipv4 y"

definition less_ipv4_addr :: "ipv4_addr \<Rightarrow> ipv4_addr \<Rightarrow> bool" where
  "less_ipv4_addr x y \<longleftrightarrow> x \<le> y \<and> \<not> y \<le> (x :: ipv4_addr)"

instance
  by intro_classes (auto simp: less_eq_ipv4_addr_def less_ipv4_addr_def)

end

lemma octet_le [simp]: "unat (a :: u8) \<le> 255"
  using unsigned_less [of a, where 'a = nat] by simp

lemma octet_not_greater [simp]: "\<not> 255 < unat (a :: u8)"
  by (simp add: not_less)

lemma decimal_length_octet: "n \<le> 255 \<Longrightarrow> length (decimal n) \<le> 3"
  by (simp add: decimal.simps [of n] decimal.simps [of "n div 10"] decimal.simps [of "n div 10 div 10"])

lemma takeWhile_digits_decimal:
  assumes "rest = [] \<or> \<not> is_ascii_digit (hd rest)"
  shows "takeWhile is_ascii_digit (decimal n @ rest) = decimal n"
    and "dropWhile is_ascii_digit (decimal n @ rest) = rest"
  using decimal_digits [of n] assms
  by (cases rest; simp add: takeWhile_append dropWhile_append list_all_iff takeWhile_eq_all_conv)+

lemma read_octet_decimal:
  assumes "rest = [] \<or> \<not> is_ascii_digit (hd rest)"
  shows "read_octet (decimal (unat a) @ rest) = Some (a, rest)"
proof -
  have "length (decimal (unat a)) \<le> 3" by (simp add: decimal_length_octet)
  moreover have "hd (decimal (unat a)) = CHR ''0'' \<Longrightarrow> length (decimal (unat a)) = 1"
    by (simp only: decimal_hd_zero) (simp add: decimal.simps)
  ultimately show ?thesis
    by (auto simp: read_octet_def Let_def takeWhile_digits_decimal [OF assms] not_less)
qed

lemma dot_not_digit [simp]: "\<not> is_ascii_digit (CHR ''.'')"
  by (simp add: is_ascii_digit_def)

lemma read_dot_simp [simp]: "read_dot (CHR ''.'' # s) = Some s"
  by (simp add: read_dot_def)

lemma read_dot_Some: "read_dot s = Some t \<longleftrightarrow> s = CHR ''.'' # t"
  by (auto simp: read_dot_def split: list.splits)

lemma parse_show_ipv4 [wire_simps]: "parse_ipv4_addr (show_ipv4 x) = Some x"
proof (cases x)
  case (Ipv4 a b c d)
  have "length (decimal (unat e)) \<le> 3" for e :: u8 by (simp add: decimal_length_octet)
  from this [of a] this [of b] this [of c] this [of d]
  have "length (show_ipv4 x) \<le> 15" by (simp add: Ipv4)
  then show ?thesis
    using read_octet_decimal [of "[]" d] by (simp add: Ipv4 parse_ipv4_addr_def read_octet_decimal)
qed

lemma read_octet_Some:
  assumes "read_octet s = Some (a, rest)"
  shows "s = decimal (unat a) @ rest"
proof -
  let ?ds = "takeWhile is_ascii_digit s"
  from assms have ds: "?ds \<noteq> []" "hd ?ds \<noteq> CHR ''0'' \<or> length ?ds = 1" "digits_value ?ds \<le> 255"
    and a: "a = of_nat (digits_value ?ds)" and rest: "rest = dropWhile is_ascii_digit s"
    by (auto simp: read_octet_def Let_def not_less le_Suc_eq split: if_splits)
  have "list_all is_ascii_digit ?ds" by (auto simp: list_all_iff dest: set_takeWhileD)
  with ds have "decimal (digits_value ?ds) = ?ds" by (intro decimal_digits_value) auto
  moreover have "unat a = digits_value ?ds" using a ds(3) by (simp add: unat_of_nat)
  ultimately show ?thesis using rest by simp
qed

lemma parse_ipv4_addr_Some: "parse_ipv4_addr s = Some x \<longleftrightarrow> s = show_ipv4 x"
proof
  assume "parse_ipv4_addr s = Some x"
  then show "s = show_ipv4 x"
    by (auto simp: parse_ipv4_addr_def read_dot_Some bind_eq_Some_conv dest!: read_octet_Some
             split: if_splits)
qed (simp add: parse_show_ipv4)

lemma plain_word_Cons: "plain_word (c # w) \<longleftrightarrow> \<not> is_ascii_whitespace c \<and> (w = [] \<or> plain_word w)"
  by (auto simp: plain_word_def)

lemma show_ipv4_plain [simp]: "plain_word (show_ipv4 x)"
  by (cases x) (simp add: plain_word_append plain_word_Cons, simp add: is_ascii_whitespace_def)

lemma show_ipv4_ascii [simp]: "ascii_text (show_ipv4 x)"
  by (cases x) simp

lemma show_ipv4_inject [simp]: "show_ipv4 x = show_ipv4 y \<longleftrightarrow> x = y"
  by (metis parse_show_ipv4 option.inject)

section \<open>Socket addresses\<close>

text \<open>
  An IPv6 address is eight 16-bit segments.  It prints an IPv4-mapped address with a dotted
  tail and otherwise replaces the first longest run of at least two zero segments by \<open>::\<close>.
\<close>

datatype ipv6_addr = Ipv6 u16 u16 u16 u16 u16 u16 u16 u16

fun segments :: "ipv6_addr \<Rightarrow> u16 list" where
  "segments (Ipv6 a b c d e f g h) = [a, b, c, d, e, f, g, h]"

definition hex_digit :: "nat \<Rightarrow> char" where
  "hex_digit d = (if d < 10 then char_of (48 + d) else char_of (87 + d))"

fun lower_hex :: "nat \<Rightarrow> string" where
  "lower_hex n = (if n < 16 then [hex_digit n] else lower_hex (n div 16) @ [hex_digit (n mod 16)])"

declare lower_hex.simps [simp del]

text \<open>The scan keeps the run in progress and the first longest run, each as start and length.\<close>

fun zero_run :: "nat \<Rightarrow> nat \<times> nat \<Rightarrow> nat \<times> nat \<Rightarrow> u16 list \<Rightarrow> nat \<times> nat" where
  "zero_run i current longest [] = longest"
| "zero_run i current longest (s # ss) =
     (if s = 0 then
        (let current = (if snd current = 0 then (i, 1) else (fst current, snd current + 1));
             longest = (if snd longest < snd current then current else longest)
         in zero_run (Suc i) current longest ss)
      else zero_run (Suc i) (0, 0) longest ss)"

fun join_colon :: "string list \<Rightarrow> string" where
  "join_colon [] = []"
| "join_colon [w] = w"
| "join_colon (w # ws) = w @ CHR '':'' # join_colon ws"

definition hex_segments :: "u16 list \<Rightarrow> string" where
  "hex_segments ss = join_colon (map (\<lambda>s. lower_hex (unat s)) ss)"

fun ipv4_mapped :: "u16 list \<Rightarrow> ipv4_addr option" where
  "ipv4_mapped [a, b, c, d, e, f, g, h] =
     (if [a, b, c, d, e] = [0, 0, 0, 0, 0] \<and> f = 0xFFFF
      then Some (Ipv4 (ucast (drop_bit 8 g)) (ucast g) (ucast (drop_bit 8 h)) (ucast h))
      else None)"
| "ipv4_mapped _ = None"

definition show_ipv6 :: "ipv6_addr \<Rightarrow> string" where
  "show_ipv6 x =
     (let ss = segments x in
      case ipv4_mapped ss of
        Some v4 \<Rightarrow> ''::ffff:'' @ show_ipv4 v4
      | None \<Rightarrow>
          (let (start, len) = zero_run 0 (0, 0) (0, 0) ss
           in if 1 < len
              then hex_segments (take start ss) @ ''::'' @ hex_segments (drop (start + len) ss)
              else hex_segments ss))"

datatype socket_addr =
    SocketV4 ipv4_addr u16
  | SocketV6 ipv6_addr u16 u32 u32 \<comment> \<open>address, port, flow information, scope\<close>

fun show_socket_addr :: "socket_addr \<Rightarrow> string" where
  "show_socket_addr (SocketV4 ip port) = show_ipv4 ip @ CHR '':'' # decimal (unat port)"
| "show_socket_addr (SocketV6 ip port flow scope) =
     (if scope = 0 then CHR ''['' # show_ipv6 ip @ '']:'' @ decimal (unat port)
      else CHR ''['' # show_ipv6 ip @ CHR ''%'' # decimal (unat scope) @ '']:'' @ decimal (unat port))"

text \<open>A printed endpoint is one field of a reply: it never contains whitespace.\<close>

definition field_text :: "string \<Rightarrow> bool" where
  "field_text s \<longleftrightarrow> list_all (\<lambda>c. \<not> is_ascii_whitespace c \<and> (of_char c :: nat) < 128) s"

lemma field_text_simps [simp]:
  "field_text []"
  "field_text (c # s) \<longleftrightarrow> \<not> is_ascii_whitespace c \<and> (of_char c :: nat) < 128 \<and> field_text s"
  "field_text (s @ t) \<longleftrightarrow> field_text s \<and> field_text t"
  by (auto simp: field_text_def)

lemma field_text_iff: "field_text s \<longleftrightarrow> (s = [] \<or> plain_word s) \<and> ascii_text s"
  by (auto simp: field_text_def plain_word_def ascii_text_def list_all_iff)

lemma field_text_decimal [simp]: "field_text (decimal n)"
  by (simp add: field_text_iff)

lemma field_text_ipv4 [simp]: "field_text (show_ipv4 x)"
  by (simp add: field_text_iff)

lemma field_text_lower_hex [simp]: "field_text (lower_hex n)"
proof (induction n rule: lower_hex.induct)
  case (1 n)
  have "field_text [hex_digit d]" if "d < 16" for d
    using that by (auto simp: hex_digit_def is_ascii_whitespace_def)
  with 1 show ?case by (cases "n < 16") (auto simp: lower_hex.simps [of n])
qed

lemma punctuation_field [simp]:
  "\<not> is_ascii_whitespace (CHR '':'')" "\<not> is_ascii_whitespace (CHR ''['')"
  "\<not> is_ascii_whitespace (CHR '']'')" "\<not> is_ascii_whitespace (CHR ''%'')"
  "\<not> is_ascii_whitespace (CHR ''/'')" "\<not> is_ascii_whitespace (CHR ''f'')"
  by (simp_all add: is_ascii_whitespace_def)

lemma field_text_hex_segments [simp]: "field_text (hex_segments ss)"
proof -
  have "list_all field_text ws \<Longrightarrow> field_text (join_colon ws)" for ws
    by (induction ws rule: join_colon.induct) auto
  then show ?thesis by (simp add: hex_segments_def list_all_iff)
qed

lemma field_text_ipv6 [simp]: "field_text (show_ipv6 x)"
  by (simp add: show_ipv6_def Let_def split: option.split prod.split)

lemma field_text_socket_addr [simp]: "field_text (show_socket_addr a)"
  by (cases a) simp_all

lemma show_socket_addr_plain [simp]: "plain_word (show_socket_addr a)"
proof -
  have "show_socket_addr a \<noteq> []" by (cases a) simp_all
  then show ?thesis using field_text_socket_addr [of a] by (simp add: field_text_iff)
qed

lemma show_socket_addr_ascii [simp]: "ascii_text (show_socket_addr a)"
  using field_text_socket_addr [of a] by (simp add: field_text_iff)

section \<open>Printed lengths\<close>

lemma decimal_length: "n < 10 ^ k \<Longrightarrow> 0 < k \<Longrightarrow> length (decimal n) \<le> k"
proof (induction k arbitrary: n)
  case (Suc k)
  show ?case
  proof (cases "n < 10")
    case True
    then show ?thesis by (simp add: decimal.simps [of n])
  next
    case False
    then have "0 < k" using Suc.prems(1) by (cases k) auto
    moreover have "n div 10 < 10 ^ k" using Suc.prems(1) by (simp add: less_mult_imp_div_less mult.commute)
    ultimately show ?thesis using Suc.IH [of "n div 10"] False by (simp add: decimal.simps [of n])
  qed
qed simp

lemma lower_hex_length: "n < 16 ^ k \<Longrightarrow> 0 < k \<Longrightarrow> length (lower_hex n) \<le> k"
proof (induction k arbitrary: n)
  case (Suc k)
  show ?case
  proof (cases "n < 16")
    case True
    then show ?thesis by (simp add: lower_hex.simps [of n])
  next
    case False
    then have "0 < k" using Suc.prems(1) by (cases k) auto
    moreover have "n div 16 < 16 ^ k" using Suc.prems(1) by (simp add: less_mult_imp_div_less mult.commute)
    ultimately show ?thesis using Suc.IH [of "n div 16"] False by (simp add: lower_hex.simps [of n])
  qed
qed simp

lemma hex_segments_length: "length (hex_segments ss) \<le> 5 * length ss"
proof -
  have "length (lower_hex (unat s)) \<le> 4" for s :: u16
    using unsigned_less [of s, where 'a = nat] by (intro lower_hex_length) simp_all
  then have "list_all (\<lambda>w. length w \<le> 4) (map (\<lambda>s. lower_hex (unat s)) ss)" by (simp add: list_all_iff)
  moreover have "list_all (\<lambda>w. length w \<le> 4) ws \<Longrightarrow> length (join_colon ws) \<le> 5 * length ws" for ws
    by (induction ws rule: join_colon.induct) auto
  ultimately show ?thesis by (fastforce simp: hex_segments_def)
qed

lemma show_ipv4_length: "length (show_ipv4 x) \<le> 15"
proof (cases x)
  case (Ipv4 a b c d)
  have "length (decimal (unat e)) \<le> 3" for e :: u8 by (simp add: decimal_length_octet)
  from this [of a] this [of b] this [of c] this [of d] show ?thesis by (simp add: Ipv4)
qed

lemma show_ipv6_length: "length (show_ipv6 x) \<le> 82"
proof -
  have eight: "length (segments x) = 8" by (cases x) simp
  have "length (hex_segments (take i (segments x))) \<le> 40" "length (hex_segments (drop i (segments x))) \<le> 40"
    "length (hex_segments (segments x)) \<le> 40" for i
    using hex_segments_length [of "take i (segments x)"] hex_segments_length [of "drop i (segments x)"]
      hex_segments_length [of "segments x"] eight by auto
  note bounds = this
  show ?thesis
  proof (cases "ipv4_mapped (segments x)")
    case None
    obtain i n where run: "zero_run 0 (0, 0) (0, 0) (segments x) = (i, n)" by (metis surj_pair)
    show ?thesis using bounds(1) [of i] bounds(2) [of "i + n"] bounds(3)
      by (simp add: show_ipv6_def None run Let_def)
  next
    case (Some v4)
    then show ?thesis using show_ipv4_length [of v4] by (simp add: show_ipv6_def)
  qed
qed

lemma show_socket_addr_length: "length (show_socket_addr a) \<le> 101"
proof -
  have port: "length (decimal (unat p)) \<le> 5" for p :: u16
    using unsigned_less [of p, where 'a = nat] by (intro decimal_length) simp_all
  have scope: "length (decimal (unat s)) \<le> 10" for s :: u32
    using unsigned_less [of s, where 'a = nat] by (intro decimal_length) simp_all
  show ?thesis
  proof (cases a)
    case (SocketV4 ip p)
    then show ?thesis using port [of p] show_ipv4_length [of ip] by simp
  next
    case (SocketV6 ip p f s)
    then show ?thesis using port [of p] scope [of s] show_ipv6_length [of ip] by simp
  qed
qed

end
