(* ===== verification/Sockets.thy ===== *)
theory Sockets
  imports Std_Net
begin

text \<open>
  The operating system's side of the UDP loops: what a receive call delivers into a buffer of
  a given size, the clock reading taken for a datagram, whether the following send succeeds,
  and the driver that feeds such steps to a loop body until it panics.  The locale
  \<open>service\<close> is the contract of a loop body: an invariant it keeps and a relation between
  each datagram and the reply sent for it.
\<close>

record net_step =
  ns_received :: "string + (bytes \<times> socket_addr)" \<comment> \<open>error text, or payload and source\<close>
  ns_now :: instant
  ns_send_error :: "string option"

text \<open>A datagram longer than the buffer is truncated to the buffer.\<close>

definition recv_into :: "nat \<Rightarrow> bytes \<Rightarrow> bytes" where
  "recv_into capacity payload = take capacity payload"

lemma length_recv_into [simp]: "length (recv_into n payload) = min n (length payload)"
  by (simp add: recv_into_def min.commute)

lemma recv_into_fits: "length (recv_into (Suc n) payload) \<le> n \<longleftrightarrow> length payload \<le> n"
  by (auto simp: min_def)

lemma recv_into_small [simp]: "length payload \<le> n \<Longrightarrow> recv_into n payload = payload"
  by (simp add: recv_into_def)

text \<open>\<open>Result::expect\<close> panics with its message and the debug text of the error.\<close>

definition expect_ok :: "string \<Rightarrow> string + 'a \<Rightarrow> 'a outcome" where
  "expect_ok message r = or_panic (\<lambda>e. message @ '': '' @ e) r"

definition expect_sent :: "string \<Rightarrow> string option \<Rightarrow> unit outcome" where
  "expect_sent message r =
     (case r of None \<Rightarrow> Returns () | Some e \<Rightarrow> Panics (message @ '': '' @ e))"

lemma expect_ok_simps [simp]:
  "expect_ok m (Inl e) = Panics (m @ '': '' @ e)" "expect_ok m (Inr x) = Returns x"
  by (simp_all add: expect_ok_def)

lemma expect_ok_eq_Returns [simp]: "expect_ok m r = Returns x \<longleftrightarrow> r = Inr x"
  by (cases r) auto

lemma expect_sent_simps [simp]:
  "expect_sent m None = Returns ()" "expect_sent m (Some e) = Panics (m @ '': '' @ e)"
  by (simp_all add: expect_sent_def)

lemma expect_sent_eq_Returns [simp]: "expect_sent m r = Returns x \<longleftrightarrow> r = None"
  by (cases r) auto

section \<open>Connected client sockets\<close>

text \<open>
  What the operating system does for a client socket: failures of the set-up calls and of the
  \<open>k\<close>-th send, and for the \<open>k\<close>-th receive what the network delivers (a datagram or an error) and how
  long the call waits for it.  A read timeout is part of the socket: a delivery that takes as
  long as the timeout or longer is not received, and the call fails with the system's text.
\<close>

record client_socket =
  cs_bind_error :: "string option"
  cs_connect_error :: "string option"
  cs_timeout_error :: "string option"
  cs_send_error :: "nat \<Rightarrow> string option"
  cs_read_timeout :: "duration option"
  cs_delay :: "nat \<Rightarrow> duration"
  cs_delivery :: "nat \<Rightarrow> string + bytes"
  cs_timeout_text :: string

definition set_read_timeout :: "duration \<Rightarrow> client_socket \<Rightarrow> client_socket" where
  "set_read_timeout t cs = cs\<lparr>cs_read_timeout := Some t\<rparr>"

definition in_time :: "client_socket \<Rightarrow> nat \<Rightarrow> bool" where
  "in_time cs k = (case cs_read_timeout cs of None \<Rightarrow> True | Some t \<Rightarrow> cs_delay cs k < t)"

definition cs_received :: "client_socket \<Rightarrow> nat \<Rightarrow> string + bytes" where
  "cs_received cs k = (if in_time cs k then cs_delivery cs k else Inl (cs_timeout_text cs))"

lemma set_read_timeout_simps [simp]:
  "cs_bind_error (set_read_timeout t cs) = cs_bind_error cs"
  "cs_connect_error (set_read_timeout t cs) = cs_connect_error cs"
  "cs_timeout_error (set_read_timeout t cs) = cs_timeout_error cs"
  "cs_send_error (set_read_timeout t cs) = cs_send_error cs"
  "set_read_timeout t (set_read_timeout t' cs) = set_read_timeout t cs"
  by (simp_all add: set_read_timeout_def)

lemma received_in_time:
  "cs_received (set_read_timeout t cs) k
     = (if cs_delay cs k < t then cs_delivery cs k else Inl (cs_timeout_text cs))"
  by (simp add: cs_received_def in_time_def set_read_timeout_def)

lemma received_Inr [simp]:
  "cs_received (set_read_timeout t cs) k = Inr bs \<longleftrightarrow> cs_delay cs k < t \<and> cs_delivery cs k = Inr bs"
  by (simp add: received_in_time)

text \<open>A socket without failures that delivers the given replies without delay.\<close>

definition good_socket :: "(nat \<Rightarrow> bytes) \<Rightarrow> client_socket" where
  "good_socket replies = \<lparr>cs_bind_error = None, cs_connect_error = None, cs_timeout_error = None,
     cs_send_error = (\<lambda>_. None), cs_read_timeout = None, cs_delay = (\<lambda>_. 0),
     cs_delivery = (\<lambda>k. Inr (replies k)), cs_timeout_text = ''timed out''\<rparr>"

lemma good_socket_simps [simp]:
  "cs_bind_error (good_socket replies) = None" "cs_connect_error (good_socket replies) = None"
  "cs_timeout_error (good_socket replies) = None" "cs_send_error (good_socket replies) k = None"
  by (simp_all add: good_socket_def)

lemma good_socket_received [simp]:
  "0 < t \<Longrightarrow> cs_received (set_read_timeout t (good_socket replies)) k = Inr (replies k)"
  by (simp add: good_socket_def)

section \<open>Loops\<close>

datatype run_status = Finished | Blocked | Panicked string

fun serve :: "('s \<Rightarrow> 'i \<Rightarrow> ('s \<times> 'o) outcome) \<Rightarrow> 's \<Rightarrow> 'i list \<Rightarrow> 's \<times> 'o list \<times> string option" where
  "serve step s [] = (s, [], None)"
| "serve step s (i # is) =
     (case step s i of
        Panics m \<Rightarrow> (s, [], Some m)
      | Returns (s', out) \<Rightarrow> (case serve step s' is of (t, outs, p) \<Rightarrow> (t, out # outs, p)))"

lemma serve_append:
  "serve step s (is @ js) =
     (case serve step s is of
        (t, outs, Some m) \<Rightarrow> (t, outs, Some m)
      | (t, outs, None) \<Rightarrow> (case serve step t js of (u, outs', p) \<Rightarrow> (u, outs @ outs', p)))"
  by (induction "is" arbitrary: s) (auto split: outcome.splits prod.splits option.splits)

lemma serve_length: "serve step s is = (t, outs, p) \<Longrightarrow> length outs \<le> length is
    \<and> (p = None \<longrightarrow> length outs = length is)"
  by (induction "is" arbitrary: s outs) (fastforce split: outcome.splits prod.splits)+

text \<open>What every admitted step keeps, a run of admitted steps keeps.\<close>

lemma serve_keeps:
  assumes "serve step s is = (t, outs, p)" and "list_all Q is" and "P s"
    and "\<And>s i s' out. step s i = Returns (s', out) \<Longrightarrow> Q i \<Longrightarrow> P s \<Longrightarrow> P s'"
  shows "P t"
  using assms(1-3)
proof (induction "is" arbitrary: s outs)
  case (Cons i "is")
  then show ?case by (cases "step s i") (auto split: prod.splits dest: assms(4))
qed simp

locale service =
  fixes step :: "'s \<Rightarrow> 'i \<Rightarrow> ('s \<times> 'o) outcome"
    and inv :: "'s \<Rightarrow> bool"
    and good :: "'i \<Rightarrow> 'o \<Rightarrow> bool"
  assumes step_inv: "inv s \<Longrightarrow> step s i = Returns (s', out) \<Longrightarrow> inv s'"
    and step_good: "inv s \<Longrightarrow> step s i = Returns (s', out) \<Longrightarrow> good i out"
begin

theorem serve_inv: "inv s \<Longrightarrow> serve step s is = (t, outs, p) \<Longrightarrow> inv t"
  by (induction "is" arbitrary: s outs)
    (auto split: outcome.splits prod.splits dest: step_inv)

lemma step_both: "inv s \<Longrightarrow> step s i = Returns (s', out) \<Longrightarrow> inv s' \<and> good i out"
  by (blast dest: step_inv step_good)

theorem serve_good:
  "inv s \<Longrightarrow> serve step s is = (t, outs, p) \<Longrightarrow> list_all2 good (take (length outs) is) outs"
proof (induction "is" arbitrary: s outs)
  case (Cons i "is")
  show ?case
  proof (cases "step s i")
    case (Returns r)
    obtain s' out where r: "r = (s', out)" by (cases r)
    from Cons.prems(2) Returns r obtain outs' where rest: "serve step s' is = (t, outs', p)"
      and outs: "outs = out # outs'" by (auto split: prod.splits)
    have "inv s' \<and> good i out" using step_both [OF Cons.prems(1)] Returns r by simp
    with Cons.IH [OF _ rest] outs show ?thesis by simp
  qed (use Cons.prems in simp)
qed simp

end

end
