(* ===== verification/Lease_Store.thy ===== *)
theory Lease_Store
  imports Prelude
begin

text \<open>
  The interface that the firewall's reply table, the coordinator's registrations, its pending
  challenges and the route advertisements share: a table whose entries carry a deadline, in
  which every operation first drops the entries that are due.  The locale \<open>lease_store\<close>
  states what a provider promises of \<open>get\<close>, \<open>put\<close> and \<open>prune\<close>; inside it the look-up
  after a whole history of insertions is computed once and for all.  \<open>consumable_store\<close>
  adds removal.
\<close>

text \<open>An insertion at time \<open>ins_time\<close> of a value under a key until a deadline.\<close>

record ('k, 'v) insertion =
  ins_time :: instant
  ins_key :: 'k
  ins_val :: 'v
  ins_until :: instant

text \<open>The latest insertion for a key decides what a look-up finds.\<close>

fun latest :: "'k \<Rightarrow> ('k, 'v) insertion list \<Rightarrow> ('k, 'v) insertion option" where
  "latest k [] = None"
| "latest k (i # is) =
     (case latest k is of Some j \<Rightarrow> Some j | None \<Rightarrow> if ins_key i = k then Some i else None)"

definition live_value :: "instant \<Rightarrow> ('k, 'v) insertion option \<Rightarrow> ('v \<times> instant) option" where
  "live_value now i = (case i of None \<Rightarrow> None
     | Some i \<Rightarrow> if now < ins_until i then Some (ins_val i, ins_until i) else None)"

text \<open>A table is driven by insertions and by operations that only drop due entries.\<close>

datatype ('k, 'v) lease_op = Insert "('k, 'v) insertion" | Sweep instant

fun op_time :: "('k, 'v) lease_op \<Rightarrow> instant" where
  "op_time (Insert i) = ins_time i"
| "op_time (Sweep t) = t"

fun insertions :: "('k, 'v) lease_op list \<Rightarrow> ('k, 'v) insertion list" where
  "insertions [] = []"
| "insertions (Insert i # ops) = i # insertions ops"
| "insertions (Sweep t # ops) = insertions ops"

lemma insertions_append [simp]: "insertions (xs @ ys) = insertions xs @ insertions ys"
  by (induction xs rule: insertions.induct) auto

lemma set_insertions: "i \<in> set (insertions ops) \<longleftrightarrow> Insert i \<in> set ops"
  by (induction ops rule: insertions.induct) auto

lemma sorted_insertions: "sorted (map op_time ops) \<Longrightarrow> sorted (map ins_time (insertions ops))"
  by (induction ops rule: insertions.induct) (force simp: set_insertions)+

text \<open>When every entry gets the same lifetime, the latest insertion also expires last.\<close>

lemma latest_until_max:
  "sorted (map ins_time is) \<Longrightarrow> \<forall>i \<in> set is. ins_until i = ins_time i + d \<Longrightarrow>
     latest k is = Some i \<Longrightarrow> j \<in> set is \<Longrightarrow> ins_key j = k \<Longrightarrow> ins_until j \<le> ins_until i"
proof (induction "is")
  case Nil
  then show ?case by simp
next
  case (Cons x xs)
  show ?case
  proof (cases "latest k xs")
    case None
    then have "\<forall>y \<in> set xs. ins_key y \<noteq> k" by (induction xs) (auto split: option.splits if_splits)
    with None Cons.prems show ?thesis by (auto split: if_splits)
  next
    case (Some y)
    then have "y \<in> set xs" by (induction xs) (auto split: option.splits if_splits)
    with Some Cons show ?thesis by auto
  qed
qed

lemma live_value_simps [simp]:
  "live_value now None = None"
  "live_value now (Some i) = (if now < ins_until i then Some (ins_val i, ins_until i) else None)"
  by (simp_all add: live_value_def)

lemma latest_Some: "latest k is = Some i \<Longrightarrow> i \<in> set is \<and> ins_key i = k"
  by (induction "is") (auto split: option.splits if_splits)

lemma latest_None: "latest k is = None \<longleftrightarrow> (\<forall>i \<in> set is. ins_key i \<noteq> k)"
  by (induction "is") (auto split: option.splits)

lemma latest_append:
  "latest k (is @ js) = (case latest k js of Some j \<Rightarrow> Some j | None \<Rightarrow> latest k is)"
  by (induction "is") (auto split: option.splits)

locale lease_store =
  fixes get :: "'s \<Rightarrow> 'k \<Rightarrow> ('v \<times> instant) option"
    and put :: "'k \<Rightarrow> 'v \<Rightarrow> instant \<Rightarrow> 's \<Rightarrow> 's"
    and prune :: "instant \<Rightarrow> 's \<Rightarrow> 's"
    and inv :: "'s \<Rightarrow> bool"
  assumes get_put: "inv s \<Longrightarrow> get (put k v e s) k' = (if k' = k then Some (v, e) else get s k')"
    and get_prune: "inv s \<Longrightarrow>
      get (prune now s) k =
        (case get s k of None \<Rightarrow> None | Some (v, e) \<Rightarrow> if now < e then Some (v, e) else None)"
    and inv_put: "inv s \<Longrightarrow> inv (put k v e s)"
    and inv_prune: "inv s \<Longrightarrow> inv (prune now s)"
begin

definition insert_at :: "('k, 'v) insertion \<Rightarrow> 's \<Rightarrow> 's" where
  "insert_at i s = put (ins_key i) (ins_val i) (ins_until i) (prune (ins_time i) s)"

fun run_ops :: "('k, 'v) lease_op list \<Rightarrow> 's \<Rightarrow> 's" where
  "run_ops [] s = s"
| "run_ops (Insert i # ops) s = run_ops ops (insert_at i s)"
| "run_ops (Sweep t # ops) s = run_ops ops (prune t s)"

lemma inv_insert_at: "inv s \<Longrightarrow> inv (insert_at i s)"
  by (simp add: insert_at_def inv_put inv_prune)

lemma inv_run_ops: "inv s \<Longrightarrow> inv (run_ops ops s)"
  by (induction ops s rule: run_ops.induct) (simp_all add: inv_insert_at inv_prune)

lemma run_ops_append: "run_ops (xs @ ys) s = run_ops ys (run_ops xs s)"
  by (induction xs s rule: run_ops.induct) auto

lemma get_pruned_live: "inv s \<Longrightarrow> get (prune now s) k = Some (v, e) \<Longrightarrow> now < e"
  by (auto simp: get_prune split: option.splits if_splits)

lemma get_prune_prune:
  "inv s \<Longrightarrow> t \<le> now \<Longrightarrow> get (prune now (prune t s)) k = get (prune now s) k"
  by (auto simp: get_prune inv_prune split: option.splits)

text \<open>
  The history theorem: after operations in chronological order a look-up finds the latest
  insertion for its key if that has not expired, and otherwise what the table held before.
\<close>

theorem get_history:
  assumes "inv s" and "sorted (map op_time ops @ [now])"
  shows "get (prune now (run_ops ops s)) k =
     (case latest k (insertions ops) of Some i \<Rightarrow> live_value now (Some i)
      | None \<Rightarrow> get (prune now s) k)"
  using assms
proof (induction ops s rule: run_ops.induct)
  case (1 s)
  then show ?case by simp
next
  case (2 i ops s)
  then have now: "ins_time i \<le> now" by (auto simp: sorted_append)
  have "get (prune now (insert_at i s)) k =
      (if ins_key i = k then live_value now (Some i) else get (prune now s) k)"
    using 2(2) now
    by (auto simp: insert_at_def get_prune get_put inv_put inv_prune split: option.splits)
  with 2 show ?case by (auto simp: inv_insert_at sorted_append split: option.splits)
next
  case (3 t ops s)
  then have "t \<le> now" by (auto simp: sorted_append)
  with 3 show ?case by (auto simp: get_prune_prune inv_prune split: option.splits)
qed

text \<open>With one lifetime for all entries, a key is present exactly while some insertion lives.\<close>

theorem present_iff_live:
  assumes "inv s" and "sorted (map op_time ops @ [now])" and "get (prune now s) k = None"
    and "\<forall>i \<in> set (insertions ops). ins_until i = ins_time i + d"
  shows "get (prune now (run_ops ops s)) k \<noteq> None \<longleftrightarrow>
     (\<exists>i \<in> set (insertions ops). ins_key i = k \<and> now < ins_until i)"
proof (cases "latest k (insertions ops)")
  case None
  with get_history [OF assms(1,2), of k] assms(3) show ?thesis by (simp add: latest_None)
next
  case (Some i)
  have sorted: "sorted (map ins_time (insertions ops))"
    using assms(2) by (simp add: sorted_append sorted_insertions)
  have last: "ins_until j \<le> ins_until i" if "j \<in> set (insertions ops)" "ins_key j = k" for j
    by (rule latest_until_max [OF sorted assms(4) Some that])
  have "get (prune now (run_ops ops s)) k \<noteq> None \<longleftrightarrow> now < ins_until i"
    using get_history [OF assms(1,2), of k] Some by simp
  moreover have "now < ins_until i \<longleftrightarrow> (\<exists>j \<in> set (insertions ops). ins_key j = k \<and> now < ins_until j)"
  proof
    show "now < ins_until i \<Longrightarrow> \<exists>j \<in> set (insertions ops). ins_key j = k \<and> now < ins_until j"
      using latest_Some [OF Some] by blast
  next
    assume "\<exists>j \<in> set (insertions ops). ins_key j = k \<and> now < ins_until j"
    then show "now < ins_until i" using last order.strict_trans2 by blast
  qed
  ultimately show ?thesis by simp
qed

end

locale consumable_store = lease_store get put prune inv
  for get :: "'s \<Rightarrow> 'k \<Rightarrow> ('v \<times> instant) option"
    and put :: "'k \<Rightarrow> 'v \<Rightarrow> instant \<Rightarrow> 's \<Rightarrow> 's"
    and prune :: "instant \<Rightarrow> 's \<Rightarrow> 's"
    and inv :: "'s \<Rightarrow> bool" +
  fixes remove :: "'k \<Rightarrow> 's \<Rightarrow> 's"
  assumes get_remove: "inv s \<Longrightarrow> get (remove k s) k' = (if k' = k then None else get s k')"
    and inv_remove: "inv s \<Longrightarrow> inv (remove k s)"
begin

text \<open>A consumed entry stays away until it is inserted again.\<close>

theorem get_removed:
  assumes "inv s" and "sorted (map op_time ops @ [now])"
    and "\<forall>i \<in> set (insertions ops). ins_key i \<noteq> k"
  shows "get (prune now (run_ops ops (remove k s))) k = None"
proof -
  from assms(3) have "latest k (insertions ops) = None" by (simp add: latest_None)
  with get_history [OF inv_remove [OF assms(1)] assms(2)] show ?thesis
    by (simp add: get_prune get_remove inv_remove assms(1))
qed

end

section \<open>Hash-map tables\<close>

text \<open>
  The three tables kept in a \<open>HashMap\<close> differ only in where the deadline is stored; the
  accessor \<open>view\<close> reads value and deadline of a stored entry.
\<close>

definition drop_due :: "('e \<Rightarrow> instant) \<Rightarrow> instant \<Rightarrow> ('k, 'e) fmap \<Rightarrow> ('k, 'e) fmap" where
  "drop_due due now m = retain (\<lambda>_ e. now < due e) m"

lemma fmlookup_drop_due [lease_simps]:
  "fmlookup (drop_due due now m) k =
     (case fmlookup m k of None \<Rightarrow> None | Some e \<Rightarrow> if now < due e then Some e else None)"
  by (simp add: drop_due_def)

lemma drop_due_drop_due [lease_simps]:
  "drop_due due now (drop_due due t m) = drop_due due (max now t) m"
  by (simp add: drop_due_def retain_retain)

lemma drop_due_idem: "drop_due due now (drop_due due now m) = drop_due due now m"
  by (simp add: drop_due_drop_due)

end
