(* ===== verification/Routing.thy ===== *)
theory Routing
  imports Std_Net Lease_Store
begin

text \<open>
  \<open>src/routing.rs\<close>: IPv4 prefixes and the expiring table of route advertisements.  The
  lemmas give the numeric meaning of a prefix, the inverse of parsing and printing, the
  invariant of the advertisement list and what a look-up selects after any history of
  advertisements.
\<close>

section \<open>Prefixes\<close>

record ipv4_prefix =
  pfx_network :: ipv4_addr
  pfx_length :: u8

definition prefix_mask :: "u8 \<Rightarrow> u32" where
  "prefix_mask len = (if len = 0 then 0 else push_bit (unat (32 - len)) 0xFFFFFFFF)"

definition prefix_contains :: "ipv4_prefix \<Rightarrow> ipv4_addr \<Rightarrow> bool" where
  "prefix_contains p address \<longleftrightarrow>
     u32_of_ipv4 address AND prefix_mask (pfx_length p) = u32_of_ipv4 (pfx_network p)"

definition show_prefix :: "ipv4_prefix \<Rightarrow> string" where
  "show_prefix p = show_ipv4 (pfx_network p) @ CHR ''/'' # decimal (unat (pfx_length p))"

definition split_once :: "char \<Rightarrow> string \<Rightarrow> (string \<times> string) option" where
  "split_once c s =
     (if c \<in> set s then Some (takeWhile (\<lambda>d. d \<noteq> c) s, tl (dropWhile (\<lambda>d. d \<noteq> c) s)) else None)"

definition parse_prefix :: "string \<Rightarrow> ipv4_prefix result" where
  "parse_prefix value =
     and_then (ok_or ''prefix must be ADDRESS/LENGTH'' (split_once (CHR ''/'') value))
       (\<lambda>(address, len).
     and_then (ok_or ''prefix address must be IPv4'' (parse_ipv4_addr address)) (\<lambda>address.
     and_then (ok_or ''prefix length must be an integer'' (parse_unsigned u8_max len)) (\<lambda>n.
     let len = (of_nat n :: u8) in
     if len > 32 then Err ''IPv4 prefix length must be between 0 and 32''
     else
       let network = ipv4_of_u32 (u32_of_ipv4 address AND prefix_mask len) in
       if network \<noteq> address
       then Err (''prefix has host bits set; use '' @ show_ipv4 network @ ''/'' @ decimal (unat len))
       else Ok \<lparr>pfx_network = network, pfx_length = len\<rparr>)))"

text \<open>The invariant of every prefix the parser returns.\<close>

definition wf_prefix :: "ipv4_prefix \<Rightarrow> bool" where
  "wf_prefix p \<longleftrightarrow> pfx_length p \<le> 32
     \<and> u32_of_ipv4 (pfx_network p) AND prefix_mask (pfx_length p) = u32_of_ipv4 (pfx_network p)"

lemma unat_32_minus: "len \<le> (32 :: u8) \<Longrightarrow> unat (32 - len) = 32 - unat len"
  by (simp add: unat_sub word_le_nat_alt)

lemma bit_prefix_mask:
  assumes "len \<le> (32 :: u8)"
  shows "bit (prefix_mask len) n \<longleftrightarrow> n < 32 \<and> 32 - unat len \<le> n"
proof (cases "len = 0")
  case True
  then show ?thesis by (simp add: prefix_mask_def)
next
  case False
  have ones: "(0xFFFFFFFF :: u32) = mask 32" by (simp add: mask_eq_exp_minus_1)
  show ?thesis
    using False assms unfolding prefix_mask_def ones by (auto simp: bit_simps unat_32_minus)
qed

lemma prefix_mask_eq_not_mask:
  assumes "len \<le> (32 :: u8)"
  shows "prefix_mask len = NOT (mask (32 - unat len))"
  by (rule bit_word_eqI) (auto simp: bit_prefix_mask [OF assms] bit_simps)

lemma unat_and_prefix_mask:
  assumes "len \<le> (32 :: u8)"
  shows "unat (a AND prefix_mask len) = unat a - unat a mod 2 ^ (32 - unat len)"
proof -
  let ?k = "32 - unat len"
  have split: "(a AND mask ?k) + (a AND NOT (mask ?k)) = a"
    by (subst disjunctive_add_eq_or) (auto simp: bit_eq_iff bit_simps)
  have low: "unat (a AND mask ?k) = unat a mod 2 ^ ?k"
    by (simp only: take_bit_eq_mask [symmetric] unsigned_take_bit_eq)
      (simp only: take_bit_eq_mod)
  have "a AND NOT (mask ?k) = a - (a AND mask ?k)"
    using split by (metis add_diff_cancel_left')
  moreover have "a AND mask ?k \<le> a" by (simp add: word_and_le2)
  ultimately show ?thesis
    using low by (simp add: prefix_mask_eq_not_mask [OF assms] unat_sub)
qed

lemma div_eq_iff_interval:
  "0 < d \<Longrightarrow> (x :: nat) div d = q \<longleftrightarrow> d * q \<le> x \<and> x < d * q + d"
  using dividend_less_times_div [of d x] by (auto intro: div_nat_eqI)

text \<open>A well-formed prefix of length \<open>len\<close> is the interval of \<open>2 ^ (32 - len)\<close> addresses
  that starts at its network address.\<close>

lemma prefix_contains_interval:
  assumes "wf_prefix p"
  shows "prefix_contains p a \<longleftrightarrow>
     unat (u32_of_ipv4 (pfx_network p)) \<le> unat (u32_of_ipv4 a) \<and>
     unat (u32_of_ipv4 a) < unat (u32_of_ipv4 (pfx_network p)) + 2 ^ (32 - unat (pfx_length p))"
proof -
  define k where "k = 32 - unat (pfx_length p)"
  define net where "net = unat (u32_of_ipv4 (pfx_network p))"
  define x where "x = unat (u32_of_ipv4 a)"
  have len: "pfx_length p \<le> 32" using assms by (simp add: wf_prefix_def)
  have "prefix_contains p a \<longleftrightarrow> x - x mod 2 ^ k = net"
    unfolding prefix_contains_def word_unat_eq_iff unat_and_prefix_mask [OF len]
    by (simp add: k_def net_def x_def)
  moreover have "net - net mod 2 ^ k = net"
    using assms unat_and_prefix_mask [OF len, of "u32_of_ipv4 (pfx_network p)"]
    by (simp add: wf_prefix_def k_def net_def)
  then have "net mod 2 ^ k = 0" using mod_less_eq_dividend [of net "2 ^ k"] by linarith
  then obtain q where q: "net = 2 ^ k * q" by (auto simp: mod_eq_0_iff_dvd dvd_def)
  have "x - x mod 2 ^ k = net \<longleftrightarrow> x div 2 ^ k = q"
    by (auto simp: q minus_mod_eq_mult_div)
  moreover have "x div 2 ^ k = q \<longleftrightarrow> net \<le> x \<and> x < net + 2 ^ k"
    by (simp add: q div_eq_iff_interval)
  ultimately show ?thesis by (simp add: k_def net_def x_def)
qed

text \<open>As a block of addresses: from the network address to the last one.\<close>

definition last_address :: "ipv4_prefix \<Rightarrow> ipv4_addr" where
  "last_address p = ipv4_of_u32 (u32_of_ipv4 (pfx_network p) OR NOT (prefix_mask (pfx_length p)))"

lemma unat_last_address:
  assumes "wf_prefix p"
  shows "unat (u32_of_ipv4 (last_address p)) + 1
     = unat (u32_of_ipv4 (pfx_network p)) + 2 ^ (32 - unat (pfx_length p))"
proof -
  let ?k = "32 - unat (pfx_length p)" and ?net = "u32_of_ipv4 (pfx_network p)"
  have len: "pfx_length p \<le> 32" using assms by (simp add: wf_prefix_def)
  have "?net = ?net AND NOT (mask ?k)"
    using assms by (simp add: wf_prefix_def prefix_mask_eq_not_mask [OF len])
  then have clear: "?net AND mask ?k = 0" by (metis and.assoc bit.conj_cancel_left bit.conj_zero_right)
  then have sum: "?net OR mask ?k = ?net + mask ?k" by (simp add: disjunctive_add_eq_or)
  have "unat (mask ?k :: u32) = mask ?k" by (rule bit_eqI) (auto simp: bit_simps)
  then have "unat (mask ?k :: u32) + 1 = 2 ^ ?k" by (simp add: mask_eq_exp_minus_1)
  moreover have "unat (?net + mask ?k) = unat ?net + unat (mask ?k :: u32)"
    by (intro unat_plus_simple [THEN iffD1]) (simp only: sum [symmetric] le_word_or2)
  ultimately show ?thesis
    by (simp add: last_address_def prefix_mask_eq_not_mask [OF len] sum)
qed

lemma prefix_is_block:
  assumes "wf_prefix p"
  shows "{a. prefix_contains p a} = {pfx_network p..last_address p}"
  using unat_last_address [OF assms]
  by (auto simp: prefix_contains_interval [OF assms] less_eq_ipv4_addr_def word_le_nat_alt)

lemma card_addresses: "card {x..y} = card {u32_of_ipv4 x..u32_of_ipv4 y}"
proof -
  have "u32_of_ipv4 ` {x..y} = {u32_of_ipv4 x..u32_of_ipv4 y}"
  proof
    show "{u32_of_ipv4 x..u32_of_ipv4 y} \<subseteq> u32_of_ipv4 ` {x..y}"
    proof
      fix w assume "w \<in> {u32_of_ipv4 x..u32_of_ipv4 y}"
      then have "ipv4_of_u32 w \<in> {x..y}" by (simp add: less_eq_ipv4_addr_def)
      then show "w \<in> u32_of_ipv4 ` {x..y}" by (metis image_eqI u32_of_ipv4_of_u32)
    qed
  qed (auto simp: less_eq_ipv4_addr_def)
  moreover have "inj_on u32_of_ipv4 {x..y}" by (simp add: inj_on_def)
  ultimately show ?thesis by (metis card_image)
qed

lemma card_words: "card {v..w :: u32} = unat w + 1 - unat v"
proof -
  have "unat ` {v..w} = {unat v..unat w}"
  proof
    show "{unat v..unat w} \<subseteq> unat ` {v..w}"
    proof
      fix n assume n: "n \<in> {unat v..unat w}"
      then have "n < 2 ^ LENGTH(32)" using unsigned_less [of w, where 'a = nat] by simp
      then have "unat (of_nat n :: u32) = n" by (simp add: unat_of_nat)
      with n show "n \<in> unat ` {v..w}"
        by (intro image_eqI [of _ _ "of_nat n"]) (simp_all add: word_le_nat_alt)
    qed
  qed (auto simp: word_le_nat_alt)
  moreover have "inj_on unat {v..w}" by (simp add: inj_on_def word_unat_eq_iff)
  ultimately have "card {v..w} = card {unat v..unat w}" by (metis card_image)
  then show ?thesis by simp
qed

lemma card_prefix:
  assumes "wf_prefix p"
  shows "card {a. prefix_contains p a} = 2 ^ (32 - unat (pfx_length p))"
  using unat_last_address [OF assms]
  by (simp add: prefix_is_block [OF assms] card_addresses card_words)

lemma wf_prefix_mask:
  assumes "len \<le> 32"
  shows "wf_prefix \<lparr>pfx_network = ipv4_of_u32 (a AND prefix_mask len), pfx_length = len\<rparr>"
  using assms by (simp add: wf_prefix_def and.assoc)

lemma parse_prefix_wf: "parse_prefix s = Ok p \<Longrightarrow> wf_prefix p"
  by (auto simp: parse_prefix_def Let_def not_less split: if_splits) (metis wf_prefix_mask)

lemma show_ipv4_no_slash: "CHR ''/'' \<notin> set (show_ipv4 x)"
proof -
  have "CHR ''/'' \<notin> set (decimal n)" for n
    using decimal_digits [of n] by (auto simp: list_all_iff is_ascii_digit_def)
  then show ?thesis by (cases x) simp
qed

lemma split_once_append: "c \<notin> set u \<Longrightarrow> split_once c (u @ c # v) = Some (u, v)"
  by (auto simp: split_once_def takeWhile_append dropWhile_append)

lemma parse_show_prefix:
  assumes "wf_prefix p"
  shows "parse_prefix (show_prefix p) = Ok p"
proof -
  have "pfx_length p \<le> 32" using assms by (simp add: wf_prefix_def)
  moreover from this have "unat (pfx_length p) \<le> u8_max" by (simp add: u8_max_def)
  ultimately show ?thesis using assms
    by (simp add: parse_prefix_def show_prefix_def split_once_append show_ipv4_no_slash
        parse_show_ipv4 parse_unsigned_decimal wf_prefix_def not_less Let_def)
qed

interpretation cidr: codec show_prefix parse_prefix wf_prefix
  by unfold_locales (simp_all add: parse_show_prefix parse_prefix_wf)

lemma show_prefix_field [simp]: "field_text (show_prefix p)"
  by (simp add: show_prefix_def)

lemma show_prefix_plain [simp]: "plain_word (show_prefix p)"
  using show_prefix_field [of p] by (simp add: field_text_iff show_prefix_def)

lemma show_prefix_ascii [simp]: "ascii_text (show_prefix p)"
  using show_prefix_field [of p] by (simp add: field_text_iff)

text \<open>Two prefixes of equal length that contain a common address are equal.\<close>

lemma prefix_unique:
  "prefix_contains p a \<Longrightarrow> prefix_contains q a \<Longrightarrow> pfx_length p = pfx_length q \<Longrightarrow> p = q"
  by (auto simp: prefix_contains_def)

section \<open>The advertisement table\<close>

record selected_route =
  sr_prefix :: ipv4_prefix
  sr_node_id :: string

record advertisement =
  ad_route :: selected_route
  ad_expires_at :: instant

record route_registry =
  advertisements :: "advertisement list"

definition empty_routes :: route_registry where
  "empty_routes = \<lparr>advertisements = []\<rparr>"

definition remove_expired_routes :: "instant \<Rightarrow> route_registry \<Rightarrow> route_registry" where
  "remove_expired_routes now r =
     r\<lparr>advertisements := filter (\<lambda>ad. now < ad_expires_at ad) (advertisements r)\<rparr>"

definition advertise ::
  "string \<Rightarrow> ipv4_prefix \<Rightarrow> duration \<Rightarrow> instant \<Rightarrow> route_registry \<Rightarrow> route_registry outcome" where
  "advertise node_id prefix lease now r =
     (let r = remove_expired_routes now r in
      out_bind (expect ''route expiration is outside Instant's range'' (checked_add_instant now lease))
        (\<lambda>expires_at.
      let kept = filter (\<lambda>ad. \<not> (sr_node_id (ad_route ad) = node_id
                                 \<and> sr_prefix (ad_route ad) = prefix)) (advertisements r);
          fresh = \<lparr>ad_route = \<lparr>sr_prefix = prefix, sr_node_id = node_id\<rparr>,
                   ad_expires_at = expires_at\<rparr>
      in Returns (r\<lparr>advertisements := kept @ [fresh]\<rparr>)))"

definition lookup_route ::
  "ipv4_addr \<Rightarrow> instant \<Rightarrow> route_registry \<Rightarrow> route_registry \<times> selected_route option" where
  "lookup_route destination now r =
     (let r = remove_expired_routes now r in
      (r, map_option ad_route
            (max_by_key (\<lambda>ad. pfx_length (sr_prefix (ad_route ad)))
               (filter (\<lambda>ad. prefix_contains (sr_prefix (ad_route ad)) destination)
                  (advertisements r)))))"

text \<open>The invariant: at most one advertisement per node and prefix.\<close>

definition ad_key :: "advertisement \<Rightarrow> string \<times> ipv4_prefix" where
  "ad_key ad = (sr_node_id (ad_route ad), sr_prefix (ad_route ad))"

definition routes_inv :: "route_registry \<Rightarrow> bool" where
  "routes_inv r \<longleftrightarrow> distinct (map ad_key (advertisements r))"

lemma routes_inv_empty [simp]: "routes_inv empty_routes"
  by (simp add: routes_inv_def empty_routes_def)

lemma routes_inv_remove_expired: "routes_inv r \<Longrightarrow> routes_inv (remove_expired_routes now r)"
  by (simp add: routes_inv_def remove_expired_routes_def distinct_map_filter)

lemma not_same_ad: "(\<not> (sr_node_id (ad_route ad) = n \<and> sr_prefix (ad_route ad) = p)) \<longleftrightarrow> ad_key ad \<noteq> (n, p)"
  by (auto simp: ad_key_def)

lemma routes_inv_advertise:
  "routes_inv r \<Longrightarrow> advertise n p lease now r = Returns r' \<Longrightarrow> routes_inv r'"
  by (auto simp: advertise_def Let_def routes_inv_def remove_expired_routes_def not_same_ad
      distinct_map_filter ad_key_def)

lemma routes_inv_lookup: "routes_inv r \<Longrightarrow> routes_inv (fst (lookup_route d now r))"
  by (simp add: lookup_route_def Let_def routes_inv_remove_expired)

section \<open>The table as a lease store\<close>

definition routes_get :: "route_registry \<Rightarrow> string \<times> ipv4_prefix \<Rightarrow> (unit \<times> instant) option" where
  "routes_get r k = map_option (\<lambda>ad. ((), ad_expires_at ad))
     (find (\<lambda>ad. ad_key ad = k) (advertisements r))"

definition routes_put :: "string \<times> ipv4_prefix \<Rightarrow> unit \<Rightarrow> instant \<Rightarrow> route_registry \<Rightarrow> route_registry" where
  "routes_put k _ expires_at r =
     r\<lparr>advertisements := filter (\<lambda>ad. ad_key ad \<noteq> k) (advertisements r)
        @ [\<lparr>ad_route = \<lparr>sr_prefix = snd k, sr_node_id = fst k\<rparr>, ad_expires_at = expires_at\<rparr>]\<rparr>"

lemma advertise_eq_put:
  "advertise n p lease now r =
     out_bind (expect ''route expiration is outside Instant's range'' (checked_add_instant now lease))
       (\<lambda>e. Returns (routes_put (n, p) () e (remove_expired_routes now r)))"
  by (simp add: advertise_def Let_def routes_put_def ad_key_def)

lemma ad_key_fresh [simp]:
  "ad_key \<lparr>ad_route = \<lparr>sr_prefix = p, sr_node_id = n\<rparr>, ad_expires_at = e\<rparr> = (n, p)"
  by (simp add: ad_key_def)

lemma find_append: "find P (xs @ ys) = (case find P xs of None \<Rightarrow> find P ys | Some x \<Rightarrow> Some x)"
  by (induction xs) auto

lemma find_other_key: "find (\<lambda>ad. ad_key ad = k') (filter (\<lambda>ad. ad_key ad \<noteq> k) ads) =
    (if k' = k then None else find (\<lambda>ad. ad_key ad = k') ads)"
  by (induction ads) auto

lemma find_live_key:
  "distinct (map ad_key ads) \<Longrightarrow> find (\<lambda>ad. ad_key ad = k) (filter (\<lambda>ad. now < ad_expires_at ad) ads) =
     (case find (\<lambda>ad. ad_key ad = k) ads of None \<Rightarrow> None
      | Some ad \<Rightarrow> if now < ad_expires_at ad then Some ad else None)"
proof (induction ads)
  case Nil
  then show ?case by simp
next
  case (Cons ad ads)
  show ?case
  proof (cases "ad_key ad = k")
    case True
    with Cons.prems have "find (\<lambda>ad. ad_key ad = k) (filter (\<lambda>ad. now < ad_expires_at ad) ads) = None"
      by (auto simp: find_None_iff image_iff)
    with True show ?thesis by simp
  next
    case False
    with Cons show ?thesis by simp
  qed
qed

interpretation routes: lease_store routes_get routes_put remove_expired_routes routes_inv
proof
  fix r :: route_registry and k :: "string \<times> ipv4_prefix" and k' v e now
  assume inv: "routes_inv r"
  show "routes_get (routes_put k v e r) k' = (if k' = k then Some (v, e) else routes_get r k')"
    by (cases k) (auto simp: routes_get_def routes_put_def find_append find_other_key split: option.split)
  show "routes_get (remove_expired_routes now r) k' = (case routes_get r k' of None \<Rightarrow> None
      | Some (v, e) \<Rightarrow> if now < e then Some (v, e) else None)"
    using inv by (simp add: routes_get_def remove_expired_routes_def find_live_key routes_inv_def
        split: option.split)
  show "routes_inv (routes_put k v e r)"
    using inv by (cases k) (auto simp: routes_inv_def routes_put_def distinct_map_filter)
  show "routes_inv (remove_expired_routes now r)"
    using inv by (rule routes_inv_remove_expired)
qed

section \<open>An advertisement that stays selected\<close>

text \<open>The table holds the route until \<open>e\<close>, and the fold over the candidates for the
  destination ends at it: no candidate before it is longer, every one after it is shorter.\<close>

abbreviation route_ad :: "string \<Rightarrow> ipv4_prefix \<Rightarrow> instant \<Rightarrow> advertisement" where
  "route_ad n p e \<equiv> \<lparr>ad_route = \<lparr>sr_prefix = p, sr_node_id = n\<rparr>, ad_expires_at = e\<rparr>"

abbreviation candidate_length :: "advertisement \<Rightarrow> u8" where
  "candidate_length ad \<equiv> pfx_length (sr_prefix (ad_route ad))"

definition not_longer :: "ipv4_addr \<Rightarrow> ipv4_prefix \<Rightarrow> advertisement list \<Rightarrow> bool" where
  "not_longer d p ads \<longleftrightarrow>
     list_all (\<lambda>ad. prefix_contains (sr_prefix (ad_route ad)) d \<longrightarrow> candidate_length ad \<le> pfx_length p) ads"

definition all_shorter :: "ipv4_addr \<Rightarrow> ipv4_prefix \<Rightarrow> advertisement list \<Rightarrow> bool" where
  "all_shorter d p ads \<longleftrightarrow>
     list_all (\<lambda>ad. prefix_contains (sr_prefix (ad_route ad)) d \<longrightarrow> candidate_length ad < pfx_length p) ads"

lemma not_longer_filter: "not_longer d p ads \<Longrightarrow> not_longer d p (filter P ads)"
  by (auto simp: not_longer_def list_all_iff)

lemma all_shorter_filter: "all_shorter d p ads \<Longrightarrow> all_shorter d p (filter P ads)"
  by (auto simp: all_shorter_def list_all_iff)

definition route_wins :: "ipv4_addr \<Rightarrow> string \<Rightarrow> ipv4_prefix \<Rightarrow> instant \<Rightarrow> route_registry \<Rightarrow> bool" where
  "route_wins d n p e r \<longleftrightarrow> prefix_contains p d \<and>
     (\<exists>ys zs. advertisements r = ys @ route_ad n p e # zs \<and> not_longer d p ys \<and> all_shorter d p zs)"

text \<open>Advertisements that cannot displace it: another key, and not as specific for the destination.\<close>

definition yields_to :: "ipv4_addr \<Rightarrow> string \<Rightarrow> ipv4_prefix \<Rightarrow> string \<Rightarrow> ipv4_prefix \<Rightarrow> bool" where
  "yields_to d n p m q \<longleftrightarrow> (m, q) \<noteq> (n, p) \<and> (prefix_contains q d \<longrightarrow> pfx_length q < pfx_length p)"

lemma route_wins_prune:
  assumes "route_wins d n p e r" and "now < e"
  shows "route_wins d n p e (remove_expired_routes now r)"
proof -
  obtain ys zs where "advertisements r = ys @ route_ad n p e # zs"
    and "not_longer d p ys"
    and "all_shorter d p zs"
    using assms(1) by (auto simp: route_wins_def)
  then show ?thesis
    using assms unfolding route_wins_def
    by (intro conjI exI [of _ "filter (\<lambda>ad. now < ad_expires_at ad) ys"]
        exI [of _ "filter (\<lambda>ad. now < ad_expires_at ad) zs"]) (simp_all add: remove_expired_routes_def not_longer_filter all_shorter_filter)
qed

lemma route_wins_put_other:
  assumes "route_wins d n p e r" and "yields_to d n p m q"
  shows "route_wins d n p e (routes_put (m, q) () u r)"
proof -
  obtain ys zs where "advertisements r = ys @ route_ad n p e # zs"
    and "not_longer d p ys"
    and "all_shorter d p zs"
    using assms(1) by (auto simp: route_wins_def)
  moreover have "(n, p) \<noteq> (m, q)" and "prefix_contains q d \<longrightarrow> pfx_length q < pfx_length p"
    using assms(2) by (auto simp: yields_to_def)
  ultimately show ?thesis
    using assms(1) unfolding route_wins_def
    by (intro conjI exI [of _ "filter (\<lambda>ad. ad_key ad \<noteq> (m, q)) ys"]
        exI [of _ "filter (\<lambda>ad. ad_key ad \<noteq> (m, q)) zs @
          [route_ad m q u]"]) (auto simp: routes_put_def not_longer_filter all_shorter_filter
          [unfolded all_shorter_def] all_shorter_def)
qed

lemma route_wins_put:
  assumes "prefix_contains p d"
    and "not_longer d p (advertisements r)"
  shows "route_wins d n p e (routes_put (n, p) () e (remove_expired_routes now r))"
  unfolding route_wins_def
  by (intro conjI exI [of _ "filter (\<lambda>ad. ad_key ad \<noteq> (n, p)) (advertisements (remove_expired_routes now r))"]
      exI [of _ "[]"] assms(1))
    (simp_all add: routes_put_def remove_expired_routes_def all_shorter_def not_longer_filter assms(2))

lemma route_wins_lookup:
  assumes "route_wins d n p e r" and "now < e"
  shows "lookup_route d now r = (remove_expired_routes now r, Some \<lparr>sr_prefix = p, sr_node_id = n\<rparr>)"
proof -
  from route_wins_prune [OF assms] obtain ys zs where split:
    "advertisements (remove_expired_routes now r)
       = ys @ route_ad n p e # zs"
    and ys: "not_longer d p ys"
    and zs: "all_shorter d p zs"
    and d: "prefix_contains p d" by (auto simp: route_wins_def)
  let ?cands = "filter (\<lambda>ad. prefix_contains (sr_prefix (ad_route ad)) d)"
  have "max_by_key (\<lambda>ad. pfx_length (sr_prefix (ad_route ad))) (?cands ys @ route_ad n p e # ?cands zs) = Some (route_ad n p e)"
    using ys zs by (intro max_by_key_last) (auto simp: not_longer_def all_shorter_def list_all_iff)
  then show ?thesis using d by (simp add: lookup_route_def Let_def split)
qed

section \<open>What a look-up selects after a history of advertisements\<close>

type_synonym advert_call = "string \<times> ipv4_prefix \<times> duration \<times> instant"

fun advertise_all :: "advert_call list \<Rightarrow> route_registry \<Rightarrow> route_registry outcome" where
  "advertise_all [] r = Returns r"
| "advertise_all ((n, p, lease, t) # calls) r = out_bind (advertise n p lease t r) (advertise_all calls)"

text \<open>The calls that no later call for the same node and prefix refreshes, in call order.\<close>

fun standing :: "advert_call list \<Rightarrow> advert_call list" where
  "standing [] = []"
| "standing ((n, p, lease, t) # calls) =
     (if (n, p) \<in> (\<lambda>c. (fst c, fst (snd c))) ` set calls then standing calls
      else (n, p, lease, t) # standing calls)"

fun call_usable :: "ipv4_addr \<Rightarrow> instant \<Rightarrow> advert_call \<Rightarrow> bool" where
  "call_usable destination now (n, p, lease, t) \<longleftrightarrow> now < t + lease \<and> prefix_contains p destination"

fun call_time :: "advert_call \<Rightarrow> instant" where "call_time (n, p, lease, t) = t"
fun call_length :: "advert_call \<Rightarrow> u8" where "call_length (n, p, lease, t) = pfx_length p"
fun call_live :: "instant \<Rightarrow> advert_call \<Rightarrow> bool" where "call_live now (n, p, lease, t) \<longleftrightarrow> now < t + lease"

fun call_ad :: "advert_call \<Rightarrow> advertisement" where
  "call_ad (n, p, lease, t) = \<lparr>ad_route = \<lparr>sr_prefix = p, sr_node_id = n\<rparr>, ad_expires_at = t + lease\<rparr>"

lemma standing_snoc:
  "standing (calls @ [(n, p, lease, t)]) =
     filter (\<lambda>x. (fst x, fst (snd x)) \<noteq> (n, p)) (standing calls) @ [(n, p, lease, t)]"
  by (induction calls rule: standing.induct) (auto simp: image_iff)

lemma standing_subset: "set (standing calls) \<subseteq> set calls"
  by (induction calls rule: standing.induct) auto

lemma advertise_all_append:
  "advertise_all (xs @ ys) r = out_bind (advertise_all xs r) (advertise_all ys)"
proof (induction xs arbitrary: r)
  case (Cons x xs)
  obtain n p lease t where "x = (n, p, lease, t)" by (cases x)
  with Cons show ?case by (cases "advertise n p lease t r") simp_all
qed simp

lemma ad_key_call_ad: "ad_key (call_ad x) = (fst x, fst (snd x))"
  by (cases x) (simp add: ad_key_def)

lemma ad_expires_call_ad [simp]: "now < ad_expires_at (call_ad x) \<longleftrightarrow> call_live now x"
  by (cases x) simp

lemma call_live_mono: "call_live now x \<Longrightarrow> t \<le> now \<Longrightarrow> call_live t x"
  by (cases x) simp

text \<open>After any chronological history the unexpired table is exactly the live standing calls.\<close>

lemma live_table_history:
  assumes "advertise_all calls empty_routes = Returns r" and "sorted (map call_time calls @ [now])"
  shows "advertisements (remove_expired_routes now r)
           = map call_ad (filter (call_live now) (standing calls))"
  using assms
proof (induction calls arbitrary: r now rule: rev_induct)
  case Nil
  then show ?case by (auto simp: empty_routes_def remove_expired_routes_def)
next
  case (snoc x calls)
  obtain n p lease t where x: "x = (n, p, lease, t)" by (cases x)
  from snoc.prems(1) obtain r0 where r0: "advertise_all calls empty_routes = Returns r0"
    and r: "r = routes_put (n, p) () (t + lease) (remove_expired_routes t r0)"
    by (auto simp: advertise_all_append x advertise_eq_put)
  from snoc.prems(2) have sorted: "sorted (map call_time calls @ [t])" and now: "t \<le> now"
    by (auto simp: sorted_append x)
  from snoc.IH [OF r0 sorted] have IH: "advertisements (remove_expired_routes t r0)
      = map call_ad (filter (call_live t) (standing calls))" .
  have live: "filter (\<lambda>y. call_live now y \<and> P y \<and> call_live t y) ys
      = filter (\<lambda>y. call_live now y \<and> P y) ys" for P ys
    using now by (auto intro!: filter_cong dest: call_live_mono)
  have "advertisements (remove_expired_routes now r) =
      map call_ad (filter (\<lambda>y. call_live now y \<and> (fst y, fst (snd y)) \<noteq> (n, p) \<and> call_live t y)
        (standing calls)) @ (if now < t + lease then [call_ad x] else [])"
    by (simp add: r routes_put_def remove_expired_routes_def [of now] IH x filter_map comp_def
        ad_key_call_ad conj_commute conj_left_commute)
  then show ?case
    by (simp only: live) (simp add: x standing_snoc conj_commute)
qed

lemma lookup_history:
  assumes "advertise_all calls empty_routes = Returns r" and "sorted (map call_time calls @ [now])"
  shows "snd (lookup_route destination now r) = map_option (\<lambda>x. ad_route (call_ad x))
           (max_by_key call_length (filter (call_usable destination now) (standing calls)))"
proof -
  have usable: "call_live now x \<and> prefix_contains (sr_prefix (ad_route (call_ad x))) destination
      \<longleftrightarrow> call_usable destination now x" for x by (cases x) auto
  have len: "pfx_length (sr_prefix (ad_route (call_ad x))) = call_length x" for x by (cases x) simp
  show ?thesis
    by (simp add: lookup_route_def Let_def live_table_history [OF assms] filter_map comp_def
        max_by_key_map len usable option.map_comp)
qed

section \<open>Properties\<close>

text \<open>
  C27.  A prefix the parser returns stands for a block of addresses: it contains exactly the
  addresses from its network address to its last one, \<open>2 ^ (32 - length)\<close> of them.
\<close>

theorem prefix_is_interval:
  assumes "parse_prefix text = Ok p"
  shows "pfx_length p \<le> 32 \<and> {a. prefix_contains p a} = {pfx_network p..last_address p}
     \<and> card {a. prefix_contains p a} = 2 ^ (32 - unat (pfx_length p))"
  using prefix_is_block [OF parse_prefix_wf [OF assms]] card_prefix [OF parse_prefix_wf [OF assms]]
    parse_prefix_wf [OF assms] by (simp add: wf_prefix_def)

theorem prefix_is_interval_witness:
  "parse_prefix (show_prefix \<lparr>pfx_network = Ipv4 10 30 0 0, pfx_length = 24\<rparr>)
     = Ok \<lparr>pfx_network = Ipv4 10 30 0 0, pfx_length = 24\<rparr>
   \<and> prefix_contains \<lparr>pfx_network = Ipv4 10 30 0 0, pfx_length = 24\<rparr> (Ipv4 10 30 0 255)
   \<and> \<not> prefix_contains \<lparr>pfx_network = Ipv4 10 30 0 0, pfx_length = 24\<rparr> (Ipv4 10 30 1 0)"
proof -
  have "wf_prefix \<lparr>pfx_network = Ipv4 10 30 0 0, pfx_length = 24\<rparr>"
    by (simp add: wf_prefix_def prefix_mask_def)
  then have parsed: "parse_prefix (show_prefix \<lparr>pfx_network = Ipv4 10 30 0 0, pfx_length = 24\<rparr>)
      = Ok \<lparr>pfx_network = Ipv4 10 30 0 0, pfx_length = 24\<rparr>" by (rule parse_show_prefix)
  have "last_address \<lparr>pfx_network = Ipv4 10 30 0 0, pfx_length = 24\<rparr> = Ipv4 10 30 0 255"
    by (simp add: last_address_def prefix_mask_def ipv4_of_u32_def)
  with prefix_is_interval [OF parsed]
  have "prefix_contains \<lparr>pfx_network = Ipv4 10 30 0 0, pfx_length = 24\<rparr> a
      \<longleftrightarrow> Ipv4 10 30 0 0 \<le> a \<and> a \<le> Ipv4 10 30 0 255" for a
    by (simp add: set_eq_iff)
  then show ?thesis using parsed by (simp add: less_eq_ipv4_addr_def)
qed

text \<open>
  A prefix survives printing and parsing exactly when its length is at most 32 and no host
  bit is set, and the parser returns no other prefixes.
\<close>

theorem prefix_round_trip:
  "(parse_prefix (show_prefix p) = Ok p \<longleftrightarrow> wf_prefix p) \<and> ((\<exists>text. parse_prefix text = Ok p) \<longleftrightarrow> wf_prefix p)"
  using cidr.round_trip_iff [of p] cidr.dec_valid by blast

end
