(* ===== verification/Node_Id.thy ===== *)
theory Node_Id
  imports Std_Net
begin

text \<open>
  The node-ID grammar of \<open>src/coordinator.rs\<close> (\<open>valid_node_id\<close>), shared by the
  coordinator, the identity files and the handshake.
\<close>

definition MAX_NODE_ID_BYTES :: nat where "MAX_NODE_ID_BYTES = 64"

definition valid_node_id :: "string \<Rightarrow> bool" where
  "valid_node_id node_id \<longleftrightarrow> node_id \<noteq> [] \<and> length node_id \<le> MAX_NODE_ID_BYTES
     \<and> list_all (\<lambda>c. is_ascii_alphanumeric c \<or> c \<in> {CHR ''-'', CHR ''_'', CHR ''.''}) node_id"

definition node_id_error :: string where
  "node_id_error = ''node ID must use 1-64 ASCII letters, digits, '' @ [CHR 0x27, CHR ''.'', CHR 0x27]
     @ '', '' @ [CHR 0x27, CHR ''-'', CHR 0x27] @ '' or '' @ [CHR 0x27, CHR ''_'', CHR 0x27]"

definition validate_node_id :: "string \<Rightarrow> unit result" where
  "validate_node_id node_id = (if valid_node_id node_id then Ok () else Err node_id_error)"

lemma validate_node_id_Ok [simp]: "validate_node_id n = Ok u \<longleftrightarrow> valid_node_id n"
  by (simp add: validate_node_id_def)

lemma validate_node_id_valid [simp]: "valid_node_id n \<Longrightarrow> validate_node_id n = Ok ()"
  by simp

definition node_id_char :: "char \<Rightarrow> bool" where
  "node_id_char c \<longleftrightarrow> is_ascii_alphanumeric c \<or> c \<in> {CHR ''-'', CHR ''_'', CHR ''.''}"

lemma valid_node_id_chars: "valid_node_id n \<Longrightarrow> c \<in> set n \<Longrightarrow> node_id_char c"
  by (auto simp: valid_node_id_def node_id_char_def list_all_iff)

lemma node_id_char_field: "node_id_char c \<Longrightarrow> \<not> is_ascii_whitespace c \<and> (of_char c :: nat) < 128"
  by (auto simp: node_id_char_def is_ascii_alphanumeric_def is_ascii_digit_def is_ascii_whitespace_def)

lemma valid_node_id_field: "valid_node_id n \<Longrightarrow> field_text n"
  using valid_node_id_chars node_id_char_field by (auto simp: field_text_def list_all_iff)

lemma valid_node_id_plain [simp]: "valid_node_id n \<Longrightarrow> plain_word n"
  using valid_node_id_field [of n] by (auto simp: field_text_iff valid_node_id_def)

lemma valid_node_id_ascii [simp]: "valid_node_id n \<Longrightarrow> ascii_text n"
  using valid_node_id_field [of n] by (auto simp: field_text_iff)

lemma valid_node_id_length: "valid_node_id n \<Longrightarrow> length n \<le> 64"
  by (simp add: valid_node_id_def MAX_NODE_ID_BYTES_def)

text \<open>No node ID contains the line feed that separates the fields of a signed message.\<close>

lemma valid_node_id_no_line_feed: "valid_node_id n \<Longrightarrow> CHR 0x0A \<notin> set n"
  using valid_node_id_chars [of n "CHR 0x0A"]
  by (auto simp: node_id_char_def is_ascii_alphanumeric_def is_ascii_digit_def)

lemma valid_node_id_one_line [simp]: "valid_node_id n \<Longrightarrow> one_line n"
  by (simp add: one_line_def valid_node_id_no_line_feed)

end
