(* ===== verification/Hex.thy ===== *)
theory Hex
  imports Std_Net
begin

text \<open>
  Hexadecimal text of \<open>src/identity.rs\<close> (\<open>encode_hex\<close>, \<open>decode_hex_array\<close>,
  \<open>decode_nibble\<close>): the form in which keys, challenges and signatures travel.
\<close>

definition quoted :: "string \<Rightarrow> string" where
  "quoted s = CHR 0x27 # s @ [CHR 0x27]"

definition DIGITS :: string where "DIGITS = ''0123456789abcdef''"

definition encode_byte :: "u8 \<Rightarrow> string" where
  "encode_byte b = [DIGITS ! unat (drop_bit 4 b), DIGITS ! unat (b AND 0x0F)]"

definition encode_hex :: "bytes \<Rightarrow> string" where
  "encode_hex bs = concat (map encode_byte bs)"

text \<open>\<open>char::from(byte)\<close> is the Latin-1 character, which prints as UTF-8.\<close>

definition latin1_text :: "u8 \<Rightarrow> string" where
  "latin1_text b = (if b < 0x80 then [char_of_byte b]
     else [char_of_byte (0xC0 OR drop_bit 6 b), char_of_byte (0x80 OR (b AND 0x3F))])"

definition decode_nibble :: "u8 \<Rightarrow> u8 result" where
  "decode_nibble byte =
     (if byte_of_char (CHR ''0'') \<le> byte \<and> byte \<le> byte_of_char (CHR ''9'')
      then Ok (byte - byte_of_char (CHR ''0''))
      else if byte_of_char (CHR ''a'') \<le> byte \<and> byte \<le> byte_of_char (CHR ''f'')
      then Ok (byte - byte_of_char (CHR ''a'') + 10)
      else if byte_of_char (CHR ''A'') \<le> byte \<and> byte \<le> byte_of_char (CHR ''F'')
      then Ok (byte - byte_of_char (CHR ''A'') + 10)
      else Err (''invalid hexadecimal character '' @ quoted (latin1_text byte)))"

fun decode_pairs :: "bytes \<Rightarrow> bytes result" where
  "decode_pairs (h # l # rest) =
     and_then (decode_nibble h) (\<lambda>high.
     and_then (decode_nibble l) (\<lambda>low.
     and_then (decode_pairs rest) (\<lambda>decoded.
     Ok ((push_bit 4 high OR low) # decoded))))"
| "decode_pairs _ = Ok []"

definition decode_hex_array :: "nat \<Rightarrow> string \<Rightarrow> bytes result" where
  "decode_hex_array N encoded =
     (if length encoded \<noteq> N * 2
      then Err (''expected '' @ decimal (N * 2) @ '' hexadecimal characters'')
      else decode_pairs (as_bytes encoded))"

lemma encode_hex_simps [simp]:
  "encode_hex [] = []" "encode_hex (b # bs) = encode_byte b @ encode_hex bs"
  by (simp_all add: encode_hex_def)

lemma length_encode_hex [simp]: "length (encode_hex bs) = 2 * length bs"
  by (induction bs) (simp_all add: encode_byte_def)

lemma all_nibbles: "list_all P [0..<16] \<Longrightarrow> n < 16 \<Longrightarrow> P n"
  by (simp add: list_all_iff)

lemma decode_nibble_digit:
  assumes "n < 16"
  shows "decode_nibble (byte_of_char (DIGITS ! n)) = Ok (of_nat n)"
  by (rule all_nibbles [OF _ assms]) (simp add: upt_rec decode_nibble_def DIGITS_def byte_of_char_def)

lemma field_text_digit:
  assumes "n < 16"
  shows "field_text [DIGITS ! n] \<and> DIGITS ! n \<noteq> CHR 0x0A"
  by (rule all_nibbles [OF _ assms]) (simp add: upt_rec DIGITS_def is_ascii_whitespace_def)

lemma high_nibble_less [simp]: "unat (drop_bit 4 (b :: u8)) < 16"
  using unsigned_less [of b, where 'a = nat]
  by (simp only: unat_drop_bit_eq) (simp add: drop_bit_eq_div)

lemma low_nibble_less [simp]: "unat ((b :: u8) AND 0x0F) < 16"
proof -
  have "b AND 0x0F \<le> 0x0F" by (rule word_and_le1)
  then show ?thesis by (simp add: word_le_nat_alt)
qed

lemma join_nibbles: "push_bit 4 (drop_bit 4 b) OR (b AND 0x0F) = (b :: u8)"
proof (rule bit_word_eqI)
  fix n assume n: "n < LENGTH(8)"
  have low: "(0x0F :: u8) = mask 4" by (simp add: mask_eq_exp_minus_1)
  show "bit (push_bit 4 (drop_bit 4 b) OR (b AND 0x0F)) n \<longleftrightarrow> bit b n"
    unfolding low using n by (cases "n < 4") (auto simp: bit_simps)
qed

lemma decode_encode_pairs: "decode_pairs (as_bytes (encode_hex bs)) = Ok bs"
proof (induction bs)
  case Nil
  then show ?case by (simp add: as_bytes_def)
next
  case (Cons b bs)
  then show ?case
    by (simp add: encode_byte_def as_bytes_def decode_nibble_digit join_nibbles)
qed

lemma decode_encode_hex [wire_simps]:
  "length bs = N \<Longrightarrow> decode_hex_array N (encode_hex bs) = Ok bs"
  by (simp add: decode_hex_array_def decode_encode_pairs)

lemma encode_hex_inject [simp]: "encode_hex as = encode_hex bs \<longleftrightarrow> as = bs"
  by (metis decode_encode_pairs sum.inject(2))

lemma encode_hex_field [simp]: "field_text (encode_hex bs)"
proof (induction bs)
  case (Cons b bs)
  then show ?case
    using field_text_digit [OF high_nibble_less [of b]] field_text_digit [OF low_nibble_less [of b]]
    by (simp add: encode_byte_def)
qed simp

lemma encode_hex_plain [simp]: "plain_word (encode_hex bs) \<longleftrightarrow> bs \<noteq> []"
proof
  show "plain_word (encode_hex bs) \<Longrightarrow> bs \<noteq> []" by (auto simp: plain_word_def)
next
  assume "bs \<noteq> []"
  then have "encode_hex bs \<noteq> []" by (cases bs) (simp_all add: encode_byte_def)
  then show "plain_word (encode_hex bs)" using encode_hex_field [of bs] by (simp add: field_text_iff)
qed

lemma encode_hex_ascii [simp]: "ascii_text (encode_hex bs)"
  using encode_hex_field [of bs] by (simp add: field_text_iff)

lemma encode_hex_no_line_feed: "CHR 0x0A \<notin> set (encode_hex bs)"
proof (induction bs)
  case (Cons b bs)
  then show ?case
    using field_text_digit [OF high_nibble_less [of b]] field_text_digit [OF low_nibble_less [of b]]
    by (auto simp: encode_byte_def)
qed simp

lemma decode_pairs_length: "decode_pairs bs = Ok ds \<Longrightarrow> length ds = length bs div 2"
  by (induction bs arbitrary: ds rule: decode_pairs.induct) auto

lemma decode_hex_array_length: "decode_hex_array N s = Ok bs \<Longrightarrow> length bs = N"
  by (auto simp: decode_hex_array_def split: if_splits dest: decode_pairs_length)

text \<open>Decoding ignores the case of the digits: it accepts exactly the spellings of \<open>encode_hex\<close>
  up to upper-case letters.\<close>

definition lower_ascii :: "char \<Rightarrow> char" where
  "lower_ascii c = (if 65 \<le> (of_char c :: nat) \<and> (of_char c :: nat) \<le> 90 then char_of (of_char c + (32::nat)) else c)"

definition nibble_agrees :: "u8 \<Rightarrow> bool" where
  "nibble_agrees b = (case decode_nibble b of
       Inr v \<Rightarrow> unat v < 16 \<and> DIGITS ! unat v = lower_ascii (char_of_byte b)
     | Inl _ \<Rightarrow> lower_ascii (char_of_byte b) \<notin> set DIGITS)"

lemma in_DIGITS:
  "c \<in> set DIGITS \<longleftrightarrow> (48 \<le> (of_char c :: nat) \<and> (of_char c :: nat) \<le> 57)
      \<or> (97 \<le> (of_char c :: nat) \<and> (of_char c :: nat) \<le> 102)"
proof
  show "c \<in> set DIGITS \<Longrightarrow> (48 \<le> (of_char c :: nat) \<and> (of_char c :: nat) \<le> 57)
      \<or> (97 \<le> (of_char c :: nat) \<and> (of_char c :: nat) \<le> 102)"
    by (auto simp: DIGITS_def)
next
  have code: "of_char c = n \<Longrightarrow> c = char_of n" for n :: nat by auto
  assume "(48 \<le> (of_char c :: nat) \<and> (of_char c :: nat) \<le> 57)
      \<or> (97 \<le> (of_char c :: nat) \<and> (of_char c :: nat) \<le> 102)"
  then have "of_char c = (48::nat) \<or> of_char c = (49::nat) \<or> of_char c = (50::nat) \<or> of_char c = (51::nat)
      \<or> of_char c = (52::nat) \<or> of_char c = (53::nat) \<or> of_char c = (54::nat) \<or> of_char c = (55::nat)
      \<or> of_char c = (56::nat) \<or> of_char c = (57::nat) \<or> of_char c = (97::nat) \<or> of_char c = (98::nat)
      \<or> of_char c = (99::nat) \<or> of_char c = (100::nat) \<or> of_char c = (101::nat) \<or> of_char c = (102::nat)"
    by arith
  then show "c \<in> set DIGITS"
    by (elim disjE) (drule code, simp add: DIGITS_def char_of_def bit_0)+
qed

lemma digit_byte_values:
  "d < 10 \<Longrightarrow> nibble_agrees (of_nat (48 + d))"
  "d < 6 \<Longrightarrow> nibble_agrees (of_nat (97 + d))"
  "d < 6 \<Longrightarrow> nibble_agrees (of_nat (65 + d))"
proof -
  note defs = nibble_agrees_def decode_nibble_def byte_of_char_def DIGITS_def lower_ascii_def
    char_of_byte_def char_of_def bit_0
  show "d < 10 \<Longrightarrow> nibble_agrees (of_nat (48 + d))"
    by (rule all_nibbles [of _ d]) (simp_all add: upt_rec defs)
  show "d < 6 \<Longrightarrow> nibble_agrees (of_nat (97 + d))"
    by (rule all_nibbles [of _ d]) (simp_all add: upt_rec defs)
  show "d < 6 \<Longrightarrow> nibble_agrees (of_nat (65 + d))"
    by (rule all_nibbles [of _ d]) (simp_all add: upt_rec defs)
qed

lemma nibble_agrees_all: "nibble_agrees b"
proof -
  define m where "m = unat b"
  have b: "b = of_nat m" and m: "m < 256"
    using unsigned_less [of b, where 'a = nat] by (simp_all add: m_def)
  consider "48 \<le> m \<and> m \<le> 57" | "97 \<le> m \<and> m \<le> 102" | "65 \<le> m \<and> m \<le> 70"
    | "\<not> (48 \<le> m \<and> m \<le> 57)" "\<not> (97 \<le> m \<and> m \<le> 102)" "\<not> (65 \<le> m \<and> m \<le> 70)"
    by blast
  then show ?thesis
  proof cases
    case 1
    then show ?thesis using digit_byte_values(1) [of "m - 48"] b by auto
  next
    case 2
    then show ?thesis using digit_byte_values(2) [of "m - 97"] b by auto
  next
    case 3
    then show ?thesis using digit_byte_values(3) [of "m - 65"] b by auto
  next
    case 4
    have "of_char (char_of_byte b) = m" using m by (simp add: char_of_byte_def m_def)
    then have "lower_ascii (char_of_byte b) \<notin> set DIGITS"
      using 4 m by (auto simp: in_DIGITS lower_ascii_def)
    moreover have "\<exists>e. decode_nibble b = Inl e"
      using 4 by (auto simp: decode_nibble_def byte_of_char_def word_le_nat_alt m_def)
    ultimately show ?thesis by (auto simp: nibble_agrees_def)
  qed
qed

lemma encode_joined:
  assumes "unat h < 16" and "unat l < 16"
  shows "encode_byte (push_bit 4 h OR l) = [DIGITS ! unat h, DIGITS ! unat (l :: u8)]"
proof -
  have small: "bit x n \<Longrightarrow> n < 4" if "unat x < 16" for x :: u8 and n
  proof -
    assume "bit x n"
    moreover have "x = take_bit 4 x"
      using that by (simp only: word_unat_eq_iff unsigned_take_bit_eq) (simp add: take_bit_eq_mod)
    ultimately have "bit (take_bit 4 x) n" by metis
    then show "n < 4" by (simp add: bit_simps)
  qed
  have mask: "(0x0F :: u8) = mask 4" by (simp add: mask_eq_exp_minus_1)
  have "drop_bit 4 (push_bit 4 h OR l) = h"
    by (rule bit_word_eqI) (auto simp: bit_simps dest: small [OF assms(1)] small [OF assms(2)])
  moreover have "(push_bit 4 h OR l) AND 0x0F = l"
    unfolding mask by (rule bit_word_eqI) (auto simp: bit_simps dest: small [OF assms(2)])
  ultimately show ?thesis by (simp add: encode_byte_def)
qed

lemma decode_pairs_canonical:
  "even (length bs) \<Longrightarrow> decode_pairs bs = Ok ds \<Longrightarrow> encode_hex ds = map lower_ascii (str_of_bytes bs)"
proof (induction bs arbitrary: ds rule: decode_pairs.induct)
  case (1 h l rest)
  from 1(3) obtain high low ds' where dec: "decode_nibble h = Ok high" "decode_nibble l = Ok low"
    and rest: "decode_pairs rest = Ok ds'" and ds: "ds = (push_bit 4 high OR low) # ds'" by auto
  have "encode_hex ds' = map lower_ascii (str_of_bytes rest)"
    using 1 dec rest by auto
  with dec nibble_agrees_all [of h] nibble_agrees_all [of l] show ?case
    by (simp add: ds encode_joined nibble_agrees_def str_of_bytes_def)
qed (auto simp: str_of_bytes_def)

lemma decode_nibble_total:
  "lower_ascii (char_of_byte b) \<in> set DIGITS \<Longrightarrow> \<exists>v. decode_nibble b = Ok v"
  using nibble_agrees_all [of b] by (auto simp: nibble_agrees_def split: sum.splits)

lemma decode_pairs_total:
  "list_all (\<lambda>c. lower_ascii c \<in> set DIGITS) (str_of_bytes bs) \<Longrightarrow> \<exists>ds. decode_pairs bs = Ok ds"
proof (induction bs rule: decode_pairs.induct)
  case (1 h l rest)
  then obtain high low where "decode_nibble h = Ok high" "decode_nibble l = Ok low"
    by (auto simp: str_of_bytes_def dest!: decode_nibble_total)
  with 1 show ?case by (auto simp: str_of_bytes_def)
qed auto

lemma set_encode_hex: "set (encode_hex bs) \<subseteq> set DIGITS"
proof (induction bs)
  case (Cons b bs)
  have "length DIGITS = 16" by (simp add: DIGITS_def)
  then have "n < 16 \<Longrightarrow> DIGITS ! n \<in> set DIGITS" for n by (metis nth_mem)
  with Cons show ?case by (auto simp: encode_byte_def)
qed simp

text \<open>The complete description of the decoder's successes.\<close>

lemma decode_hex_array_iff:
  "decode_hex_array N s = Ok bs \<longleftrightarrow> length bs = N \<and> map lower_ascii s = encode_hex bs"
proof
  assume dec: "decode_hex_array N s = Ok bs"
  then have len: "length s = N * 2" and "decode_pairs (as_bytes s) = Ok bs"
    by (auto simp: decode_hex_array_def split: if_splits)
  then show "length bs = N \<and> map lower_ascii s = encode_hex bs"
    using decode_pairs_canonical [of "as_bytes s" bs] decode_hex_array_length [OF dec] by simp
next
  assume a: "length bs = N \<and> map lower_ascii s = encode_hex bs"
  have len: "length s = N * 2" using a by (metis length_encode_hex length_map mult.commute)
  have "lower_ascii c \<in> set DIGITS" if "c \<in> set s" for c
    using a that set_encode_hex [of bs] by (metis imageI list.set_map subsetD)
  then obtain ds where "decode_pairs (as_bytes s) = Ok ds"
    using decode_pairs_total [of "as_bytes s"] by (auto simp: list_all_iff)
  with decode_pairs_canonical [of "as_bytes s" ds] len a
  show "decode_hex_array N s = Ok bs" by (simp add: decode_hex_array_def)
qed

lemma encode_hex_one_line [simp]: "one_line (encode_hex bs)"
  by (simp add: one_line_def encode_hex_no_line_feed)

section \<open>Properties\<close>

text \<open>
  The hexadecimal decoder accepts exactly the spellings of \<open>N\<close> bytes: a text decodes to
  some bytes precisely if there are \<open>N\<close> of them and, upper-case letters read as lower-case, the
  text is their encoding.
\<close>

theorem hex_decoder_exact:
  "decode_hex_array N text = Ok bs \<longleftrightarrow> length bs = N \<and> map lower_ascii text = encode_hex bs"
  by (rule decode_hex_array_iff)

end
