(* ===== verification/Identity.thy ===== *)
theory Identity
  imports Node_Id Hex
begin

text \<open>
  \<open>src/identity.rs\<close>: long-term identities, the authorization file and key generation.
  The signature scheme (crate \<open>ed25519-dalek\<close>) is a parameter, a record of the functions
  the program calls; \<open>signature_scheme_ok\<close> states what they document.  The file system is
  explicit: a map from files to contents, with the failures the operating system may report.
\<close>

section \<open>The signature scheme\<close>

record ('vk, 'sig) ed25519 =
  ed_verifying_key :: "bytes \<Rightarrow> 'vk" \<comment> \<open>of a signing key given by its secret bytes\<close>
  ed_sign :: "bytes \<Rightarrow> bytes \<Rightarrow> 'sig"
  ed_verify_strict :: "'vk \<Rightarrow> bytes \<Rightarrow> 'sig \<Rightarrow> bool"
  ed_key_from_bytes :: "bytes \<Rightarrow> 'vk result"
  ed_key_as_bytes :: "'vk \<Rightarrow> bytes"
  ed_sig_try_from :: "bytes \<Rightarrow> 'sig result"
  ed_sig_to_bytes :: "'sig \<Rightarrow> bytes"

definition wire_signature :: "('vk, 'sig) ed25519 \<Rightarrow> 'sig \<Rightarrow> bool" where
  "wire_signature E s \<longleftrightarrow> length (ed_sig_to_bytes E s) = 64
     \<and> ed_sig_try_from E (ed_sig_to_bytes E s) = Ok s"

definition signature_scheme_ok :: "('vk, 'sig) ed25519 \<Rightarrow> bool" where
  "signature_scheme_ok E \<longleftrightarrow>
     (\<forall>secret message. ed_verify_strict E (ed_verifying_key E secret) message (ed_sign E secret message))
   \<and> (\<forall>secret. length (ed_key_as_bytes E (ed_verifying_key E secret)) = 32
        \<and> ed_key_from_bytes E (ed_key_as_bytes E (ed_verifying_key E secret)) = Ok (ed_verifying_key E secret))
   \<and> (\<forall>secret message. wire_signature E (ed_sign E secret message))
   \<and> (\<forall>bs s. ed_sig_try_from E bs = Ok s \<longrightarrow> length bs = 64 \<and> ed_sig_to_bytes E s = bs)"

text \<open>A concrete instance for examples: the key is the secret, the signature a checksum.\<close>

definition sample_ed25519 :: "(bytes, bytes) ed25519" where
  "sample_ed25519 = \<lparr>
     ed_verifying_key = (\<lambda>secret. take 32 (secret @ replicate 32 0)),
     ed_sign = (\<lambda>secret message. take 32 (secret @ replicate 32 0) @ replicate 32 (sum_list message)),
     ed_verify_strict = (\<lambda>vk message s. take 64 (s @ replicate 64 0) = vk @ replicate 32 (sum_list message)),
     ed_key_from_bytes = (\<lambda>bs. Ok bs),
     ed_key_as_bytes = (\<lambda>vk. vk),
     ed_sig_try_from = (\<lambda>bs. if length bs = 64 then Ok bs else Err ''signature error''),
     ed_sig_to_bytes = (\<lambda>s. take 64 (s @ replicate 64 0))\<rparr>"

definition sample_secret :: bytes where "sample_secret = replicate 32 7"

section \<open>Identities\<close>

definition PRIVATE_FILE_VERSION :: string where "PRIVATE_FILE_VERSION = ''MESHLET-IDENTITY/1''"
definition PUBLIC_FILE_VERSION :: string where "PUBLIC_FILE_VERSION = ''MESHLET-AUTHORIZATION/1''"

record identity =
  id_node_id :: string
  id_signing_key :: bytes

definition identity_sign :: "('vk, 'sig) ed25519 \<Rightarrow> identity \<Rightarrow> bytes \<Rightarrow> 'sig" where
  "identity_sign E i message = ed_sign E (id_signing_key i) message"

text \<open>Two methods compiled only for the unit tests.\<close>

definition identity_verifying_key :: "('vk, 'sig) ed25519 \<Rightarrow> identity \<Rightarrow> 'vk" where
  "identity_verifying_key E identity = ed_verifying_key E (id_signing_key identity)"

definition from_secret_bytes :: "string \<Rightarrow> bytes \<Rightarrow> identity" where
  "from_secret_bytes node_id secret = \<lparr>id_node_id = node_id, id_signing_key = secret\<rparr>"

definition parse_identity :: "string \<Rightarrow> identity result" where
  "parse_identity contents =
     (case split_ascii_whitespace contents of
        [version, node_id, secret_hex] \<Rightarrow>
          if version \<noteq> PRIVATE_FILE_VERSION
          then Err (''unsupported identity version '' @ quoted version)
          else if \<not> valid_node_id node_id
          then Err ''identity file contains an invalid node ID''
          else and_then (decode_hex_array 32 secret_hex) (\<lambda>secret.
            Ok \<lparr>id_node_id = node_id, id_signing_key = secret\<rparr>)
      | _ \<Rightarrow> Err (''identity file must be '' @ quoted (PRIVATE_FILE_VERSION @ '' NODE_ID SECRET_KEY_HEX'')))"

text \<open>\<open>load_identity\<close>, given what \<open>fs::read_to_string\<close> returned for the path.\<close>

definition load_identity :: "string \<Rightarrow> string + string \<Rightarrow> identity result" where
  "load_identity path file =
     and_then (map_err (\<lambda>e. ''failed to read identity file '' @ quoted path @ '': '' @ e) file)
       parse_identity"

section \<open>Authorization files\<close>

text \<open>\<open>str::lines\<close>: pieces between line feeds, each without a carriage return before its
  line feed, and no empty last piece.\<close>

definition strip_cr :: "string \<Rightarrow> string" where
  "strip_cr s = (if s \<noteq> [] \<and> last s = CHR 0x0D then butlast s else s)"

function text_lines :: "string \<Rightarrow> string list" where
  "text_lines s =
     (if s = [] then []
      else if CHR 0x0A \<in> set s
      then strip_cr (takeWhile (\<lambda>c. c \<noteq> CHR 0x0A) s)
             # text_lines (tl (dropWhile (\<lambda>c. c \<noteq> CHR 0x0A) s))
      else [s])"
  by pat_completeness auto
termination
proof (relation "measure length")
  fix s :: string assume "s \<noteq> []" "CHR 0x0A \<in> set s"
  then show "(tl (dropWhile (\<lambda>c. c \<noteq> CHR 0x0A) s), s) \<in> measure length"
    using length_dropWhile_le [of "\<lambda>c. c \<noteq> CHR 0x0A" s] by (cases s) auto
qed simp

declare text_lines.simps [simp del]

text \<open>
  \<open>str::trim\<close> removes Unicode white space.  In UTF-8 it is one byte (U+0009 to U+000D and
  the space), two bytes (U+0085, U+00A0) or three (U+1680, U+2000 to U+200A, U+2028, U+2029,
  U+202F, U+205F, U+3000).
\<close>

definition byte_code :: "char \<Rightarrow> nat" where "byte_code c = of_char c"

definition white1 :: "nat \<Rightarrow> bool" where "white1 a \<longleftrightarrow> (9 \<le> a \<and> a \<le> 13) \<or> a = 32"

definition white2 :: "nat \<Rightarrow> nat \<Rightarrow> bool" where
  "white2 a b \<longleftrightarrow> a = 0xC2 \<and> (b = 0x85 \<or> b = 0xA0)"

definition white3 :: "nat \<Rightarrow> nat \<Rightarrow> nat \<Rightarrow> bool" where
  "white3 a b c \<longleftrightarrow>
     (a = 0xE1 \<and> b = 0x9A \<and> c = 0x80)
   \<or> (a = 0xE2 \<and> b = 0x80 \<and> ((0x80 \<le> c \<and> c \<le> 0x8A) \<or> c = 0xA8 \<or> c = 0xA9 \<or> c = 0xAF))
   \<or> (a = 0xE2 \<and> b = 0x81 \<and> c = 0x9F)
   \<or> (a = 0xE3 \<and> b = 0x80 \<and> c = 0x80)"

fun trim_start :: "string \<Rightarrow> string" where
  "trim_start (a # s) =
     (if white1 (byte_code a) then trim_start s
      else case s of
        b # t \<Rightarrow>
          if white2 (byte_code a) (byte_code b) then trim_start t
          else (case t of
            c # u \<Rightarrow> if white3 (byte_code a) (byte_code b) (byte_code c) then trim_start u else a # s
          | [] \<Rightarrow> a # s)
      | [] \<Rightarrow> a # s)"
| "trim_start [] = []"

text \<open>The end is trimmed on the reversed text, where the bytes of a character come last first.\<close>

fun trim_rev :: "string \<Rightarrow> string" where
  "trim_rev (a # s) =
     (if white1 (byte_code a) then trim_rev s
      else case s of
        b # t \<Rightarrow>
          if white2 (byte_code b) (byte_code a) then trim_rev t
          else (case t of
            c # u \<Rightarrow> if white3 (byte_code c) (byte_code b) (byte_code a) then trim_rev u else a # s
          | [] \<Rightarrow> a # s)
      | [] \<Rightarrow> a # s)"
| "trim_rev [] = []"

definition trim :: "string \<Rightarrow> string" where
  "trim s = rev (trim_rev (rev (trim_start s)))"

record 'vk authorizations =
  auth_keys :: "(string, 'vk) fmap"

definition sample_authorizations :: "bytes authorizations" where
  "sample_authorizations =
     \<lparr>auth_keys = fmupd ''mesh-a'' (ed_verifying_key sample_ed25519 sample_secret) fmempty\<rparr>"

definition auth_get :: "'vk authorizations \<Rightarrow> string \<Rightarrow> 'vk option" where
  "auth_get a node_id = fmlookup (auth_keys a) node_id"

definition auth_len :: "'vk authorizations \<Rightarrow> nat" where
  "auth_len a = fcard (fmdom (auth_keys a))"

definition from_key :: "string \<Rightarrow> 'vk \<Rightarrow> 'vk authorizations" where
  "from_key node_id verifying_key = \<lparr>auth_keys = fmupd node_id verifying_key fmempty\<rparr>"

text \<open>One line of the file; \<open>n\<close> is its number, counted from 1.\<close>

definition parse_authorization_line ::
  "('vk, 'sig) ed25519 \<Rightarrow> nat \<Rightarrow> string \<Rightarrow> (string, 'vk) fmap \<Rightarrow> (string, 'vk) fmap result" where
  "parse_authorization_line E n line keys =
     (let line = trim line in
      if line = [] \<or> hd line = CHR ''#'' then Ok keys
      else case split_ascii_whitespace line of
        [version, node_id, public_hex] \<Rightarrow>
          if version \<noteq> PUBLIC_FILE_VERSION
          then Err (''unsupported authorization version '' @ quoted version @ '' on line '' @ decimal n)
          else if \<not> valid_node_id node_id
          then Err (''invalid node ID on authorization line '' @ decimal n)
          else
            and_then (map_err (\<lambda>m. ''authorization line '' @ decimal n @ '': '' @ m)
                        (decode_hex_array 32 public_hex)) (\<lambda>public_bytes.
            and_then (map_err (\<lambda>m. ''invalid public key on line '' @ decimal n @ '': '' @ m)
                        (ed_key_from_bytes E public_bytes)) (\<lambda>verifying_key.
            if fmlookup keys node_id \<noteq> None
            then Err (''duplicate node ID '' @ quoted node_id @ '' in authorization file'')
            else Ok (fmupd node_id verifying_key keys)))
      | _ \<Rightarrow> Err (''authorization line '' @ decimal n @ '' must be ''
                 @ quoted (PUBLIC_FILE_VERSION @ '' NODE_ID PUBLIC_KEY_HEX'')))"

fun parse_authorization_lines ::
  "('vk, 'sig) ed25519 \<Rightarrow> nat \<Rightarrow> string list \<Rightarrow> (string, 'vk) fmap \<Rightarrow> (string, 'vk) fmap result" where
  "parse_authorization_lines E n [] keys = Ok keys"
| "parse_authorization_lines E n (line # rest) keys =
     and_then (parse_authorization_line E n line keys) (parse_authorization_lines E (Suc n) rest)"

definition load_authorizations ::
  "('vk, 'sig) ed25519 \<Rightarrow> string \<Rightarrow> string + string \<Rightarrow> 'vk authorizations result" where
  "load_authorizations E path file =
     and_then (map_err (\<lambda>e. ''failed to read authorization file '' @ quoted path @ '': '' @ e) file)
       (\<lambda>contents.
     and_then (parse_authorization_lines E 1 (text_lines contents) fmempty) (\<lambda>keys.
     if keys = fmempty then Err ''authorization file contains no node keys''
     else Ok \<lparr>auth_keys = keys\<rparr>))"

section \<open>Key generation\<close>

text \<open>
  What the operating system does for \<open>write_new\<close>: which file a path names, the umask of the
  process, which takes its bits away from the mode a created file is asked to have, and the
  failures it may report when creating, when writing (after some bytes) and when synchronising.
\<close>

record os_env =
  os_resolve :: "string \<Rightarrow> string"
  os_umask :: u32
  os_create_error :: "string \<Rightarrow> string option"
  os_exists_text :: string
  os_write_error :: "string \<Rightarrow> (nat \<times> string) option"
  os_sync_error :: "string \<Rightarrow> string option"

record disk_file =
  file_bytes :: bytes
  file_mode :: u32

type_synonym file_system = "(string, disk_file) fmap"

definition created_mode :: "os_env \<Rightarrow> u32 \<Rightarrow> u32" where
  "created_mode os mode = mode AND NOT (os_umask os)"

definition write_new ::
  "os_env \<Rightarrow> string \<Rightarrow> bytes \<Rightarrow> u32 \<Rightarrow> file_system \<Rightarrow> file_system \<times> unit result" where
  "write_new os path contents mode fs =
     (let refused = (\<lambda>e. Err (''refused to create '' @ quoted path @ '': '' @ e)) in
      case os_create_error os path of
        Some e \<Rightarrow> (fs, refused e)
      | None \<Rightarrow>
          if fmlookup fs (os_resolve os path) \<noteq> None then (fs, refused (os_exists_text os))
          else case os_write_error os path of
            Some (k, e) \<Rightarrow>
              (fmupd (os_resolve os path) \<lparr>file_bytes = take k contents, file_mode = created_mode os mode\<rparr> fs,
               Err (''failed to write '' @ quoted path @ '': '' @ e))
          | None \<Rightarrow>
              (fmupd (os_resolve os path) \<lparr>file_bytes = contents, file_mode = created_mode os mode\<rparr> fs,
               (case os_sync_error os path of
                  Some e \<Rightarrow> Err (''failed to sync '' @ quoted path @ '': '' @ e)
                | None \<Rightarrow> Ok ())))"

text \<open>
  Equality of \<open>Path\<close>s compares components: repeated and trailing separators and inner dots
  do not count, a leading dot does.
\<close>

fun split_slash :: "string \<Rightarrow> string list" where
  "split_slash [] = [[]]"
| "split_slash (c # s) =
     (if c = CHR ''/'' then [] # split_slash s
      else case split_slash s of p # ps \<Rightarrow> (c # p) # ps | [] \<Rightarrow> [[c]])"

definition path_components :: "string \<Rightarrow> bool \<times> bool \<times> string list" where
  "path_components s =
     (let rooted = (s \<noteq> [] \<and> hd s = CHR ''/''); parts = split_slash s
      in (rooted, \<not> rooted \<and> hd parts = ''.'', filter (\<lambda>p. p \<noteq> [] \<and> p \<noteq> ''.'') parts))"

definition identity_line :: "string \<Rightarrow> string \<Rightarrow> bytes \<Rightarrow> string" where
  "identity_line version node_id key = unwords [version, node_id, encode_hex key] @ [CHR 0x0A]"

text \<open>The modes \<open>0o600\<close> and \<open>0o644\<close>.\<close>

definition private_mode :: u32 where "private_mode = 6 * 64"
definition public_mode :: u32 where "public_mode = 6 * 64 + 4 * 8 + 4"

definition generate ::
  "('vk, 'sig) ed25519 \<Rightarrow> os_env \<Rightarrow> string + bytes \<Rightarrow> string \<Rightarrow> string \<Rightarrow> string \<Rightarrow>
     file_system \<Rightarrow> file_system \<times> unit result" where
  "generate E os random node_id private_path public_path fs =
     (if \<not> valid_node_id node_id then (fs, Err node_id_error)
      else if path_components private_path = path_components public_path
      then (fs, Err ''private and public key paths must be different'')
      else case random of
        Inl e \<Rightarrow> (fs, Err (''operating system failed to generate a secret key: '' @ e))
      | Inr secret \<Rightarrow>
          let public_key = ed_verifying_key E secret;
              private_contents = identity_line PRIVATE_FILE_VERSION node_id secret;
              public_contents = identity_line PUBLIC_FILE_VERSION node_id (ed_key_as_bytes E public_key)
          in case write_new os private_path (as_bytes private_contents) private_mode fs of
               (fs, Inl e) \<Rightarrow> (fs, Err e)
             | (fs, Inr _) \<Rightarrow>
                 (case write_new os public_path (as_bytes public_contents) public_mode fs of
                    (fs, Inl e) \<Rightarrow> (fs, Err (e @ ''; private key was created at '' @ quoted private_path
                                      @ '' and was not removed''))
                  | (fs, Inr _) \<Rightarrow> (fs, Ok ())))"

section \<open>Lemmas: text\<close>

lemma sample_ed25519_ok: "signature_scheme_ok sample_ed25519"
  by (auto simp: signature_scheme_ok_def wire_signature_def sample_ed25519_def min_def)

lemma sample_authorized [simp]:
  "auth_get sample_authorizations ''mesh-a'' = Some (ed_verifying_key sample_ed25519 sample_secret)"
  by (simp add: auth_get_def sample_authorizations_def)

lemma trim_start_ascii:
  "\<not> is_ascii_whitespace c \<Longrightarrow> byte_code c \<noteq> 11 \<Longrightarrow> byte_code c < 128 \<Longrightarrow> trim_start (c # s) = c # s"
  by (auto simp: white1_def white2_def white3_def byte_code_def is_ascii_whitespace_def split: list.split)

lemma trim_rev_ascii:
  "\<not> is_ascii_whitespace c \<Longrightarrow> byte_code c \<noteq> 11 \<Longrightarrow> byte_code c < 128 \<Longrightarrow> trim_rev (c # s) = c # s"
  by (auto simp: white1_def white2_def white3_def byte_code_def is_ascii_whitespace_def split: list.split)

definition solid :: "char \<Rightarrow> bool" where
  "solid c \<longleftrightarrow> \<not> is_ascii_whitespace c \<and> byte_code c \<noteq> 11 \<and> byte_code c < 128"

lemma trim_solid:
  assumes "s \<noteq> []" and "solid (hd s)" and "solid (last s)"
  shows "trim s = s"
proof -
  obtain c t where s: "s = c # t" using assms(1) by (cases s) simp_all
  have "trim_start (c # t) = c # t" using assms(2) s by (intro trim_start_ascii) (simp_all add: solid_def)
  moreover have "rev s = last s # rev (butlast s)" using assms(1) by (metis append_butlast_last_id rev.simps(2) rev_rev_ident)
  moreover have "trim_rev (last s # rev (butlast s)) = last s # rev (butlast s)"
    using assms(3) by (intro trim_rev_ascii) (simp_all add: solid_def)
  ultimately have "trim_start s = s" "trim_rev (rev s) = rev s" using s by (metis, metis)
  then show ?thesis by (simp add: trim_def)
qed

lemma text_lines_single:
  "s \<noteq> [] \<Longrightarrow> CHR 0x0A \<notin> set s \<Longrightarrow> last s \<noteq> CHR 0x0D \<Longrightarrow> text_lines (s @ [CHR 0x0A]) = [s]"
  by (subst text_lines.simps)
    (auto simp: takeWhile_append dropWhile_append strip_cr_def text_lines.simps)

lemma encode_hex_last: "bs \<noteq> [] \<Longrightarrow> last (encode_hex bs) \<in> set DIGITS"
  using set_encode_hex [of bs] by (metis encode_hex_plain last_in_set plain_word_def subsetD)

lemma digit_solid: "c \<in> set DIGITS \<Longrightarrow> solid c"
  by (auto simp: in_DIGITS solid_def byte_code_def is_ascii_whitespace_def)

lemma unwords3: "unwords [a, b, c] = a @ CHR '' '' # b @ CHR '' '' # c"
  by simp

lemma versions_plain [simp]:
  "plain_word PRIVATE_FILE_VERSION" "plain_word PUBLIC_FILE_VERSION"
  by (simp_all add: PRIVATE_FILE_VERSION_def PUBLIC_FILE_VERSION_def plain_word_def is_ascii_whitespace_def)

lemma try_from_wire: "signature_scheme_ok E \<Longrightarrow> ed_sig_try_from E bs = Ok s \<Longrightarrow> wire_signature E s"
  by (auto simp: signature_scheme_ok_def wire_signature_def)

lemma sign_wire: "signature_scheme_ok E \<Longrightarrow> wire_signature E (ed_sign E secret m)"
  by (simp add: signature_scheme_ok_def)

lemma sign_verifies: "signature_scheme_ok E \<Longrightarrow> ed_verify_strict E (ed_verifying_key E secret) m (ed_sign E secret m)"
  by (simp add: signature_scheme_ok_def)

section \<open>Lemmas: files that \<open>generate\<close> writes are read back\<close>

lemma parse_identity_line:
  assumes "valid_node_id n" and "length secret = 32"
  shows "parse_identity (identity_line PRIVATE_FILE_VERSION n secret)
           = Ok \<lparr>id_node_id = n, id_signing_key = secret\<rparr>"
proof -
  have "secret \<noteq> []" using assms(2) by auto
  then have "split_ascii_whitespace (identity_line PRIVATE_FILE_VERSION n secret)
      = [PRIVATE_FILE_VERSION, n, encode_hex secret]"
    unfolding identity_line_def using assms(1) by (intro split_unwords_line_feed) simp_all
  then show ?thesis using assms by (simp add: parse_identity_def decode_encode_hex)
qed

definition sample_identity_file :: string where
  "sample_identity_file = identity_line PRIVATE_FILE_VERSION ''mesh-a'' sample_secret"

lemma mesh_a_valid: "valid_node_id ''mesh-a''"
  by (simp add: valid_node_id_def MAX_NODE_ID_BYTES_def is_ascii_alphanumeric_def)

lemma sample_identity_loaded:
  "load_identity path (Inr sample_identity_file) = Ok \<lparr>id_node_id = ''mesh-a'', id_signing_key = sample_secret\<rparr>"
  by (simp add: load_identity_def sample_identity_file_def parse_identity_line mesh_a_valid sample_secret_def)

lemma three_fields:
  assumes "length ws = 3"
  obtains a b c where "ws = [a, b, c]"
  using assms by (auto simp: numeral_3_eq_3 length_Suc_conv)

lemma parse_identity_Ok:
  assumes "parse_identity contents = Ok i"
  shows "valid_node_id (id_node_id i) \<and> length (id_signing_key i) = 32"
proof -
  have "length (split_ascii_whitespace contents) = 3"
    using assms by (simp add: parse_identity_def split: list.splits)
  then obtain v n h where fields: "split_ascii_whitespace contents = [v, n, h]" by (rule three_fields)
  show ?thesis
    using assms unfolding parse_identity_def fields
    by (auto dest: decode_hex_array_length split: if_splits)
qed

lemma load_identity_valid:
  "load_identity path file = Ok i \<Longrightarrow> valid_node_id (id_node_id i) \<and> length (id_signing_key i) = 32"
  unfolding load_identity_def by (cases "file") (simp_all add: parse_identity_Ok)

lemma load_authorization_line:
  fixes secret :: bytes
  assumes ok: "signature_scheme_ok E" and n: "valid_node_id n"
  defines "vk \<equiv> ed_verifying_key E secret"
  shows "load_authorizations E path (Inr (identity_line PUBLIC_FILE_VERSION n (ed_key_as_bytes E vk)))
           = Ok \<lparr>auth_keys = fmupd n vk fmempty\<rparr>"
proof -
  let ?hex = "encode_hex (ed_key_as_bytes E vk)"
  let ?line = "unwords [PUBLIC_FILE_VERSION, n, ?hex]"
  have len: "length (ed_key_as_bytes E vk) = 32"
    and key: "ed_key_from_bytes E (ed_key_as_bytes E vk) = Ok vk"
    using ok by (auto simp: signature_scheme_ok_def vk_def)
  then have nonempty: "ed_key_as_bytes E vk \<noteq> []" by auto
  have "?hex \<noteq> []" using encode_hex_plain [of "ed_key_as_bytes E vk"] nonempty
    by (auto simp: plain_word_def)
  then have last: "last ?line \<in> set DIGITS"
    using encode_hex_last [OF nonempty] by (simp add: unwords3)
  have hd: "hd ?line = CHR ''M''" by (simp add: PUBLIC_FILE_VERSION_def)
  have trimmed: "trim ?line = ?line"
  proof (rule trim_solid)
    show "solid (last ?line)" by (rule digit_solid [OF last])
    show "solid (hd ?line)" unfolding hd by (simp add: solid_def byte_code_def is_ascii_whitespace_def)
  qed simp
  have "CHR 0x0A \<notin> set ?line"
    using valid_node_id_no_line_feed [OF n] encode_hex_no_line_feed
    by (simp add: PUBLIC_FILE_VERSION_def)
  moreover have "last ?line \<noteq> CHR 0x0D" using last by (auto simp: in_DIGITS)
  ultimately have lines: "text_lines (?line @ [CHR 0x0A]) = [?line]"
    by (intro text_lines_single) simp_all
  have fields: "split_ascii_whitespace ?line = [PUBLIC_FILE_VERSION, n, ?hex]"
    using n nonempty by (intro split_unwords) simp_all
  have "parse_authorization_line E 1 ?line fmempty = Ok (fmupd n vk fmempty)"
    unfolding parse_authorization_line_def trimmed Let_def fields
    using hd n len key by (simp add: decode_encode_hex)
  moreover have "fmupd n vk fmempty \<noteq> (fmempty :: (string, 'a) fmap)"
    by (metis fmempty_lookup fmupd_lookup option.distinct(1))
  ultimately show ?thesis
    unfolding load_authorizations_def identity_line_def map_err_simps and_then_simps lines
    by (simp del: unwords.simps)
qed

definition sample_authorization_file :: string where
  "sample_authorization_file = identity_line PUBLIC_FILE_VERSION ''mesh-a''
     (ed_key_as_bytes sample_ed25519 (ed_verifying_key sample_ed25519 sample_secret))"

lemma sample_authorization_loaded:
  "load_authorizations sample_ed25519 path (Inr sample_authorization_file) = Ok sample_authorizations"
  unfolding sample_authorization_file_def sample_authorizations_def
  by (rule load_authorization_line [OF sample_ed25519_ok mesh_a_valid])

section \<open>Lemmas: writing\<close>

lemma write_new_keeps:
  "write_new os path contents mode fs = (fs', r) \<Longrightarrow> fmlookup fs f = Some x \<Longrightarrow> fmlookup fs' f = Some x"
  by (auto simp: write_new_def Let_def split: option.splits if_splits)

lemma write_new_Ok:
  "write_new os path contents mode fs = (fs', Ok u) \<longleftrightarrow>
     os_create_error os path = None \<and> fmlookup fs (os_resolve os path) = None
     \<and> os_write_error os path = None \<and> os_sync_error os path = None
     \<and> fs' = fmupd (os_resolve os path) \<lparr>file_bytes = contents, file_mode = created_mode os mode\<rparr> fs"
  by (auto simp: write_new_def Let_def split: option.splits if_splits)

section \<open>Lemmas: what an authorization file authorizes\<close>

text \<open>A line (already trimmed) grants a key to a node.\<close>

definition grants :: "('vk, 'sig) ed25519 \<Rightarrow> string \<Rightarrow> string \<Rightarrow> 'vk \<Rightarrow> bool" where
  "grants E line node_id vk \<longleftrightarrow> line \<noteq> [] \<and> hd line \<noteq> CHR ''#'' \<and>
     (\<exists>public_hex public_bytes. split_ascii_whitespace line = [PUBLIC_FILE_VERSION, node_id, public_hex]
        \<and> decode_hex_array 32 public_hex = Ok public_bytes \<and> ed_key_from_bytes E public_bytes = Ok vk)"

lemma parse_authorization_line_Ok:
  assumes "parse_authorization_line E n line keys = Ok keys'"
  shows "(keys' = keys \<and> (\<forall>m vk. \<not> grants E (trim line) m vk))
       \<or> (\<exists>m vk. grants E (trim line) m vk \<and> valid_node_id m \<and> fmlookup keys m = None
            \<and> keys' = fmupd m vk keys \<and> (\<forall>m' vk'. grants E (trim line) m' vk' \<longrightarrow> m' = m \<and> vk' = vk))"
proof (cases "trim line = [] \<or> hd (trim line) = CHR ''#''")
  case True
  with assms show ?thesis by (auto simp: parse_authorization_line_def grants_def)
next
  case False
  let ?fields = "split_ascii_whitespace (trim line)"
  have "length ?fields = 3"
    using assms False by (simp add: parse_authorization_line_def Let_def split: list.splits)
  then obtain v m h where fields: "?fields = [v, m, h]" by (rule three_fields)
  have cases3: "(if v \<noteq> PUBLIC_FILE_VERSION then Err e1 else if \<not> valid_node_id m then Err e2
      else and_then (map_err g1 (decode_hex_array 32 h)) (\<lambda>bs. and_then (map_err g2 (ed_key_from_bytes E bs))
        (\<lambda>vk. if fmlookup keys m \<noteq> None then Err e3 else Ok (fmupd m vk keys)))) = Ok keys' \<Longrightarrow>
      \<exists>bs vk. v = PUBLIC_FILE_VERSION \<and> valid_node_id m \<and> decode_hex_array 32 h = Ok bs
        \<and> ed_key_from_bytes E bs = Ok vk \<and> fmlookup keys m = None \<and> keys' = fmupd m vk keys"
    for e1 e2 e3 g1 g2
    by (cases "v \<noteq> PUBLIC_FILE_VERSION"; cases "valid_node_id m"; cases "fmlookup keys m") auto
  obtain bs vk where ok: "v = PUBLIC_FILE_VERSION" "valid_node_id m"
    "decode_hex_array 32 h = Ok bs" "ed_key_from_bytes E bs = Ok vk" "fmlookup keys m = None"
    "keys' = fmupd m vk keys"
    using cases3 [OF assms [unfolded parse_authorization_line_def Let_def fields if_not_P [OF False] list.case]]
    by blast
  then have "grants E (trim line) m' vk' \<longleftrightarrow> m' = m \<and> vk' = vk" for m' vk'
    using False fields by (auto simp: grants_def)
  with ok show ?thesis by blast
qed

lemma parse_authorization_lines_Ok:
  assumes "parse_authorization_lines E n lines keys = Ok keys'"
  shows "fmlookup keys' m = Some vk \<longleftrightarrow>
     fmlookup keys m = Some vk \<or> (\<exists>line \<in> set lines. grants E (trim line) m vk)"
  using assms
proof (induction lines arbitrary: n keys)
  case Nil
  then show ?case by simp
next
  case (Cons line lines)
  then obtain keys1 where first: "parse_authorization_line E n line keys = Ok keys1"
    and rest: "parse_authorization_lines E (Suc n) lines keys1 = Ok keys'" by auto
  note IH = Cons.IH [OF rest]
  from parse_authorization_line_Ok [OF first] show ?case
  proof
    assume "keys1 = keys \<and> (\<forall>m vk. \<not> grants E (trim line) m vk)"
    with IH show ?thesis by auto
  next
    assume "\<exists>m vk. grants E (trim line) m vk \<and> valid_node_id m \<and> fmlookup keys m = None
            \<and> keys1 = fmupd m vk keys \<and> (\<forall>m' vk'. grants E (trim line) m' vk' \<longrightarrow> m' = m \<and> vk' = vk)"
    then obtain m1 vk1 where line: "\<And>m' vk'. grants E (trim line) m' vk' \<longleftrightarrow> m' = m1 \<and> vk' = vk1"
      and keys1: "fmlookup keys m1 = None" "keys1 = fmupd m1 vk1 keys" by blast
    show ?thesis
    proof (cases "m = m1")
      case True
      then show ?thesis unfolding IH using keys1 by (auto simp: line)
    next
      case False
      then show ?thesis unfolding IH using keys1 by (simp add: line)
    qed
  qed
qed

lemma parse_authorization_lines_valid:
  assumes "parse_authorization_lines E n lines keys = Ok keys'"
    and "\<And>m. fmlookup keys m \<noteq> None \<Longrightarrow> valid_node_id m" and "fmlookup keys' m \<noteq> None"
  shows "valid_node_id m"
  using assms
proof (induction lines arbitrary: n keys)
  case Nil
  then show ?case by simp
next
  case (Cons line lines)
  then obtain keys1 where first: "parse_authorization_line E n line keys = Ok keys1"
    and rest: "parse_authorization_lines E (Suc n) lines keys1 = Ok keys'" by auto
  have "valid_node_id m'" if "fmlookup keys1 m' \<noteq> None" for m'
    using parse_authorization_line_Ok [OF first]
  proof
    assume "keys1 = keys \<and> (\<forall>m vk. \<not> grants E (trim line) m vk)"
    then show ?thesis using Cons.prems(2) that by simp
  next
    assume "\<exists>m vk. grants E (trim line) m vk \<and> valid_node_id m \<and> fmlookup keys m = None
            \<and> keys1 = fmupd m vk keys \<and> (\<forall>m' vk'. grants E (trim line) m' vk' \<longrightarrow> m' = m \<and> vk' = vk)"
    then obtain m1 vk1 where "valid_node_id m1" "keys1 = fmupd m1 vk1 keys" by blast
    then show ?thesis using Cons.prems(2) [of m'] that by (cases "m' = m1") simp_all
  qed
  then show ?case using Cons.IH [OF rest _ Cons.prems(3)] by blast
qed

lemma load_authorizations_valid:
  assumes "load_authorizations E path contents = Ok A" and "auth_get A n = Some vk"
  shows "valid_node_id n"
proof (cases "contents")
  case (Inr s)
  with assms obtain keys where "parse_authorization_lines E 1 (text_lines s) fmempty = Ok keys"
    and "fmlookup keys n = Some vk"
    by (auto simp: load_authorizations_def auth_get_def Let_def split: if_splits)
  then show ?thesis using parse_authorization_lines_valid [of E 1 "text_lines s" fmempty keys n] by simp
next
  case (Inl e)
  with assms show ?thesis by (simp add: load_authorizations_def)
qed

section \<open>Properties\<close>

lemma write_new_resolve:
  "write_new os path contents mode fs = (fs', r) \<Longrightarrow> f \<noteq> os_resolve os path \<Longrightarrow> fmlookup fs' f = fmlookup fs f"
  by (auto simp: write_new_def Let_def split: option.splits if_splits)

lemma generate_Ok:
  assumes "generate E os random n private_path public_path fs = (fs', Ok u)"
  obtains secret fs1 where "random = Inr secret" "valid_node_id n"
    "path_components private_path \<noteq> path_components public_path"
    "write_new os private_path (as_bytes (identity_line PRIVATE_FILE_VERSION n secret)) private_mode fs = (fs1, Ok ())"
    "write_new os public_path (as_bytes (identity_line PUBLIC_FILE_VERSION n
       (ed_key_as_bytes E (ed_verifying_key E secret)))) public_mode fs1 = (fs', Ok ())"
  using assms by (auto simp: generate_def Let_def split: if_splits sum.splits prod.splits)

lemma generated_files_load:
  assumes "signature_scheme_ok E" and "length secret = 32"
    and "generate E os (Inr secret) n private_path public_path fs = (fs', Ok ())"
  shows "\<exists>private public. fmlookup fs' (os_resolve os private_path) = Some private
     \<and> file_mode private = created_mode os private_mode
     \<and> load_identity private_path (Inr (str_of_bytes (file_bytes private)))
         = Ok \<lparr>id_node_id = n, id_signing_key = secret\<rparr>
     \<and> fmlookup fs' (os_resolve os public_path) = Some public
     \<and> file_mode public = created_mode os public_mode
     \<and> load_authorizations E public_path (Inr (str_of_bytes (file_bytes public)))
         = Ok \<lparr>auth_keys = fmupd n (ed_verifying_key E secret) fmempty\<rparr>"
proof -
  obtain s fs1 where s: "Inr secret = (Inr s :: string + bytes)" and n: "valid_node_id n"
    and priv: "write_new os private_path (as_bytes (identity_line PRIVATE_FILE_VERSION n s)) private_mode fs = (fs1, Ok ())"
    and pub: "write_new os public_path (as_bytes (identity_line PUBLIC_FILE_VERSION n
       (ed_key_as_bytes E (ed_verifying_key E s)))) public_mode fs1 = (fs', Ok ())"
    by (rule generate_Ok [OF assms(3)])
  have "fmlookup fs1 (os_resolve os private_path)
      = Some \<lparr>file_bytes = as_bytes (identity_line PRIVATE_FILE_VERSION n secret), file_mode = created_mode os private_mode\<rparr>"
    using priv s by (simp add: write_new_Ok)
  then have "fmlookup fs' (os_resolve os private_path)
      = Some \<lparr>file_bytes = as_bytes (identity_line PRIVATE_FILE_VERSION n secret), file_mode = created_mode os private_mode\<rparr>"
    by (rule write_new_keeps [OF pub])
  moreover have "fmlookup fs' (os_resolve os public_path)
      = Some \<lparr>file_bytes = as_bytes (identity_line PUBLIC_FILE_VERSION n
          (ed_key_as_bytes E (ed_verifying_key E secret))), file_mode = created_mode os public_mode\<rparr>"
    using pub s by (simp add: write_new_Ok)
  ultimately show ?thesis
    using parse_identity_line [OF n assms(2)] load_authorization_line [OF assms(1) n, of public_path secret]
    by (simp add: load_identity_def)
qed

text \<open>A mode without group and other bits stays so under any umask.\<close>

lemma created_mode_and: "x AND created_mode os mode = (x AND mode) AND NOT (os_umask os)"
  by (simp add: created_mode_def and.assoc)

text \<open>
  C30.  A key pair that \<open>generate\<close> reports as created is usable: the contents of the private file
  load as the identity with the generated secret, and those of the public file as an authorization
  of exactly this node with the matching verification key.  The private file has the mode 0600
  and the public file 0644, each without the bits of the umask; under every umask the private
  file gives the group and others no access, and under the usual umask 022 the modes are exactly
  0600 and 0644.
\<close>

theorem generate_then_load:
  assumes "signature_scheme_ok E" and "length secret = 32"
    and "generate E os (Inr secret) n private_path public_path fs = (fs', Ok ())"
  shows "\<exists>private public. fmlookup fs' (os_resolve os private_path) = Some private
     \<and> load_identity private_path (Inr (str_of_bytes (file_bytes private)))
         = Ok \<lparr>id_node_id = n, id_signing_key = secret\<rparr>
     \<and> file_mode private = 384 AND NOT (os_umask os) \<and> 63 AND file_mode private = 0
     \<and> fmlookup fs' (os_resolve os public_path) = Some public
     \<and> load_authorizations E public_path (Inr (str_of_bytes (file_bytes public)))
         = Ok \<lparr>auth_keys = fmupd n (ed_verifying_key E secret) fmempty\<rparr>
     \<and> file_mode public = 420 AND NOT (os_umask os)
     \<and> (os_umask os = 18 \<longrightarrow> file_mode private = 384 \<and> file_mode public = 420)"
proof -
  have modes: "private_mode = 384" "public_mode = 420" by (simp_all add: private_mode_def public_mode_def)
  have "63 AND created_mode os private_mode = 0" unfolding created_mode_and modes by simp
  moreover have "created_mode os private_mode = 384" "created_mode os public_mode = 420" if "os_umask os = 18"
    using that by (simp_all add: created_mode_def modes)
  moreover obtain priv pub where "fmlookup fs' (os_resolve os private_path) = Some priv"
    "file_mode priv = created_mode os private_mode"
    "load_identity private_path (Inr (str_of_bytes (file_bytes priv))) = Ok \<lparr>id_node_id = n, id_signing_key = secret\<rparr>"
    "fmlookup fs' (os_resolve os public_path) = Some pub" "file_mode pub = created_mode os public_mode"
    "load_authorizations E public_path (Inr (str_of_bytes (file_bytes pub)))
       = Ok \<lparr>auth_keys = fmupd n (ed_verifying_key E secret) fmempty\<rparr>"
    using generated_files_load [OF assms] by blast
  ultimately show ?thesis unfolding created_mode_def modes by (intro exI conjI impI) simp_all
qed

definition sample_os :: os_env where
  "sample_os = \<lparr>os_resolve = (\<lambda>p. p), os_umask = 18, os_create_error = (\<lambda>p. None), os_exists_text = ''file exists'',
     os_write_error = (\<lambda>p. None), os_sync_error = (\<lambda>p. None)\<rparr>"

lemma sample_generate:
  "\<exists>fs'. generate sample_ed25519 sample_os (Inr sample_secret) ''mesh-a'' ''a.identity'' ''a.authorization'' fmempty
     = (fs', Ok ())"
  by (simp add: generate_def mesh_a_valid path_components_def Let_def write_new_def sample_os_def)

theorem generate_then_load_witness:
  "\<exists>fs' private. generate sample_ed25519 sample_os (Inr sample_secret) ''mesh-a'' ''a.identity'' ''a.authorization''
       fmempty = (fs', Ok ())
     \<and> fmlookup fs' ''a.identity'' = Some private \<and> file_mode private = 384
     \<and> load_identity ''a.identity'' (Inr (str_of_bytes (file_bytes private)))
         = Ok \<lparr>id_node_id = ''mesh-a'', id_signing_key = sample_secret\<rparr>"
proof -
  obtain fs' where run: "generate sample_ed25519 sample_os (Inr sample_secret) ''mesh-a'' ''a.identity''
      ''a.authorization'' fmempty = (fs', Ok ())" using sample_generate by blast
  have "length sample_secret = 32" by (simp add: sample_secret_def)
  from generate_then_load [OF sample_ed25519_ok this run] run show ?thesis
    by (auto simp: sample_os_def)
qed

text \<open>
  C31.  Key generation never changes or removes an existing file, whatever it returns and
  whatever the paths name; and a failure to create the first file leaves no second one.
\<close>

theorem generate_never_overwrites:
  assumes "generate E os random n private_path public_path fs = (fs', r)" and "fmlookup fs f = Some x"
  shows "fmlookup fs' f = Some x
     \<and> (fmlookup fs (os_resolve os private_path) \<noteq> None \<longrightarrow> fs' = fs \<and> (\<exists>e. r = Err e))"
proof
  show "fmlookup fs' f = Some x"
    using assms by (auto simp: generate_def Let_def split: if_splits sum.splits prod.splits dest: write_new_keeps)
  show "fmlookup fs (os_resolve os private_path) \<noteq> None \<longrightarrow> fs' = fs \<and> (\<exists>e. r = Err e)"
    using assms(1)
    by (auto simp: generate_def write_new_def Let_def split: if_splits sum.splits prod.splits option.splits)
qed

theorem generate_never_overwrites_witness:
  "\<exists>fs' r. generate sample_ed25519 sample_os (Inr sample_secret) ''mesh-a'' ''a.identity'' ''a.authorization''
       (fmupd ''a.identity'' \<lparr>file_bytes = [1], file_mode = 384\<rparr> fmempty) = (fs', r)
     \<and> fmlookup fs' ''a.identity'' = Some \<lparr>file_bytes = [1], file_mode = 384\<rparr> \<and> (\<exists>e. r = Err e)"
proof -
  let ?fs = "fmupd ''a.identity'' \<lparr>file_bytes = [1], file_mode = 384\<rparr> fmempty :: file_system"
  obtain fs' r where run: "generate sample_ed25519 sample_os (Inr sample_secret) ''mesh-a'' ''a.identity''
      ''a.authorization'' ?fs = (fs', r)" by (metis surj_pair)
  have "fmlookup ?fs ''a.identity'' = Some \<lparr>file_bytes = [1], file_mode = 384\<rparr>" by simp
  from generate_never_overwrites [OF run this] run show ?thesis by (auto simp: sample_os_def)
qed

text \<open>
  C32.  An authorization file that loads authorizes exactly what its lines grant: a node has the
  key \<open>vk\<close> iff some line, once trimmed, is no comment and consists of the version, the node ID
  and 64 hexadecimal digits that decode to \<open>vk\<close>.  No line is ambiguous (each node has one key),
  every authorized node ID is valid and at least one is authorized.
\<close>

theorem authorizations_are_the_granted_keys:
  assumes "load_authorizations E path contents = Ok A"
  shows "\<exists>text. contents = Inr text
     \<and> (\<forall>m vk. auth_get A m = Some vk \<longleftrightarrow> (\<exists>line \<in> set (text_lines text). grants E (trim line) m vk))
     \<and> (\<forall>m. auth_get A m \<noteq> None \<longrightarrow> valid_node_id m) \<and> (\<exists>m. auth_get A m \<noteq> None)"
proof -
  obtain t keys where t: "contents = Inr t"
    and parsed: "parse_authorization_lines E 1 (text_lines t) fmempty = Ok keys"
    and some: "keys \<noteq> fmempty" and A: "A = \<lparr>auth_keys = keys\<rparr>"
    using assms unfolding load_authorizations_def
    by (cases contents) (auto split: if_splits)
  have get: "auth_get A m = fmlookup keys m" for m by (simp add: auth_get_def A)
  have "\<exists>m. auth_get A m \<noteq> None"
  proof (rule ccontr)
    assume "\<not> ?thesis"
    then have "keys = fmempty" by (intro fmap_ext) (simp add: get)
    with some show False by blast
  qed
  moreover have "valid_node_id m" if "auth_get A m \<noteq> None" for m
    using parse_authorization_lines_valid [OF parsed] that by (simp add: get)
  moreover have "auth_get A m = Some vk \<longleftrightarrow> (\<exists>line \<in> set (text_lines t). grants E (trim line) m vk)" for m vk
    using parse_authorization_lines_Ok [OF parsed] by (simp add: get)
  ultimately show ?thesis using t by blast
qed

theorem authorizations_are_the_granted_keys_witness:
  "\<exists>line \<in> set (text_lines sample_authorization_file).
     grants sample_ed25519 (trim line) ''mesh-a'' (ed_verifying_key sample_ed25519 sample_secret)"
proof -
  from authorizations_are_the_granted_keys [OF sample_authorization_loaded [of "''keys''"]]
  have "auth_get sample_authorizations ''mesh-a'' = Some (ed_verifying_key sample_ed25519 sample_secret) \<longleftrightarrow>
      (\<exists>line \<in> set (text_lines sample_authorization_file).
         grants sample_ed25519 (trim line) ''mesh-a'' (ed_verifying_key sample_ed25519 sample_secret))"
    by blast
  then show ?thesis by (simp only: sample_authorized simp_thms)
qed

end
