(* ===== verification/Coordinator_Wire.thy ===== *)
theory Coordinator_Wire
  imports Routing Identity
begin

text \<open>
  The messages of \<open>src/coordinator.rs\<close>: requests and replies of \<open>MESHLET/1\<close> and
  \<open>MESHLET/2\<close>, their parsers and printers, the message a registration signs, and the request
  texts the clients send.  The lemmas state what a parsed request satisfies and that every valid
  request the clients print is parsed back.
\<close>

section \<open>Constants and messages\<close>

definition PROTOCOL_VERSION :: string where "PROTOCOL_VERSION = ''MESHLET/1''"
definition AUTH_PROTOCOL_VERSION :: string where "AUTH_PROTOCOL_VERSION = ''MESHLET/2''"
definition MAX_DATAGRAM_BYTES :: nat where "MAX_DATAGRAM_BYTES = 1024"
definition MAX_LEASE_SECONDS :: nat where "MAX_LEASE_SECONDS = 300"
definition CHALLENGE_BYTES :: nat where "CHALLENGE_BYTES = 32"
definition CHALLENGE_LIFETIME :: duration where "CHALLENGE_LIFETIME = from_secs 10"

datatype request =
    Register string duration
  | Lookup string
  | AdvertiseRoute string ipv4_prefix duration
  | RouteLookup ipv4_addr

datatype 'sig auth_request =
    AuthChallenge string
  | AuthRegister string duration bytes 'sig
  | AuthLookup string

datatype response =
    Registered string socket_addr duration
  | Found string socket_addr
  | NotFound string
  | RouteAdvertised string ipv4_prefix duration
  | RouteFound ipv4_addr ipv4_prefix string
  | RouteNotFound ipv4_addr
  | Error string

datatype auth_response =
    AuthChallengeIssued string bytes
  | AuthRegistered string socket_addr duration
  | AuthFound string socket_addr
  | AuthNotFound string
  | AuthError string

fun encode_response :: "response \<Rightarrow> string" where
  "encode_response (Registered node_id endpoint lease) =
     unwords [PROTOCOL_VERSION, ''REGISTERED'', node_id, show_socket_addr endpoint, decimal (as_secs lease)]"
| "encode_response (Found node_id endpoint) =
     unwords [PROTOCOL_VERSION, ''FOUND'', node_id, show_socket_addr endpoint]"
| "encode_response (NotFound node_id) = unwords [PROTOCOL_VERSION, ''NOT_FOUND'', node_id]"
| "encode_response (RouteAdvertised node_id prefix lease) =
     unwords [PROTOCOL_VERSION, ''ROUTE_ADVERTISED'', node_id, show_prefix prefix, decimal (as_secs lease)]"
| "encode_response (RouteFound destination prefix node_id) =
     unwords [PROTOCOL_VERSION, ''ROUTE_FOUND'', show_ipv4 destination, show_prefix prefix, node_id]"
| "encode_response (RouteNotFound destination) =
     unwords [PROTOCOL_VERSION, ''ROUTE_NOT_FOUND'', show_ipv4 destination]"
| "encode_response (Error message) = unwords [PROTOCOL_VERSION, ''ERROR'', message]"

fun encode_auth_response :: "auth_response \<Rightarrow> string" where
  "encode_auth_response (AuthChallengeIssued node_id challenge) =
     unwords [AUTH_PROTOCOL_VERSION, ''CHALLENGE'', node_id, encode_hex challenge]"
| "encode_auth_response (AuthRegistered node_id endpoint lease) =
     unwords [AUTH_PROTOCOL_VERSION, ''REGISTERED'', node_id, show_socket_addr endpoint,
              decimal (as_secs lease)]"
| "encode_auth_response (AuthFound node_id endpoint) =
     unwords [AUTH_PROTOCOL_VERSION, ''FOUND'', node_id, show_socket_addr endpoint]"
| "encode_auth_response (AuthNotFound node_id) =
     unwords [AUTH_PROTOCOL_VERSION, ''NOT_FOUND'', node_id]"
| "encode_auth_response (AuthError message) =
     unwords [AUTH_PROTOCOL_VERSION, ''ERROR'', message]"

section \<open>Parsers\<close>

definition parse_lease :: "string \<Rightarrow> duration result" where
  "parse_lease lease_seconds =
     and_then (ok_or ''lease must be an integer number of seconds''
                 (parse_unsigned u64_max lease_seconds)) (\<lambda>n.
     if \<not> (1 \<le> n \<and> n \<le> MAX_LEASE_SECONDS)
     then Err (''lease must be between 1 and '' @ decimal MAX_LEASE_SECONDS @ '' seconds'')
     else Ok (from_secs n))"

text \<open>
  Every arm of the source's slice pattern but the last two is guarded by the version, so the
  version test comes first here.  The \<open>REGISTER\<close> arm of the source repeats the two checks
  of \<open>validate_node_id\<close> and \<open>parse_lease\<close> with the same messages.
\<close>

definition request_expected :: string where
  "request_expected =
     ''expected a node registration, node lookup, route advertisement, or route lookup''"

definition parse_request_fields :: "string list \<Rightarrow> request result" where
  "parse_request_fields words =
     (case words of
        [] \<Rightarrow> Err request_expected
      | version # rest \<Rightarrow>
          if version \<noteq> PROTOCOL_VERSION
          then Err (''unsupported protocol version '' @ quoted version)
          else (case rest of
            [kind, node_id, lease_seconds] \<Rightarrow>
              if kind = ''REGISTER'' then
                and_then (validate_node_id node_id) (\<lambda>_.
                and_then (parse_lease lease_seconds) (\<lambda>lease.
                Ok (Register node_id lease)))
              else Err request_expected
          | [kind, arg] \<Rightarrow>
              if kind = ''LOOKUP'' then
                and_then (validate_node_id arg) (\<lambda>_. Ok (Lookup arg))
              else if kind = ''ROUTE_LOOKUP'' then
                and_then (ok_or ''route destination must be an IPv4 address'' (parse_ipv4_addr arg))
                  (\<lambda>destination. Ok (RouteLookup destination))
              else Err request_expected
          | [kind, node_id, prefix, lease_seconds] \<Rightarrow>
              if kind = ''ADVERTISE_ROUTE'' then
                and_then (validate_node_id node_id) (\<lambda>_.
                and_then (parse_prefix prefix) (\<lambda>prefix.
                and_then (parse_lease lease_seconds) (\<lambda>lease.
                Ok (AdvertiseRoute node_id prefix lease))))
              else Err request_expected
          | _ \<Rightarrow> Err request_expected))"

definition parse_request :: "bytes \<Rightarrow> request result" where
  "parse_request message =
     and_then (ok_or ''request is not UTF-8'' (from_utf8 message)) (\<lambda>text.
     parse_request_fields (split_ascii_whitespace text))"

definition auth_request_expected :: string where
  "auth_request_expected =
     ''expected '' @ quoted (AUTH_PROTOCOL_VERSION @ '' CHALLENGE NODE_ID'') @ '', ''
       @ quoted (AUTH_PROTOCOL_VERSION @ '' REGISTER NODE_ID LEASE_SECONDS CHALLENGE_HEX SIGNATURE_HEX'')
       @ '', or '' @ quoted (AUTH_PROTOCOL_VERSION @ '' LOOKUP NODE_ID'')"

definition parse_auth_request_fields ::
  "('vk, 'sig) ed25519 \<Rightarrow> string list \<Rightarrow> 'sig auth_request result" where
  "parse_auth_request_fields E words =
     (case words of
        [] \<Rightarrow> Err auth_request_expected
      | version # rest \<Rightarrow>
          if version \<noteq> AUTH_PROTOCOL_VERSION
          then Err (''unsupported authenticated protocol version '' @ quoted version)
          else (case rest of
            [kind, node_id] \<Rightarrow>
              if kind = ''CHALLENGE'' then
                and_then (validate_node_id node_id) (\<lambda>_. Ok (AuthChallenge node_id))
              else if kind = ''LOOKUP'' then
                and_then (validate_node_id node_id) (\<lambda>_. Ok (AuthLookup node_id))
              else Err auth_request_expected
          | [kind, node_id, lease_seconds, challenge_hex, signature_hex] \<Rightarrow>
              if kind = ''REGISTER'' then
                and_then (validate_node_id node_id) (\<lambda>_.
                and_then (parse_lease lease_seconds) (\<lambda>lease.
                and_then (decode_hex_array CHALLENGE_BYTES challenge_hex) (\<lambda>challenge.
                and_then (decode_hex_array 64 signature_hex) (\<lambda>signature_bytes.
                and_then (map_err (\<lambda>e. ''invalid signature encoding: '' @ e)
                            (ed_sig_try_from E signature_bytes)) (\<lambda>signature.
                Ok (AuthRegister node_id lease challenge signature))))))
              else Err auth_request_expected
          | _ \<Rightarrow> Err auth_request_expected))"

definition parse_auth_request :: "('vk, 'sig) ed25519 \<Rightarrow> bytes \<Rightarrow> 'sig auth_request result" where
  "parse_auth_request E message =
     and_then (ok_or ''request is not UTF-8'' (from_utf8 message)) (\<lambda>text.
     parse_auth_request_fields E (split_ascii_whitespace text))"

definition registration_signing_message :: "string \<Rightarrow> duration \<Rightarrow> bytes \<Rightarrow> bytes" where
  "registration_signing_message node_id lease challenge =
     as_bytes (closed_lines
       [''MESHLET-REGISTER-SIGNATURE/2'',
        ''node-id:'' @ node_id,
        ''lease-seconds:'' @ decimal (as_secs lease),
        ''challenge:'' @ encode_hex challenge])"

section \<open>What the clients send and read\<close>

definition register_text :: "string \<Rightarrow> nat \<Rightarrow> string" where
  "register_text node_id lease_seconds =
     unwords [PROTOCOL_VERSION, ''REGISTER'', node_id, decimal lease_seconds]"

definition lookup_text :: "string \<Rightarrow> string" where
  "lookup_text node_id = unwords [PROTOCOL_VERSION, ''LOOKUP'', node_id]"

definition advertise_route_text :: "string \<Rightarrow> ipv4_prefix \<Rightarrow> duration \<Rightarrow> string" where
  "advertise_route_text node_id prefix lease =
     unwords [PROTOCOL_VERSION, ''ADVERTISE_ROUTE'', node_id, show_prefix prefix, decimal (as_secs lease)]"

definition route_lookup_text :: "ipv4_addr \<Rightarrow> string" where
  "route_lookup_text destination =
     unwords [PROTOCOL_VERSION, ''ROUTE_LOOKUP'', show_ipv4 destination]"

definition challenge_text :: "string \<Rightarrow> string" where
  "challenge_text node_id = unwords [AUTH_PROTOCOL_VERSION, ''CHALLENGE'', node_id]"

definition signed_register_text ::
  "('vk, 'sig) ed25519 \<Rightarrow> string \<Rightarrow> duration \<Rightarrow> bytes \<Rightarrow> 'sig \<Rightarrow> string" where
  "signed_register_text E node_id lease challenge signature =
     unwords [AUTH_PROTOCOL_VERSION, ''REGISTER'', node_id, decimal (as_secs lease),
              encode_hex challenge, encode_hex (ed_sig_to_bytes E signature)]"

definition auth_lookup_text :: "string \<Rightarrow> string" where
  "auth_lookup_text node_id = unwords [AUTH_PROTOCOL_VERSION, ''LOOKUP'', node_id]"

definition parse_challenge_response :: "string \<Rightarrow> string \<Rightarrow> bytes result" where
  "parse_challenge_response response expected_node_id =
     (let unexpected = Err ''expected an authenticated CHALLENGE response'' in
      case split_ascii_whitespace response of
        [version, kind, node_id, challenge_hex] \<Rightarrow>
          if kind \<noteq> ''CHALLENGE'' then unexpected
          else if version \<noteq> AUTH_PROTOCOL_VERSION
          then Err (''unexpected protocol version '' @ quoted version)
          else if node_id \<noteq> expected_node_id
          then Err (''challenge belongs to node '' @ quoted node_id @ '', not '' @ quoted expected_node_id)
          else decode_hex_array CHALLENGE_BYTES challenge_hex
      | _ \<Rightarrow> unexpected)"

section \<open>What parsed requests satisfy\<close>

definition lease_ok :: "duration \<Rightarrow> bool" where
  "lease_ok lease \<longleftrightarrow> (\<exists>n. 1 \<le> n \<and> n \<le> MAX_LEASE_SECONDS \<and> lease = from_secs n)"

fun request_ok :: "request \<Rightarrow> bool" where
  "request_ok (Register node_id lease) \<longleftrightarrow> valid_node_id node_id \<and> lease_ok lease"
| "request_ok (Lookup node_id) \<longleftrightarrow> valid_node_id node_id"
| "request_ok (AdvertiseRoute node_id prefix lease) \<longleftrightarrow>
     valid_node_id node_id \<and> wf_prefix prefix \<and> lease_ok lease"
| "request_ok (RouteLookup destination) \<longleftrightarrow> True"

fun auth_request_ok :: "('vk, 'sig) ed25519 \<Rightarrow> 'sig auth_request \<Rightarrow> bool" where
  "auth_request_ok E (AuthChallenge node_id) \<longleftrightarrow> valid_node_id node_id"
| "auth_request_ok E (AuthRegister node_id lease challenge signature) \<longleftrightarrow>
     valid_node_id node_id \<and> lease_ok lease \<and> length challenge = CHALLENGE_BYTES
     \<and> wire_signature E signature"
| "auth_request_ok E (AuthLookup node_id) \<longleftrightarrow> valid_node_id node_id"

text \<open>The text a client sends for a request.\<close>

fun request_text :: "request \<Rightarrow> string" where
  "request_text (Register node_id lease) = register_text node_id (as_secs lease)"
| "request_text (Lookup node_id) = lookup_text node_id"
| "request_text (AdvertiseRoute node_id prefix lease) = advertise_route_text node_id prefix lease"
| "request_text (RouteLookup destination) = route_lookup_text destination"

fun auth_request_text :: "('vk, 'sig) ed25519 \<Rightarrow> 'sig auth_request \<Rightarrow> string" where
  "auth_request_text E (AuthChallenge node_id) = challenge_text node_id"
| "auth_request_text E (AuthRegister node_id lease challenge signature) =
     signed_register_text E node_id lease challenge signature"
| "auth_request_text E (AuthLookup node_id) = auth_lookup_text node_id"

lemma parse_lease_ok: "parse_lease s = Ok lease \<Longrightarrow> lease_ok lease"
  by (auto simp: parse_lease_def lease_ok_def split: if_splits)

lemma parse_lease_decimal [wire_simps]: "lease_ok lease \<Longrightarrow> parse_lease (decimal (as_secs lease)) = Ok lease"
  by (auto simp: parse_lease_def lease_ok_def MAX_LEASE_SECONDS_def u64_max_def parse_unsigned_decimal)

lemma protocol_words [simp]:
  "plain_word PROTOCOL_VERSION" "plain_word AUTH_PROTOCOL_VERSION"
  "ascii_text PROTOCOL_VERSION" "ascii_text AUTH_PROTOCOL_VERSION"
  by (simp_all add: PROTOCOL_VERSION_def AUTH_PROTOCOL_VERSION_def plain_word_def is_ascii_whitespace_def)

lemma command_words [simp]:
  "plain_word ''REGISTER''" "plain_word ''LOOKUP''" "plain_word ''ADVERTISE_ROUTE''"
  "plain_word ''ROUTE_LOOKUP''" "plain_word ''CHALLENGE''"
  by (simp_all add: plain_word_def is_ascii_whitespace_def)

lemma read_words:
  assumes "list_all plain_word ws" and "list_all ascii_text ws"
  shows "from_utf8 (as_bytes (unwords ws)) = Some (unwords ws)"
    and "split_ascii_whitespace (unwords ws) = ws"
  using assms by (simp_all add: from_utf8_ascii unwords_ascii split_unwords)

lemma parse_request_words:
  "list_all plain_word ws \<Longrightarrow> list_all ascii_text ws \<Longrightarrow>
     parse_request (as_bytes (unwords ws)) = parse_request_fields ws"
  by (simp add: parse_request_def read_words)

lemma parse_auth_request_words:
  "list_all plain_word ws \<Longrightarrow> list_all ascii_text ws \<Longrightarrow>
     parse_auth_request E (as_bytes (unwords ws)) = parse_auth_request_fields E ws"
  by (simp add: parse_auth_request_def read_words)

lemma parse_request_text: "request_ok q \<Longrightarrow> parse_request (as_bytes (request_text q)) = Ok q"
  by (cases q)
    (simp_all del: unwords.simps add: register_text_def lookup_text_def advertise_route_text_def
      route_lookup_text_def parse_request_words, simp_all add: parse_request_fields_def parse_lease_decimal
      parse_show_prefix parse_show_ipv4)

lemma parse_request_fields_ok: "parse_request_fields ws = Ok q \<Longrightarrow> request_ok q"
  by (auto simp: parse_request_fields_def dest: parse_lease_ok parse_prefix_wf split: list.splits if_splits)

lemma wire_signature_bytes [simp]: "wire_signature E s \<Longrightarrow> ed_sig_to_bytes E s \<noteq> []"
  by (auto simp: wire_signature_def)

lemma parse_auth_request_text:
  "auth_request_ok E q \<Longrightarrow> parse_auth_request E (as_bytes (auth_request_text E q)) = Ok q"
proof (cases q)
  case (AuthRegister n lease challenge s)
  assume ok: "auth_request_ok E q"
  then have "challenge \<noteq> []" by (auto simp: AuthRegister CHALLENGE_BYTES_def)
  then show ?thesis using ok
    by (simp del: unwords.simps add: AuthRegister signed_register_text_def parse_auth_request_words)
      (simp add: parse_auth_request_fields_def parse_lease_decimal decode_encode_hex wire_signature_def)
qed (simp_all del: unwords.simps add: challenge_text_def auth_lookup_text_def parse_auth_request_words,
    simp_all add: parse_auth_request_fields_def)

lemma parse_auth_request_fields_ok:
  "signature_scheme_ok E \<Longrightarrow> parse_auth_request_fields E ws = Ok q \<Longrightarrow> auth_request_ok E q"
  by (auto simp: parse_auth_request_fields_def dest: parse_lease_ok decode_hex_array_length try_from_wire
      split: list.splits if_splits)

text \<open>The two request formats are instances of the shared contract.\<close>

interpretation requests: codec "\<lambda>q. as_bytes (request_text q)" parse_request request_ok
proof
  show "request_ok q \<Longrightarrow> parse_request (as_bytes (request_text q)) = Ok q" for q
    by (rule parse_request_text)
  show "parse_request bs = Ok q \<Longrightarrow> request_ok q" for bs q
    by (auto simp: parse_request_def dest: parse_request_fields_ok)
qed

text \<open>For \<open>MESHLET/2\<close> the scheme is a parameter; the contract holds of every documented one.\<close>

lemma auth_requests_codec:
  assumes "signature_scheme_ok E"
  shows "codec (\<lambda>q. as_bytes (auth_request_text E q)) (parse_auth_request E) (auth_request_ok E)"
proof
  show "auth_request_ok E q \<Longrightarrow> parse_auth_request E (as_bytes (auth_request_text E q)) = Ok q" for q
    by (rule parse_auth_request_text)
  show "parse_auth_request E bs = Ok q \<Longrightarrow> auth_request_ok E q" for bs q
    using assms by (auto simp: parse_auth_request_def dest: parse_auth_request_fields_ok)
qed

lemma parse_challenge_reply:
  assumes "valid_node_id n" and "length c = CHALLENGE_BYTES"
  shows "parse_challenge_response (encode_auth_response (AuthChallengeIssued n c)) n = Ok c"
proof -
  have "c \<noteq> []" using assms(2) by (auto simp: CHALLENGE_BYTES_def)
  with assms show ?thesis
    by (simp add: parse_challenge_response_def split_unwords decode_encode_hex del: unwords.simps)
qed

text \<open>Signed messages determine what they are about.\<close>

lemma registration_signing_message_inject:
  assumes "valid_node_id m" and "valid_node_id n"
  shows "registration_signing_message m l c = registration_signing_message n k d \<longleftrightarrow>
     m = n \<and> as_secs l = as_secs k \<and> c = d"
  using assms unfolding registration_signing_message_def
  by (subst as_bytes_inject, subst closed_lines_inject) (auto simp: one_line_def valid_node_id_no_line_feed encode_hex_no_line_feed one_line_decimal [unfolded one_line_def])

section \<open>Properties\<close>

text \<open>
  A registration signature covers exactly the node, the lease in seconds and the challenge:
  the signed messages of two registrations by valid nodes are equal only if all three agree.
\<close>

theorem registration_message_binds:
  assumes "valid_node_id m" and "valid_node_id n"
  shows "registration_signing_message m l c = registration_signing_message n k d \<longleftrightarrow>
     m = n \<and> as_secs l = as_secs k \<and> c = d"
  by (rule registration_signing_message_inject [OF assms])

theorem registration_message_binds_witness:
  "registration_signing_message ''mesh-a'' (from_secs 30) [1] \<noteq> registration_signing_message ''mesh-a'' (from_secs 300) [1]"
proof -
  have "valid_node_id ''mesh-a''"
    by (simp add: valid_node_id_def MAX_NODE_ID_BYTES_def is_ascii_alphanumeric_def)
  then show ?thesis using registration_message_binds [of "''mesh-a''" "''mesh-a''"] by simp
qed

text \<open>
  C35.  The text a client sends for a \<open>MESHLET/1\<close> request is parsed back to that request exactly
  for requests within the protocol's bounds, and these are exactly the requests that any
  datagram can be parsed to.
\<close>

theorem request_round_trip:
  "(parse_request (as_bytes (request_text q)) = Ok q \<longleftrightarrow> request_ok q)
   \<and> ((\<exists>datagram. parse_request datagram = Ok q) \<longleftrightarrow> request_ok q)"
  using requests.round_trip_iff [of q] requests.dec_valid requests.dec_enc by blast

text \<open>
  C36.  The same for the requests of \<open>MESHLET/2\<close>, with the signature among their fields, for
  every documented signature scheme.
\<close>

theorem auth_request_round_trip:
  assumes "signature_scheme_ok E"
  shows "(parse_auth_request E (as_bytes (auth_request_text E q)) = Ok q \<longleftrightarrow> auth_request_ok E q)
   \<and> ((\<exists>datagram. parse_auth_request E datagram = Ok q) \<longleftrightarrow> auth_request_ok E q)"
  using codec.round_trip_iff [OF auth_requests_codec [OF assms], of q]
    codec.dec_valid [OF auth_requests_codec [OF assms]] by blast

theorem auth_request_round_trip_witness:
  "parse_auth_request sample_ed25519 (as_bytes (auth_request_text sample_ed25519
     (AuthRegister ''mesh-a'' (from_secs 30) (replicate 32 9) (ed_sign sample_ed25519 sample_secret [1]))))
   = Ok (AuthRegister ''mesh-a'' (from_secs 30) (replicate 32 9) (ed_sign sample_ed25519 sample_secret [1]))"
proof -
  have "lease_ok (from_secs 30)" by (auto simp: lease_ok_def MAX_LEASE_SECONDS_def intro!: exI [of _ 30])
  moreover have "valid_node_id ''mesh-a''"
    by (simp add: valid_node_id_def MAX_NODE_ID_BYTES_def is_ascii_alphanumeric_def)
  ultimately have "auth_request_ok sample_ed25519
      (AuthRegister ''mesh-a'' (from_secs 30) (replicate 32 9) (ed_sign sample_ed25519 sample_secret [1]))"
    by (simp add: CHALLENGE_BYTES_def sign_wire [OF sample_ed25519_ok])
  then show ?thesis using auth_request_round_trip [OF sample_ed25519_ok] by blast
qed

end
