(* ===== verification/Registry.thy ===== *)
theory Registry
  imports Coordinator_Wire
begin

text \<open>
  The learning coordinator's state in \<open>src/coordinator.rs\<close> (\<open>Registry\<close>): registrations by
  node and the route table, and \<open>handle\<close>, the one operation requests go through.  The
  registrations are a lease store; the last section computes every reply from the history of
  requests alone.
\<close>

record registration =
  observed_endpoint :: socket_addr
  expires_at :: instant

record registry =
  registrations :: "(string, registration) fmap"
  reg_routes :: route_registry

definition default_registry :: registry where
  "default_registry = \<lparr>registrations = fmempty, reg_routes = empty_routes\<rparr>"

definition remove_expired_registrations :: "instant \<Rightarrow> registry \<Rightarrow> registry" where
  "remove_expired_registrations now r =
     r\<lparr>registrations := retain (\<lambda>_ registration. now < expires_at registration) (registrations r)\<rparr>"

definition registration_expect :: string where
  "registration_expect = ''registration expiration is outside Instant'' @ CHR 0x27 # ''s range''"

fun handle_arm :: "request \<Rightarrow> socket_addr \<Rightarrow> instant \<Rightarrow> registry \<Rightarrow> (registry \<times> response) outcome" where
  "handle_arm (Register node_id lease) source now r =
     out_bind (expect registration_expect (checked_add_instant now lease)) (\<lambda>expires.
     Returns (r\<lparr>registrations := fmupd node_id \<lparr>observed_endpoint = source, expires_at = expires\<rparr>
                                  (registrations r)\<rparr>,
              Registered node_id source lease))"
| "handle_arm (Lookup node_id) source now r =
     (case fmlookup (registrations r) node_id of
        Some registration \<Rightarrow> Returns (r, Found node_id (observed_endpoint registration))
      | None \<Rightarrow> Returns (r, NotFound node_id))"
| "handle_arm (AdvertiseRoute node_id prefix lease) source now r =
     out_bind (advertise node_id prefix lease now (reg_routes r)) (\<lambda>routes.
     Returns (r\<lparr>reg_routes := routes\<rparr>, RouteAdvertised node_id prefix lease))"
| "handle_arm (RouteLookup destination) source now r =
     (case lookup_route destination now (reg_routes r) of
        (routes, Some route) \<Rightarrow>
          Returns (r\<lparr>reg_routes := routes\<rparr>, RouteFound destination (sr_prefix route) (sr_node_id route))
      | (routes, None) \<Rightarrow> Returns (r\<lparr>reg_routes := routes\<rparr>, RouteNotFound destination))"

definition handle :: "request \<Rightarrow> socket_addr \<Rightarrow> instant \<Rightarrow> registry \<Rightarrow> (registry \<times> response) outcome" where
  "handle request source now r = handle_arm request source now (remove_expired_registrations now r)"

section \<open>The registrations as a lease store\<close>

definition reg_get :: "registry \<Rightarrow> string \<Rightarrow> (socket_addr \<times> instant) option" where
  "reg_get r n = map_option (\<lambda>x. (observed_endpoint x, expires_at x)) (fmlookup (registrations r) n)"

definition reg_put :: "string \<Rightarrow> socket_addr \<Rightarrow> instant \<Rightarrow> registry \<Rightarrow> registry" where
  "reg_put n endpoint expires r =
     r\<lparr>registrations := fmupd n \<lparr>observed_endpoint = endpoint, expires_at = expires\<rparr> (registrations r)\<rparr>"

interpretation leases: lease_store reg_get reg_put remove_expired_registrations "\<lambda>_. True"
  by unfold_locales
    (auto simp: reg_get_def reg_put_def remove_expired_registrations_def split: option.split)

lemma reg_get_default [simp]: "reg_get default_registry n = None"
  by (simp add: reg_get_def default_registry_def)

lemma reg_get_prune_default [simp]: "reg_get (remove_expired_registrations now default_registry) n = None"
  by (simp add: leases.get_prune)

text \<open>The routes do not matter to a look-up of a node.\<close>

lemma reg_get_routes [simp]: "reg_get (r\<lparr>reg_routes := x\<rparr>) n = reg_get r n"
  by (simp add: reg_get_def)

lemma prune_routes [simp]:
  "remove_expired_registrations now (r\<lparr>reg_routes := x\<rparr>) = (remove_expired_registrations now r)\<lparr>reg_routes := x\<rparr>"
  by (simp add: remove_expired_registrations_def)

lemma reg_put_routes [simp]: "reg_put n e u (r\<lparr>reg_routes := x\<rparr>) = (reg_put n e u r)\<lparr>reg_routes := x\<rparr>"
  by (simp add: reg_put_def)

lemma reg_routes_prune [simp]: "reg_routes (remove_expired_registrations now r) = reg_routes r"
  by (simp add: remove_expired_registrations_def)

lemma reg_routes_put [simp]: "reg_routes (reg_put n e u r) = reg_routes r"
  by (simp add: reg_put_def)

section \<open>One request\<close>

lemma handle_Register:
  "handle (Register n lease) source now r =
     out_bind (expect registration_expect (checked_add_instant now lease)) (\<lambda>expires.
       Returns (reg_put n source expires (remove_expired_registrations now r), Registered n source lease))"
  by (simp add: handle_def reg_put_def)

lemma handle_Lookup:
  "handle (Lookup n) source now r =
     (let r = remove_expired_registrations now r
      in Returns (r, case reg_get r n of None \<Rightarrow> NotFound n | Some (e, _) \<Rightarrow> Found n e))"
  by (simp add: handle_def reg_get_def Let_def split: option.split)

lemma handle_AdvertiseRoute:
  "handle (AdvertiseRoute n p lease) source now r =
     out_bind (advertise n p lease now (reg_routes r)) (\<lambda>x.
       Returns ((remove_expired_registrations now r)\<lparr>reg_routes := x\<rparr>, RouteAdvertised n p lease))"
  by (simp add: handle_def)

lemma handle_RouteLookup:
  "handle (RouteLookup d) source now r =
     Returns ((remove_expired_registrations now r)\<lparr>reg_routes := fst (lookup_route d now (reg_routes r))\<rparr>,
       case snd (lookup_route d now (reg_routes r)) of
         None \<Rightarrow> RouteNotFound d | Some x \<Rightarrow> RouteFound d (sr_prefix x) (sr_node_id x))"
  by (simp add: handle_def split: prod.split option.split)

lemmas handle_cases = handle_Register handle_Lookup handle_AdvertiseRoute handle_RouteLookup

section \<open>Histories of requests\<close>

type_synonym call = "request \<times> socket_addr \<times> instant"

fun handle_all :: "call list \<Rightarrow> registry \<Rightarrow> registry outcome" where
  "handle_all [] r = Returns r"
| "handle_all ((q, source, now) # calls) r =
     out_bind (handle q source now r) (\<lambda>(r, _). handle_all calls r)"

definition handled_at :: "call \<Rightarrow> instant" where "handled_at c = snd (snd c)"

fun lease_op_of :: "call \<Rightarrow> (string, socket_addr) lease_op" where
  "lease_op_of (Register n lease, source, now) =
     Insert \<lparr>ins_time = now, ins_key = n, ins_val = source, ins_until = now + lease\<rparr>"
| "lease_op_of (_, _, now) = Sweep now"

lemma op_time_call [simp]: "op_time (lease_op_of c) = handled_at c"
  by (cases c rule: lease_op_of.cases) (simp_all add: handled_at_def)

text \<open>A call acts on the registrations like its lease operation, up to the route table.\<close>

lemma handle_lease_op:
  assumes "handle q source now r = Returns (r', reply)"
  shows "\<exists>x. r' = (leases.run_ops [lease_op_of (q, source, now)] r)\<lparr>reg_routes := x\<rparr>"
  using assms
proof (cases q)
  case (Register n lease)
  with assms have "r' = (leases.run_ops [lease_op_of (q, source, now)] r)\<lparr>reg_routes := reg_routes r\<rparr>"
    by (auto simp: handle_Register leases.insert_at_def remove_expired_registrations_def reg_put_def)
  then show ?thesis ..
next
  case (Lookup n)
  with assms have "r' = (leases.run_ops [lease_op_of (q, source, now)] r)\<lparr>reg_routes := reg_routes r\<rparr>"
    by (auto simp: handle_Lookup Let_def remove_expired_registrations_def)
  then show ?thesis ..
qed (auto simp: handle_AdvertiseRoute handle_RouteLookup)

lemma run_ops_routes [simp]: "leases.run_ops ops (r\<lparr>reg_routes := x\<rparr>) = (leases.run_ops ops r)\<lparr>reg_routes := x\<rparr>"
  by (induction ops r rule: leases.run_ops.induct) (simp_all add: leases.insert_at_def)

lemma handle_all_lease_ops:
  "handle_all calls r = Returns r' \<Longrightarrow>
     \<exists>x. r' = (leases.run_ops (map lease_op_of calls) r)\<lparr>reg_routes := x\<rparr>"
proof (induction calls arbitrary: r)
  case Nil
  then have "r' = (leases.run_ops [] r)\<lparr>reg_routes := reg_routes r\<rparr>" by simp
  then show ?case by (metis list.map_disc_iff)
next
  case (Cons c calls)
  obtain q source now where c: "c = (q, source, now)" by (cases c)
  with Cons.prems obtain r1 reply where first: "handle q source now r = Returns (r1, reply)"
    and rest: "handle_all calls r1 = Returns r'" by auto
  from handle_lease_op [OF first] obtain x where
    "r1 = (leases.run_ops [lease_op_of c] r)\<lparr>reg_routes := x\<rparr>" using c by auto
  moreover from Cons.IH [OF rest] obtain y where
    "r' = (leases.run_ops (map lease_op_of calls) r1)\<lparr>reg_routes := y\<rparr>" by auto
  ultimately have "r' = (leases.run_ops ([lease_op_of c] @ map lease_op_of calls) r)\<lparr>reg_routes := y\<rparr>"
    by (simp add: leases.run_ops_append del: append_Cons append_Nil)
  then show ?case by auto
qed

definition node_insertions :: "call list \<Rightarrow> (string, socket_addr) insertion list" where
  "node_insertions calls = insertions (map lease_op_of calls)"

text \<open>Look-ups see the latest registration while its lease runs.\<close>

lemma reg_get_history:
  assumes "handle_all calls default_registry = Returns r" and "sorted (map handled_at calls @ [now])"
  shows "reg_get (remove_expired_registrations now r) n = live_value now (latest n (node_insertions calls))"
proof -
  obtain x where r: "r = (leases.run_ops (map lease_op_of calls) default_registry)\<lparr>reg_routes := x\<rparr>"
    using handle_all_lease_ops [OF assms(1)] by blast
  have "sorted (map op_time (map lease_op_of calls) @ [now])"
    using assms(2) by (simp add: comp_def)
  from leases.get_history [OF _ this, of default_registry n]
  show ?thesis by (simp add: r node_insertions_def split: option.split)
qed

text \<open>The advertisements of a history; route look-ups only drop expired ones.\<close>

fun advert_calls :: "call list \<Rightarrow> advert_call list" where
  "advert_calls [] = []"
| "advert_calls ((AdvertiseRoute n p lease, source, now) # calls) = (n, p, lease, now) # advert_calls calls"
| "advert_calls ((_, _, _) # calls) = advert_calls calls"

definition same_routes :: "instant \<Rightarrow> route_registry \<Rightarrow> route_registry \<Rightarrow> bool" where
  "same_routes t r s \<longleftrightarrow> remove_expired_routes t r = remove_expired_routes t s"

lemma remove_expired_routes_twice:
  "t \<le> now \<Longrightarrow> remove_expired_routes now (remove_expired_routes t r) = remove_expired_routes now r"
proof -
  assume "t \<le> now"
  then have "filter (\<lambda>x. t < ad_expires_at x \<and> now < ad_expires_at x) ads
      = filter (\<lambda>x. now < ad_expires_at x) ads" for ads :: "advertisement list"
    by (intro filter_cong) auto
  then show ?thesis by (simp add: remove_expired_routes_def)
qed

lemma same_routes_later:
  assumes "same_routes t r s" and "t \<le> now"
  shows "same_routes now r s"
  using assms unfolding same_routes_def by (metis remove_expired_routes_twice)

lemma same_routes_pruned: "same_routes t r s \<Longrightarrow> same_routes t (remove_expired_routes t r) s"
  by (simp add: same_routes_def remove_expired_routes_twice)

lemma advertise_same: "same_routes now r s \<Longrightarrow> advertise n p lease now r = advertise n p lease now s"
  by (simp add: same_routes_def advertise_eq_put)

lemma same_routes_refl [simp]: "same_routes t r r"
  by (simp add: same_routes_def)

lemma handle_all_routes:
  assumes "handle_all calls r = Returns r'" and "sorted (t # map handled_at calls @ [now])"
    and "same_routes t (reg_routes r) s"
  shows "\<exists>s'. advertise_all (advert_calls calls) s = Returns s' \<and> same_routes now (reg_routes r') s'"
  using assms
proof (induction calls arbitrary: r s t)
  case Nil
  then show ?case by (auto intro: same_routes_later)
next
  case (Cons c calls)
  obtain q source u where c: "c = (q, source, u)" by (cases c)
  with Cons.prems(1) obtain r1 reply where first: "handle q source u r = Returns (r1, reply)"
    and rest: "handle_all calls r1 = Returns r'" by auto
  have sorted: "sorted (u # map handled_at calls @ [now])" and "t \<le> u"
    using Cons.prems(2) c by (auto simp: handled_at_def [of "(q, source, u)"])
  then have same: "same_routes u (reg_routes r) s" using Cons.prems(3) by (blast intro: same_routes_later)
  show ?case
  proof (cases q)
    case (AdvertiseRoute n p lease)
    with first obtain x where "advertise n p lease u s = Returns x" "reg_routes r1 = x"
      by (auto simp: handle_AdvertiseRoute advertise_same [OF same])
    with Cons.IH [OF rest sorted, of x] show ?thesis by (simp add: c AdvertiseRoute)
  next
    case (RouteLookup d)
    with first have "reg_routes r1 = remove_expired_routes u (reg_routes r)"
      by (auto simp: handle_RouteLookup lookup_route_def Let_def)
    then have "same_routes u (reg_routes r1) s" using same by (simp add: same_routes_pruned)
    with Cons.IH [OF rest sorted] show ?thesis by (simp add: c RouteLookup)
  next
    case (Register n lease)
    with first have "reg_routes r1 = reg_routes r" by (auto simp: handle_Register)
    with Cons.IH [OF rest sorted] same show ?thesis by (simp add: c Register)
  next
    case (Lookup n)
    with first have "reg_routes r1 = reg_routes r" by (auto simp: handle_Lookup Let_def)
    with Cons.IH [OF rest sorted] same show ?thesis by (simp add: c Lookup)
  qed
qed

lemma call_time_advert: "x \<in> set (advert_calls calls) \<Longrightarrow> call_time x \<in> handled_at ` set calls"
  by (induction calls rule: advert_calls.induct) (auto simp: handled_at_def)

lemma sorted_advert_calls:
  "sorted (map handled_at calls @ [now]) \<Longrightarrow> sorted (map call_time (advert_calls calls) @ [now])"
proof (induction calls rule: advert_calls.induct)
  case (2 n p lease source t calls)
  then show ?case by (auto simp: sorted_append handled_at_def dest!: call_time_advert)
qed (auto simp: handled_at_def)

text \<open>What a history selects for a destination: the longest usable standing advertisement.\<close>

definition best_call :: "call list \<Rightarrow> ipv4_addr \<Rightarrow> instant \<Rightarrow> advert_call option" where
  "best_call calls destination now =
     max_by_key call_length (filter (call_usable destination now) (standing (advert_calls calls)))"

lemma route_lookup_history:
  assumes "handle_all calls default_registry = Returns r" and "sorted (map handled_at calls @ [now])"
  shows "snd (lookup_route destination now (reg_routes r)) =
     map_option (\<lambda>x. ad_route (call_ad x)) (best_call calls destination now)"
proof -
  have sorted: "sorted (0 # map handled_at calls @ [now])" using assms(2) by simp
  have "same_routes 0 (reg_routes default_registry) empty_routes" by (simp add: default_registry_def)
  from handle_all_routes [OF assms(1) sorted this] obtain s where
    s: "advertise_all (advert_calls calls) empty_routes = Returns s" and same: "same_routes now (reg_routes r) s"
    by blast
  have "snd (lookup_route destination now (reg_routes r)) = snd (lookup_route destination now s)"
    using same by (simp add: same_routes_def lookup_route_def Let_def)
  with lookup_history [OF s sorted_advert_calls [OF assms(2)]] show ?thesis by (simp add: best_call_def)
qed

section \<open>Requests the parser lets through never panic\<close>

definition clock_in_range :: "instant \<Rightarrow> bool" where
  "clock_in_range now \<longleftrightarrow> now + from_secs MAX_LEASE_SECONDS < instant_end"

lemma lease_ok_in_range: "lease_ok lease \<Longrightarrow> clock_in_range now \<Longrightarrow> now + lease < instant_end"
proof -
  assume "lease_ok lease" "clock_in_range now"
  then obtain n where "n \<le> MAX_LEASE_SECONDS" "lease = from_secs n" by (auto simp: lease_ok_def)
  then have "lease \<le> from_secs MAX_LEASE_SECONDS" by (simp add: from_secs_def)
  then show ?thesis using \<open>clock_in_range now\<close> by (simp add: clock_in_range_def)
qed

lemma handle_returns:
  assumes "request_ok q" and "clock_in_range now"
  shows "\<exists>r' reply. handle q source now r = Returns (r', reply)"
  using assms
  by (cases q) (auto simp: handle_cases Let_def advertise_eq_put lease_ok_in_range checked_add_instant_ok)

lemma handle_all_returns:
  "\<forall>c \<in> set calls. request_ok (fst c) \<and> clock_in_range (handled_at c) \<Longrightarrow>
     \<exists>r'. handle_all calls r = Returns r'"
proof (induction calls arbitrary: r)
  case (Cons c calls)
  obtain q source now where c: "c = (q, source, now)" by (cases c)
  obtain r1 reply where "handle q source now r = Returns (r1, reply)"
    using handle_returns [of q now source r] Cons.prems c by (auto simp: handled_at_def)
  with Cons c show ?case by simp
qed simp

section \<open>Properties\<close>

text \<open>A history for the examples: one registration and two overlapping routes.\<close>

definition sample_prefix8 :: ipv4_prefix where
  "sample_prefix8 = \<lparr>pfx_network = Ipv4 10 0 0 0, pfx_length = 8\<rparr>"
definition sample_prefix24 :: ipv4_prefix where
  "sample_prefix24 = \<lparr>pfx_network = Ipv4 10 30 0 0, pfx_length = 24\<rparr>"

definition sample_calls :: "call list" where
  "sample_calls =
     [(Register ''mesh-b'' (from_secs 30), SocketV4 (Ipv4 10 0 0 2) 4000, 0),
      (AdvertiseRoute ''mesh-b'' sample_prefix24 (from_secs 30), SocketV4 (Ipv4 10 0 0 2) 4000, 1),
      (AdvertiseRoute ''mesh-c'' sample_prefix8 (from_secs 60), SocketV4 (Ipv4 10 0 0 3) 4000, 2)]"

lemma sample_calls_run: "\<exists>r. handle_all sample_calls default_registry = Returns r"
  by (simp add: sample_calls_def handle_Register handle_AdvertiseRoute advertise_eq_put checked_add_instant_def)
    (simp add: from_secs_def instant_end_def nanos_per_sec_def)

lemma sample_calls_sorted: "2 \<le> now \<Longrightarrow> sorted (map handled_at sample_calls @ [now])"
  by (simp add: sample_calls_def handled_at_def)

text \<open>
  C25.  After any chronological history of requests, a look-up answers with the endpoint observed
  at the node's latest registration while that lease runs, and with \<open>NOT_FOUND\<close> otherwise.
\<close>

theorem lookup_finds_latest_registration:
  assumes "handle_all calls default_registry = Returns r"
    and "sorted (map handled_at calls @ [now])"
  shows "handle (Lookup n) source now r = Returns (remove_expired_registrations now r,
     case live_value now (latest n (node_insertions calls)) of
       None \<Rightarrow> NotFound n | Some (e, _) \<Rightarrow> Found n e)"
  by (simp add: handle_Lookup Let_def reg_get_history [OF assms])

theorem lookup_finds_latest_registration_witness:
  "\<exists>r r1 r2. handle_all sample_calls default_registry = Returns r
     \<and> handle (Lookup ''mesh-b'') (SocketV4 (Ipv4 10 0 0 9) 1) 2 r
        = Returns (r1, Found ''mesh-b'' (SocketV4 (Ipv4 10 0 0 2) 4000))
     \<and> handle (Lookup ''mesh-b'') (SocketV4 (Ipv4 10 0 0 9) 1) (from_secs 30) r = Returns (r2, NotFound ''mesh-b'')"
proof -
  obtain r where r: "handle_all sample_calls default_registry = Returns r" using sample_calls_run by blast
  have late: "sorted (map handled_at sample_calls @ [from_secs 30])"
    by (rule sample_calls_sorted) (simp add: from_secs_def nanos_per_sec_def)
  have soon: "2 < from_secs 30" by (simp add: from_secs_def nanos_per_sec_def)
  note look = lookup_finds_latest_registration [OF r sample_calls_sorted [OF order_refl], of "''mesh-b''"]
    lookup_finds_latest_registration [OF r late, of "''mesh-b''"]
  show ?thesis unfolding r using soon
    by (simp add: look node_insertions_def sample_calls_def)
qed

text \<open>
  C26.  After any chronological history, a route look-up answers with an advertisement that no
  later one for the same node and prefix replaced, that has not expired and whose prefix
  contains the destination; no usable advertisement has a longer prefix, and among equally long
  ones the most recent wins.  It answers \<open>ROUTE_NOT_FOUND\<close> exactly when nothing is usable.
\<close>

theorem route_lookup_selects_longest:
  assumes "handle_all calls default_registry = Returns r"
    and "sorted (map handled_at calls @ [now])"
  shows "\<exists>r' reply. handle (RouteLookup d) source now r = Returns (r', reply) \<and>
     ((reply = RouteNotFound d \<and> filter (call_usable d now) (standing (advert_calls calls)) = [])
      \<or> (\<exists>ys n p lease t zs. standing (advert_calls calls) = ys @ (n, p, lease, t) # zs
          \<and> reply = RouteFound d p n \<and> now < t + lease \<and> prefix_contains p d
          \<and> (\<forall>y \<in> set (filter (call_usable d now) ys). call_length y \<le> pfx_length p)
          \<and> (\<forall>z \<in> set (filter (call_usable d now) zs). call_length z < pfx_length p)))"
proof -
  have route: "snd (lookup_route d now (reg_routes r)) = map_option (\<lambda>x. ad_route (call_ad x)) (best_call calls d now)"
    by (rule route_lookup_history [OF assms])
  show ?thesis
  proof (cases "best_call calls d now")
    case None
    then have "filter (call_usable d now) (standing (advert_calls calls)) = []" by (simp add: best_call_def)
    then show ?thesis using route None by (simp add: handle_RouteLookup)
  next
    case (Some x)
    obtain n p lease t where x: "x = (n, p, lease, t)" by (cases x)
    from max_by_key_filter_split [OF Some [unfolded best_call_def]] obtain ys zs where
      split: "standing (advert_calls calls) = ys @ (n, p, lease, t) # zs"
      and "call_usable d now (n, p, lease, t)"
      and "\<forall>y \<in> set ys. call_usable d now y \<longrightarrow> call_length y \<le> pfx_length p"
      and "\<forall>z \<in> set zs. call_usable d now z \<longrightarrow> call_length z < pfx_length p"
      unfolding x by auto
    then have spec: "now < t + lease" "prefix_contains p d"
      "\<forall>y \<in> set (filter (call_usable d now) ys). call_length y \<le> pfx_length p"
      "\<forall>z \<in> set (filter (call_usable d now) zs). call_length z < pfx_length p" by auto
    have reply: "\<exists>r'. handle (RouteLookup d) source now r = Returns (r', RouteFound d p n)"
      using route Some by (simp add: handle_RouteLookup x)
    show ?thesis using split spec reply by blast
  qed
qed

theorem route_lookup_selects_longest_witness:
  "\<exists>r r'. handle_all sample_calls default_registry = Returns r
     \<and> handle (RouteLookup (Ipv4 10 30 0 2)) (SocketV4 (Ipv4 10 0 0 9) 1) 2 r
        = Returns (r', RouteFound (Ipv4 10 30 0 2) sample_prefix24 ''mesh-b'')"
proof -
  obtain r where r: "handle_all sample_calls default_registry = Returns r" using sample_calls_run by blast
  define b c :: advert_call where
    "b = (''mesh-b'', sample_prefix24, from_secs 30, 1)" and "c = (''mesh-c'', sample_prefix8, from_secs 60, 2)"
  have standing: "standing (advert_calls sample_calls) = [b, c]"
    by (simp add: sample_calls_def b_def c_def)
  have in24: "prefix_contains sample_prefix24 (Ipv4 10 30 0 2)"
    and in8: "prefix_contains sample_prefix8 (Ipv4 10 30 0 2)"
    by (simp_all add: prefix_contains_def sample_prefix24_def sample_prefix8_def prefix_mask_def)
  have live: "2 < 1 + from_secs 30" "2 < 2 + from_secs 60" by (simp_all add: from_secs_def nanos_per_sec_def)
  have usable: "call_usable (Ipv4 10 30 0 2) 2 b" "call_usable (Ipv4 10 30 0 2) 2 c"
    using in24 in8 live by (simp_all add: b_def c_def)
  from route_lookup_selects_longest [OF r sample_calls_sorted [OF order_refl], of "Ipv4 10 30 0 2"
      "SocketV4 (Ipv4 10 0 0 9) 1"]
  obtain r' reply where reply: "handle (RouteLookup (Ipv4 10 30 0 2)) (SocketV4 (Ipv4 10 0 0 9) 1) 2 r = Returns (r', reply)"
    and spec: "(reply = RouteNotFound (Ipv4 10 30 0 2) \<and> filter (call_usable (Ipv4 10 30 0 2) 2) [b, c] = [])
      \<or> (\<exists>ys n p lease t zs. [b, c] = ys @ (n, p, lease, t) # zs
          \<and> reply = RouteFound (Ipv4 10 30 0 2) p n \<and> 2 < t + lease \<and> prefix_contains p (Ipv4 10 30 0 2)
          \<and> (\<forall>y \<in> set (filter (call_usable (Ipv4 10 30 0 2) 2) ys). call_length y \<le> pfx_length p)
          \<and> (\<forall>z \<in> set (filter (call_usable (Ipv4 10 30 0 2) 2) zs). call_length z < pfx_length p))"
    unfolding standing by blast
  have "reply = RouteFound (Ipv4 10 30 0 2) sample_prefix24 ''mesh-b''"
    using spec usable
    by (auto simp: Cons_eq_append_conv append_eq_Cons_conv b_def c_def sample_prefix24_def sample_prefix8_def)
  with r reply show ?thesis by blast
qed

end
