(* ===== verification/Auth_Coordinator.thy ===== *)
theory Auth_Coordinator
  imports Registry
begin

text \<open>
  \<open>AuthenticatedCoordinator\<close> of \<open>src/coordinator.rs\<close>: one-use challenges bound to a node
  and a source endpoint, and registrations accepted only with a signature over the challenge.
  The pending challenges are a consumable store and the registrations a lease store, both over
  the whole coordinator state.  Reachable states carry the trace of calls and replies that led
  to them; the safety lemmas relate what is stored to that trace, the history lemmas compute
  every reply from the calls.
\<close>

record pending_challenge =
  pc_value :: bytes
  pc_expires_at :: instant

record 'vk coordinator =
  co_registry :: registry
  co_authorizations :: "'vk authorizations"
  co_challenges :: "(string \<times> socket_addr, pending_challenge) fmap"

definition new_coordinator :: "'vk authorizations \<Rightarrow> 'vk coordinator" where
  "new_coordinator authorizations =
     \<lparr>co_registry = default_registry, co_authorizations = authorizations, co_challenges = fmempty\<rparr>"

definition remove_expired_coordinator :: "instant \<Rightarrow> 'vk coordinator \<Rightarrow> 'vk coordinator" where
  "remove_expired_coordinator now co =
     co\<lparr>co_registry := remove_expired_registrations now (co_registry co),
        co_challenges := retain (\<lambda>_ challenge. now < pc_expires_at challenge) (co_challenges co)\<rparr>"

definition challenge_expect :: string where
  "challenge_expect = ''challenge expiration is outside Instant'' @ CHR 0x27 # ''s range''"

definition issue_challenge ::
  "string \<Rightarrow> socket_addr \<Rightarrow> instant \<Rightarrow> bytes \<Rightarrow> 'vk coordinator \<Rightarrow> ('vk coordinator \<times> auth_response) outcome" where
  "issue_challenge node_id source now challenge co =
     (let co = remove_expired_coordinator now co in
      if auth_get (co_authorizations co) node_id = None
      then Returns (co, AuthError ''node ID is not authorized'')
      else
        out_bind (expect challenge_expect (checked_add_instant now CHALLENGE_LIFETIME)) (\<lambda>expires.
        Returns (co\<lparr>co_challenges := fmupd (node_id, source)
                      \<lparr>pc_value = challenge, pc_expires_at = expires\<rparr> (co_challenges co)\<rparr>,
                 AuthChallengeIssued node_id challenge)))"

definition register_node ::
  "('vk, 'sig) ed25519 \<Rightarrow> string \<Rightarrow> duration \<Rightarrow> bytes \<Rightarrow> 'sig \<Rightarrow> socket_addr \<Rightarrow> instant \<Rightarrow>
     'vk coordinator \<Rightarrow> ('vk coordinator \<times> auth_response) outcome" where
  "register_node E node_id lease challenge signature source now co =
     (let co = remove_expired_coordinator now co in
      case fmlookup (co_challenges co) (node_id, source) of
        None \<Rightarrow> Returns (co, AuthError ''no unexpired challenge exists for this node and source endpoint'')
      | Some pending \<Rightarrow>
          let co = co\<lparr>co_challenges := fmdrop (node_id, source) (co_challenges co)\<rparr> in
          if pc_value pending \<noteq> challenge
          then Returns (co, AuthError ''challenge does not match the issued value'')
          else case auth_get (co_authorizations co) node_id of
            None \<Rightarrow> Returns (co, AuthError ''node ID is not authorized'')
          | Some verifying_key \<Rightarrow>
              if \<not> ed_verify_strict E verifying_key
                    (registration_signing_message node_id lease challenge) signature
              then Returns (co, AuthError ''signature verification failed'')
              else
                out_bind (expect registration_expect (checked_add_instant now lease)) (\<lambda>expires.
                let r = co_registry co in
                Returns (co\<lparr>co_registry := r\<lparr>registrations := fmupd node_id
                              \<lparr>observed_endpoint = source, expires_at = expires\<rparr> (registrations r)\<rparr>\<rparr>,
                         AuthRegistered node_id source lease)))"

definition lookup_node ::
  "string \<Rightarrow> instant \<Rightarrow> 'vk coordinator \<Rightarrow> 'vk coordinator \<times> auth_response" where
  "lookup_node node_id now co =
     (let co = remove_expired_coordinator now co in
      case fmlookup (registrations (co_registry co)) node_id of
        Some registration \<Rightarrow> (co, AuthFound node_id (observed_endpoint registration))
      | None \<Rightarrow> (co, AuthNotFound node_id))"

section \<open>The two tables as stores\<close>

definition ch_get :: "'vk coordinator \<Rightarrow> string \<times> socket_addr \<Rightarrow> (bytes \<times> instant) option" where
  "ch_get co k = map_option (\<lambda>p. (pc_value p, pc_expires_at p)) (fmlookup (co_challenges co) k)"

definition ch_put :: "string \<times> socket_addr \<Rightarrow> bytes \<Rightarrow> instant \<Rightarrow> 'vk coordinator \<Rightarrow> 'vk coordinator" where
  "ch_put k c e co = co\<lparr>co_challenges := fmupd k \<lparr>pc_value = c, pc_expires_at = e\<rparr> (co_challenges co)\<rparr>"

definition ch_remove :: "string \<times> socket_addr \<Rightarrow> 'vk coordinator \<Rightarrow> 'vk coordinator" where
  "ch_remove k co = co\<lparr>co_challenges := fmdrop k (co_challenges co)\<rparr>"

definition member_get :: "'vk coordinator \<Rightarrow> string \<Rightarrow> (socket_addr \<times> instant) option" where
  "member_get co n = reg_get (co_registry co) n"

definition member_put :: "string \<Rightarrow> socket_addr \<Rightarrow> instant \<Rightarrow> 'vk coordinator \<Rightarrow> 'vk coordinator" where
  "member_put n endpoint e co = co\<lparr>co_registry := reg_put n endpoint e (co_registry co)\<rparr>"

interpretation pending: consumable_store ch_get ch_put remove_expired_coordinator "\<lambda>_. True" ch_remove
  by unfold_locales
    (auto simp: ch_get_def ch_put_def ch_remove_def remove_expired_coordinator_def split: option.split)

interpretation members: lease_store member_get member_put remove_expired_coordinator "\<lambda>_. True"
  by unfold_locales
    (auto simp: member_get_def member_put_def remove_expired_coordinator_def leases.get_put
      leases.get_prune split: option.split)

lemma member_get_challenges [simp]:
  "member_get (ch_put k c e co) n = member_get co n" "member_get (ch_remove k co) n = member_get co n"
  by (simp_all add: member_get_def ch_put_def ch_remove_def)

lemma ch_get_members [simp]: "ch_get (member_put n e u co) k = ch_get co k"
  by (simp add: ch_get_def member_put_def)

lemma authorizations_kept [simp]:
  "co_authorizations (ch_put k c e co) = co_authorizations co"
  "co_authorizations (ch_remove k co) = co_authorizations co"
  "co_authorizations (member_put n a u co) = co_authorizations co"
  "co_authorizations (remove_expired_coordinator now co) = co_authorizations co"
  by (simp_all add: ch_put_def ch_remove_def member_put_def remove_expired_coordinator_def)

lemma new_coordinator_simps [simp]:
  "co_authorizations (new_coordinator A) = A" "ch_get (new_coordinator A) k = None"
  "member_get (new_coordinator A) n = None"
  by (simp_all add: new_coordinator_def ch_get_def member_get_def)

section \<open>The operations over the stores\<close>

lemma issue_challenge_eq:
  "issue_challenge n source now c co =
     (let co = remove_expired_coordinator now co in
      if auth_get (co_authorizations co) n = None then Returns (co, AuthError ''node ID is not authorized'')
      else out_bind (expect challenge_expect (checked_add_instant now CHALLENGE_LIFETIME))
        (\<lambda>e. Returns (ch_put (n, source) c e co, AuthChallengeIssued n c)))"
  by (simp add: issue_challenge_def ch_put_def Let_def)

text \<open>What \<open>register\<close> decides once the pending entry is taken out.\<close>

definition accepts ::
  "('vk, 'sig) ed25519 \<Rightarrow> 'vk authorizations \<Rightarrow> string \<Rightarrow> duration \<Rightarrow> bytes \<Rightarrow> 'sig \<Rightarrow> bool" where
  "accepts E A n lease c sg \<longleftrightarrow> (\<exists>vk. auth_get A n = Some vk
     \<and> ed_verify_strict E vk (registration_signing_message n lease c) sg)"

lemma register_node_eq:
  "register_node E n lease c sg source now co =
     (let co = remove_expired_coordinator now co in
      case ch_get co (n, source) of
        None \<Rightarrow> Returns (co, AuthError ''no unexpired challenge exists for this node and source endpoint'')
      | Some (value, _) \<Rightarrow>
          let co = ch_remove (n, source) co in
          if value \<noteq> c then Returns (co, AuthError ''challenge does not match the issued value'')
          else if auth_get (co_authorizations co) n = None
          then Returns (co, AuthError ''node ID is not authorized'')
          else if \<not> accepts E (co_authorizations co) n lease c sg
          then Returns (co, AuthError ''signature verification failed'')
          else out_bind (expect registration_expect (checked_add_instant now lease))
            (\<lambda>e. Returns (member_put n source e co, AuthRegistered n source lease)))"
  by (simp add: register_node_def ch_get_def ch_remove_def member_put_def reg_put_def accepts_def Let_def
      split: option.split)

lemma lookup_node_eq:
  "lookup_node n now co =
     (let co = remove_expired_coordinator now co in
      (co, case member_get co n of None \<Rightarrow> AuthNotFound n | Some (e, _) \<Rightarrow> AuthFound n e))"
  by (simp add: lookup_node_def member_get_def reg_get_def Let_def split: option.split)

section \<open>Calls, replies and reachable states\<close>

datatype 'sig co_call =
    Issue string socket_addr instant bytes
  | Enrol string duration bytes 'sig socket_addr instant
  | Seek string instant

fun co_do :: "('vk, 'sig) ed25519 \<Rightarrow> 'sig co_call \<Rightarrow> 'vk coordinator \<Rightarrow> ('vk coordinator \<times> auth_response) outcome" where
  "co_do E (Issue n source now c) co = issue_challenge n source now c co"
| "co_do E (Enrol n lease c sg source now) co = register_node E n lease c sg source now co"
| "co_do E (Seek n now) co = Returns (lookup_node n now co)"

fun co_time :: "'sig co_call \<Rightarrow> instant" where
  "co_time (Issue n source now c) = now"
| "co_time (Enrol n lease c sg source now) = now"
| "co_time (Seek n now) = now"

type_synonym 'sig co_event = "'sig co_call \<times> auth_response"

inductive co_reach ::
  "('vk, 'sig) ed25519 \<Rightarrow> 'vk authorizations \<Rightarrow> 'sig co_event list \<Rightarrow> 'vk coordinator \<Rightarrow> bool"
  for E :: "('vk, 'sig) ed25519" and A :: "'vk authorizations" where
  start: "co_reach E A [] (new_coordinator A)"
| step: "co_reach E A tr co \<Longrightarrow> co_do E call co = Returns (co', reply) \<Longrightarrow>
    co_reach E A (tr @ [(call, reply)]) co'"

inductive_cases co_reach_NilE: "co_reach E A [] co"
inductive_cases co_reach_snocE: "co_reach E A (tr @ [ev]) co"

text \<open>The events that create or consume the challenge of a node at an endpoint.\<close>

fun touches :: "string \<Rightarrow> socket_addr \<Rightarrow> 'sig co_event \<Rightarrow> bool" where
  "touches n e (Issue m source now c, AuthChallengeIssued _ _) \<longleftrightarrow> m = n \<and> source = e"
| "touches n e (Enrol m lease c sg source now, _) \<longleftrightarrow> m = n \<and> source = e"
| "touches n e _ \<longleftrightarrow> False"

fun enrols :: "string \<Rightarrow> 'sig co_event \<Rightarrow> bool" where
  "enrols n (Enrol m lease c sg source now, AuthRegistered _ _ _) \<longleftrightarrow> m = n"
| "enrols n _ \<longleftrightarrow> False"

definition issued_in :: "'sig co_event list \<Rightarrow> string \<Rightarrow> socket_addr \<Rightarrow> bytes \<Rightarrow> instant \<Rightarrow> bool" where
  "issued_in tr n e c until \<longleftrightarrow> (\<exists>us t vs. tr = us @ (Issue n e t c, AuthChallengeIssued n c) # vs
     \<and> until = t + CHALLENGE_LIFETIME \<and> (\<forall>ev \<in> set vs. \<not> touches n e ev))"

definition enrolled_in :: "'sig co_event list \<Rightarrow> string \<Rightarrow> socket_addr \<Rightarrow> instant \<Rightarrow> bool" where
  "enrolled_in tr n e until \<longleftrightarrow> (\<exists>us lease c sg t vs.
     tr = us @ (Enrol n lease c sg e t, AuthRegistered n e lease) # vs
     \<and> until = t + lease \<and> (\<forall>ev \<in> set vs. \<not> enrols n ev))"

definition co_inv :: "'vk authorizations \<Rightarrow> 'sig co_event list \<Rightarrow> 'vk coordinator \<Rightarrow> bool" where
  "co_inv A tr co \<longleftrightarrow> co_authorizations co = A
     \<and> (\<forall>n e c until. ch_get co (n, e) = Some (c, until) \<longrightarrow> issued_in tr n e c until)
     \<and> (\<forall>n e until. member_get co n = Some (e, until) \<longrightarrow> enrolled_in tr n e until)"

lemma issued_in_snoc: "issued_in tr n e c u \<Longrightarrow> \<not> touches n e ev \<Longrightarrow> issued_in (tr @ [ev]) n e c u"
  unfolding issued_in_def
proof (elim exE conjE)
  fix us t vs assume "tr = us @ (Issue n e t c, AuthChallengeIssued n c) # vs"
    "u = t + CHALLENGE_LIFETIME" "\<forall>ev \<in> set vs. \<not> touches n e ev" "\<not> touches n e ev"
  then show "\<exists>us t vs. tr @ [ev] = us @ (Issue n e t c, AuthChallengeIssued n c) # vs
      \<and> u = t + CHALLENGE_LIFETIME \<and> (\<forall>ev \<in> set vs. \<not> touches n e ev)"
    by (intro exI [of _ us] exI [of _ t] exI [of _ "vs @ [ev]"]) auto
qed

lemma enrolled_in_snoc: "enrolled_in tr n e u \<Longrightarrow> \<not> enrols n ev \<Longrightarrow> enrolled_in (tr @ [ev]) n e u"
  unfolding enrolled_in_def
proof (elim exE conjE)
  fix us lease c sg t vs assume "tr = us @ (Enrol n lease c sg e t, AuthRegistered n e lease) # vs"
    "u = t + lease" "\<forall>ev \<in> set vs. \<not> enrols n ev" "\<not> enrols n ev"
  then show "\<exists>us lease c sg t vs. tr @ [ev] = us @ (Enrol n lease c sg e t, AuthRegistered n e lease) # vs
      \<and> u = t + lease \<and> (\<forall>ev \<in> set vs. \<not> enrols n ev)"
    by (intro exI [of _ us] exI [of _ lease] exI [of _ c] exI [of _ sg] exI [of _ t] exI [of _ "vs @ [ev]"]) auto
qed

lemma issued_now:
  "issued_in (tr @ [(Issue n e t c, AuthChallengeIssued n c)]) n e c (t + CHALLENGE_LIFETIME)"
  unfolding issued_in_def by (intro exI [of _ tr] exI [of _ t] exI [of _ "[]"]) simp

lemma enrolled_now: "enrolled_in (tr @ [(Enrol n lease c sg e t, AuthRegistered n e lease)]) n e (t + lease)"
  unfolding enrolled_in_def
  by (intro exI [of _ tr] exI [of _ lease] exI [of _ c] exI [of _ sg] exI [of _ t] exI [of _ "[]"]) simp

lemma pruned_sub:
  "ch_get (remove_expired_coordinator now co) k = Some x \<Longrightarrow> ch_get co k = Some x"
  "member_get (remove_expired_coordinator now co) n = Some y \<Longrightarrow> member_get co n = Some y"
  by (auto simp: pending.get_prune members.get_prune split: option.splits if_splits)

text \<open>The four ways a call can end, on the stores.\<close>

lemma co_do_cases:
  assumes "co_do E call co = Returns (co', reply)"
  obtains (swept) "co' = remove_expired_coordinator (co_time call) co"
      "\<And>n e. ch_get co' (n, e) \<noteq> None \<Longrightarrow> \<not> touches n e (call, reply)" "\<And>n. \<not> enrols n (call, reply)"
  | (issued) n source now c where "call = Issue n source now c" "reply = AuthChallengeIssued n c"
      "co' = ch_put (n, source) c (now + CHALLENGE_LIFETIME) (remove_expired_coordinator now co)"
      "auth_get (co_authorizations co) n \<noteq> None"
  | (rejected) n lease c sg source now where "call = Enrol n lease c sg source now"
      "co' = ch_remove (n, source) (remove_expired_coordinator now co)" "\<And>m. \<not> enrols m (call, reply)"
  | (enrolled) n lease c sg source now until where "call = Enrol n lease c sg source now"
      "reply = AuthRegistered n source lease"
      "co' = member_put n source (now + lease) (ch_remove (n, source) (remove_expired_coordinator now co))"
      "ch_get (remove_expired_coordinator now co) (n, source) = Some (c, until)"
      "accepts E (co_authorizations co) n lease c sg"
proof (cases call)
  case (Issue n source now c)
  with assms that(1,2) show thesis
    by (auto simp: issue_challenge_eq Let_def split: if_splits)
next
  case (Enrol n lease c sg source now)
  let ?co = "remove_expired_coordinator now co"
  show thesis
  proof (cases "ch_get ?co (n, source)")
    case None
    with assms Enrol have co': "co' = ?co" "\<And>m. \<not> enrols m (call, reply)"
      by (auto simp: register_node_eq Let_def)
    have "\<not> touches m e (call, reply)" if "ch_get co' (m, e) \<noteq> None" for m e
      using that None Enrol co'(1) by auto
    with co' that(1) Enrol show thesis by simp
  next
    case (Some p)
    obtain d until where p: "p = (d, until)" by (cases p)
    show thesis
    proof (cases "d = c \<and> accepts E (co_authorizations co) n lease c sg")
      case True
      then have "auth_get (co_authorizations co) n \<noteq> None" by (auto simp: accepts_def)
      with True assms Enrol Some p that(4) show thesis by (auto simp: register_node_eq Let_def)
    next
      case False
      with assms Enrol Some p that(3) show thesis
        by (auto simp: register_node_eq Let_def split: if_splits)
    qed
  qed
next
  case (Seek n now)
  with assms that(1) show thesis by (auto simp: lookup_node_eq Let_def split: option.splits)
qed

lemma co_inv_step:
  assumes inv: "co_inv A tr co" and exec: "co_do E call co = Returns (co', reply)"
  shows "co_inv A (tr @ [(call, reply)]) co'"
  using exec
proof (cases rule: co_do_cases)
  case swept
  with inv show ?thesis unfolding co_inv_def
    by (auto intro!: issued_in_snoc enrolled_in_snoc dest: pruned_sub)
next
  case (issued n source now c)
  with inv show ?thesis unfolding co_inv_def
    by (auto simp: pending.get_put intro!: issued_in_snoc enrolled_in_snoc issued_now
        dest: pruned_sub split: if_splits)
next
  case (rejected n lease c sg source now)
  with inv show ?thesis unfolding co_inv_def
    by (auto simp: pending.get_remove intro!: issued_in_snoc enrolled_in_snoc dest: pruned_sub
        split: if_splits)
next
  case (enrolled n lease c sg source now until)
  with inv show ?thesis unfolding co_inv_def
    by (auto simp: pending.get_remove members.get_put intro!: issued_in_snoc enrolled_in_snoc enrolled_now
        dest: pruned_sub split: if_splits)
qed

lemma co_reach_inv: "co_reach E A tr co \<Longrightarrow> co_inv A tr co"
proof (induction rule: co_reach.induct)
  case start
  show ?case by (simp add: co_inv_def)
next
  case (step tr co call co' reply)
  show ?case by (rule co_inv_step [OF step.IH step.hyps(2)])
qed

lemma co_reach_split:
  "co_reach E A (xs @ (call, reply) # ys) co \<Longrightarrow>
     \<exists>co1 co2. co_reach E A xs co1 \<and> co_do E call co1 = Returns (co2, reply)"
proof (induction ys arbitrary: co rule: rev_induct)
  case Nil
  then show ?case by (auto elim!: co_reach_snocE)
next
  case (snoc ev ys)
  from snoc.prems have "co_reach E A ((xs @ (call, reply) # ys) @ [ev]) co" by simp
  then obtain co1 where "co_reach E A (xs @ (call, reply) # ys) co1" by (rule co_reach_snocE) auto
  then show ?case by (rule snoc.IH)
qed

text \<open>Every accepted registration used a fresh challenge once, with a good signature.\<close>

lemma enrolment_authentic:
  assumes "co_reach E A (xs @ (Enrol n lease c sg e t, AuthRegistered m e' k) # ys) co"
  shows "m = n \<and> e' = e \<and> k = lease \<and> accepts E A n lease c sg
     \<and> (\<exists>until. t < until \<and> issued_in xs n e c until)"
proof -
  from co_reach_split [OF assms] obtain co1 co2 where reach: "co_reach E A xs co1"
    and exec: "co_do E (Enrol n lease c sg e t) co1 = Returns (co2, AuthRegistered m e' k)" by blast
  have inv: "co_inv A xs co1" by (rule co_reach_inv [OF reach])
  from exec show ?thesis
  proof (cases rule: co_do_cases)
    case (enrolled n' lease' c' sg' source now until)
    then have "ch_get (remove_expired_coordinator t co1) (n, e) = Some (c, until)" by simp
    then have "t < until" "ch_get co1 (n, e) = Some (c, until)"
      using pending.get_pruned_live pruned_sub(1) by blast+
    with enrolled inv show ?thesis by (auto simp: co_inv_def)
  qed auto
qed

section \<open>Histories of calls\<close>

fun co_run ::
  "('vk, 'sig) ed25519 \<Rightarrow> 'sig co_call list \<Rightarrow> 'vk coordinator \<Rightarrow> ('vk coordinator \<times> 'sig co_event list) outcome" where
  "co_run E [] co = Returns (co, [])"
| "co_run E (call # calls) co =
     out_bind (co_do E call co) (\<lambda>(co, reply).
     out_bind (co_run E calls co) (\<lambda>(co, events). Returns (co, (call, reply) # events)))"

text \<open>The challenge a list of calls leaves for a node at an endpoint, with its deadline.\<close>

fun outstanding_step ::
  "'vk authorizations \<Rightarrow> string \<Rightarrow> socket_addr \<Rightarrow> (bytes \<times> instant) option \<Rightarrow> 'sig co_call \<Rightarrow>
     (bytes \<times> instant) option" where
  "outstanding_step A n e cur (Issue m source now c) =
     (if m = n \<and> source = e \<and> auth_get A n \<noteq> None then Some (c, now + CHALLENGE_LIFETIME) else cur)"
| "outstanding_step A n e cur (Enrol m lease c sg source now) = (if m = n \<and> source = e then None else cur)"
| "outstanding_step A n e cur (Seek m now) = cur"

definition outstanding ::
  "'vk authorizations \<Rightarrow> string \<Rightarrow> socket_addr \<Rightarrow> 'sig co_call list \<Rightarrow> (bytes \<times> instant) option" where
  "outstanding A n e calls = foldl (outstanding_step A n e) None calls"

definition while_live :: "instant \<Rightarrow> ('a \<times> instant) option \<Rightarrow> ('a \<times> instant) option" where
  "while_live now x = (case x of None \<Rightarrow> None | Some (v, u) \<Rightarrow> if now < u then Some (v, u) else None)"

lemma while_live_simps [simp]:
  "while_live now None = None" "while_live now (Some (v, u)) = (if now < u then Some (v, u) else None)"
  by (simp_all add: while_live_def)

lemma while_live_Some: "while_live now x = Some (v, u) \<longleftrightarrow> x = Some (v, u) \<and> now < u"
  by (auto simp: while_live_def split: option.splits if_splits)

lemma ch_get_pruned: "ch_get (remove_expired_coordinator now co) k = while_live now (ch_get co k)"
  by (auto simp: pending.get_prune while_live_def split: option.split)

lemma while_live_later: "t \<le> now \<Longrightarrow> while_live now (while_live t x) = while_live now x"
  by (auto simp: while_live_def split: option.split prod.split)

lemma outstanding_step_exec:
  assumes "co_do E call co = Returns (co', reply)" and "co_authorizations co = A"
    and "while_live (co_time call) (ch_get co (n, e)) = while_live (co_time call) cur"
  shows "while_live (co_time call) (ch_get co' (n, e))
    = while_live (co_time call) (outstanding_step A n e cur call)"
  using assms
proof (cases call)
  case (Issue m source now c)
  with assms show ?thesis
    by (auto simp: issue_challenge_eq Let_def pending.get_put ch_get_pruned while_live_later split: if_splits)
next
  case (Enrol m lease c sg source now)
  then have tail: "while_live now (ch_get (remove_expired_coordinator now co) (n, e)) = while_live now cur"
    using assms(3) by (simp add: ch_get_pruned while_live_later)
  from assms(1) show ?thesis
  proof (cases rule: co_do_cases)
    case swept
    then have "\<not> (m = n \<and> source = e)" if "ch_get co' (n, e) \<noteq> None" using that Enrol by auto
    with swept(1) tail show ?thesis by (cases "ch_get co' (n, e)") (auto simp: Enrol)
  qed (use Enrol tail in \<open>auto simp: pending.get_remove\<close>)
next
  case (Seek m now)
  with assms show ?thesis by (auto simp: lookup_node_eq Let_def ch_get_pruned while_live_later)
qed

lemma co_do_authorizations: "co_do E call co = Returns (co', reply) \<Longrightarrow> co_authorizations co' = co_authorizations co"
  by (erule co_do_cases) auto

lemma co_run_outstanding:
  assumes "co_run E calls co = Returns (co', events)" and "co_authorizations co = A"
    and "sorted (t # map co_time calls @ [now])"
    and "while_live t (ch_get co (n, e)) = while_live t cur"
  shows "while_live now (ch_get co' (n, e)) = while_live now (foldl (outstanding_step A n e) cur calls)"
  using assms
proof (induction calls arbitrary: co cur t events)
  case Nil
  then show ?case using while_live_later [of t now "ch_get co' (n, e)"] while_live_later [of t now cur] by auto
next
  case (Cons call calls)
  then obtain co1 reply events1 where first: "co_do E call co = Returns (co1, reply)"
    and rest: "co_run E calls co1 = Returns (co', events1)" by auto
  have "t \<le> co_time call" using Cons.prems(3) by simp
  then have "while_live (co_time call) (ch_get co (n, e)) = while_live (co_time call) cur"
    using Cons.prems(4) while_live_later by metis
  from outstanding_step_exec [OF first Cons.prems(2) this]
  have "while_live (co_time call) (ch_get co1 (n, e))
      = while_live (co_time call) (outstanding_step A n e cur call)" .
  moreover have "co_authorizations co1 = A" using co_do_authorizations [OF first] Cons.prems(2) by simp
  moreover have "sorted (co_time call # map co_time calls @ [now])" using Cons.prems(3) by simp
  ultimately show ?case
    using Cons.IH [OF rest, of "co_time call" "outstanding_step A n e cur call"] by simp
qed

lemma ch_get_history:
  assumes "co_run E calls (new_coordinator A) = Returns (co, events)"
    and "sorted (map co_time calls @ [now])"
  shows "ch_get (remove_expired_coordinator now co) (n, e) = while_live now (outstanding A n e calls)"
  using co_run_outstanding [OF assms(1), of A 0 now n e None] assms(2)
  by (simp add: outstanding_def ch_get_pruned)

lemma co_run_authorizations: "co_run E calls co = Returns (co', events) \<Longrightarrow> co_authorizations co' = co_authorizations co"
  by (induction calls arbitrary: co events) (auto dest: co_do_authorizations)

text \<open>The registrations, from the accepted enrolments.\<close>

fun member_op :: "'sig co_event \<Rightarrow> (string, socket_addr) lease_op" where
  "member_op (Enrol n lease c sg source now, AuthRegistered _ _ _) =
     Insert \<lparr>ins_time = now, ins_key = n, ins_val = source, ins_until = now + lease\<rparr>"
| "member_op (call, _) = Sweep (co_time call)"

lemma op_time_member [simp]: "op_time (member_op ev) = co_time (fst ev)"
  by (cases ev rule: member_op.cases) simp_all

definition same_members :: "'vk coordinator \<Rightarrow> 'vk coordinator \<Rightarrow> bool" where
  "same_members a b \<longleftrightarrow> (\<forall>n. member_get a n = member_get b n)"

lemma same_members_run: "same_members a b \<Longrightarrow> same_members (members.run_ops ops a) (members.run_ops ops b)"
proof (induction ops a arbitrary: b rule: members.run_ops.induct)
  case (2 i ops s)
  then have "same_members (members.insert_at i s) (members.insert_at i b)"
    by (simp add: same_members_def members.insert_at_def members.get_put members.get_prune)
  with 2 show ?case by simp
next
  case (3 t ops s)
  then have "same_members (remove_expired_coordinator t s) (remove_expired_coordinator t b)"
    by (simp add: same_members_def members.get_prune)
  with 3 show ?case by simp
qed simp

lemma co_do_member_op:
  assumes "co_do E call co = Returns (co', reply)"
  shows "same_members co' (members.run_ops [member_op (call, reply)] co)"
  using assms
proof (cases rule: co_do_cases)
  case swept
  then have "member_op (call, reply) = Sweep (co_time call)"
    by (cases "(call, reply)" rule: member_op.cases) auto
  with swept show ?thesis by (simp add: same_members_def)
next
  case (rejected n lease c sg source now)
  then have "member_op (call, reply) = Sweep (co_time call)"
    by (cases "(call, reply)" rule: member_op.cases) auto
  with rejected show ?thesis by (simp add: same_members_def)
qed (auto simp: same_members_def members.insert_at_def members.get_put)

lemma co_run_members:
  "co_run E calls co = Returns (co', events) \<Longrightarrow>
     same_members co' (members.run_ops (map member_op events) co) \<and> map fst events = calls"
proof (induction calls arbitrary: co events)
  case (Cons call calls)
  then obtain co1 reply events1 where first: "co_do E call co = Returns (co1, reply)"
    and rest: "co_run E calls co1 = Returns (co', events1)" and events: "events = (call, reply) # events1"
    by auto
  note IH = Cons.IH [OF rest]
  have "same_members (members.run_ops (map member_op events1) co1)
      (members.run_ops (map member_op events1) (members.run_ops [member_op (call, reply)] co))"
    by (rule same_members_run [OF co_do_member_op [OF first]])
  then have "same_members co' (members.run_ops ([member_op (call, reply)] @ map member_op events1) co)"
    using IH by (simp add: same_members_def members.run_ops_append del: append_Cons append_Nil)
  then show ?case using IH events by simp
qed (simp add: same_members_def)

definition enrolments :: "'sig co_event list \<Rightarrow> (string, socket_addr) insertion list" where
  "enrolments events = insertions (map member_op events)"

lemma member_get_history:
  assumes "co_run E calls (new_coordinator A) = Returns (co, events)"
    and "sorted (map co_time calls @ [now])"
  shows "member_get (remove_expired_coordinator now co) n = live_value now (latest n (enrolments events))"
proof -
  from co_run_members [OF assms(1)]
  have same: "same_members co (members.run_ops (map member_op events) (new_coordinator A))"
    and calls: "map fst events = calls" by auto
  have "sorted (map op_time (map member_op events) @ [now])"
    using assms(2) by (simp add: comp_def calls [symmetric])
  from members.get_history [OF _ this, of "new_coordinator A" n] same
  show ?thesis
    by (simp add: same_members_def enrolments_def members.get_prune split: option.split)
qed

lemma co_run_append:
  "co_run E (xs @ ys) co = out_bind (co_run E xs co) (\<lambda>(co, us).
     out_bind (co_run E ys co) (\<lambda>(co, vs). Returns (co, us @ vs)))"
  by (induction xs arbitrary: co)
    (auto simp: out_bind_def split: outcome.splits prod.splits)

lemma co_run_reach:
  assumes "co_run E calls (new_coordinator A) = Returns (co, events)"
  shows "co_reach E A events co"
  using assms
proof (induction calls arbitrary: co events rule: rev_induct)
  case Nil
  then show ?case by (auto intro: co_reach.start)
next
  case (snoc call calls)
  then obtain co1 events1 reply where run: "co_run E calls (new_coordinator A) = Returns (co1, events1)"
    and last: "co_do E call co1 = Returns (co, reply)" and events: "events = events1 @ [(call, reply)]"
    by (auto simp: co_run_append)
  show ?case unfolding events by (rule co_reach.step [OF snoc.IH [OF run] last])
qed

section \<open>The registry inside, as a learning coordinator\<close>

text \<open>The request of the learning coordinator that does to the registrations what an event did; for
  everything but an accepted registration that is a look-up, which only drops what has expired.\<close>

fun learning_call :: "socket_addr \<Rightarrow> 'sig co_event \<Rightarrow> call" where
  "learning_call asker (Enrol n lease c sg source now, AuthRegistered _ _ _) = (Register n lease, source, now)"
| "learning_call asker (Enrol n lease c sg source now, _) = (Lookup n, source, now)"
| "learning_call asker (Issue n source now c, _) = (Lookup n, source, now)"
| "learning_call asker (Seek n now, _) = (Lookup n, asker, now)"

lemma co_registry_simps [simp]:
  "co_registry (ch_put k c u co) = co_registry co" "co_registry (ch_remove k co) = co_registry co"
  "co_registry (member_put n e u co) = reg_put n e u (co_registry co)"
  "co_registry (remove_expired_coordinator now co) = remove_expired_registrations now (co_registry co)"
  by (simp_all add: ch_put_def ch_remove_def member_put_def remove_expired_coordinator_def)

lemma reg_get_co_registry: "reg_get (co_registry co) n = member_get co n"
  by (simp add: member_get_def)

lemma learning_call_sweeps:
  "(\<And>m. \<not> enrols m (call, reply)) \<Longrightarrow> \<exists>n source. learning_call asker (call, reply) = (Lookup n, source, co_time call)"
  by (cases "(asker, call, reply)" rule: learning_call.cases) auto

lemma co_do_learning:
  assumes "co_do E call co = Returns (co', reply)"
  shows "\<exists>learned. (case learning_call asker (call, reply) of (q, source, now) \<Rightarrow>
     handle q source now (co_registry co)) = Returns (co_registry co', learned)"
proof -
  have sweep: ?thesis if none: "\<And>m. \<not> enrols m (call, reply)"
    and co': "co_registry co' = remove_expired_registrations (co_time call) (co_registry co)"
    using learning_call_sweeps [OF none, of asker] co' by (auto simp: handle_Lookup Let_def)
  show ?thesis using assms
  proof (cases rule: co_do_cases)
    case (enrolled n lease c sg source now until)
    with assms have "now + lease < instant_end"
      by (auto simp: register_node_eq Let_def split: if_splits)
    with enrolled show ?thesis by (auto simp: handle_Register checked_add_instant_def)
  next
    case swept
    then show ?thesis by (intro sweep) simp_all
  next
    case (issued n source now c)
    then show ?thesis by (intro sweep) simp_all
  next
    case (rejected n lease c sg source now)
    then show ?thesis by (intro sweep) simp_all
  qed
qed

lemma co_run_learning:
  "co_run E calls co = Returns (co', events) \<Longrightarrow>
     handle_all (map (learning_call asker) events) (co_registry co) = Returns (co_registry co')"
proof (induction calls arbitrary: co events)
  case (Cons call calls)
  then obtain co1 reply events1 where first: "co_do E call co = Returns (co1, reply)"
    and rest: "co_run E calls co1 = Returns (co', events1)" and events: "events = (call, reply) # events1"
    by auto
  obtain q source now where c: "learning_call asker (call, reply) = (q, source, now)" by (rule prod_cases3)
  with co_do_learning [OF first, of asker] obtain learned where
    "handle q source now (co_registry co) = Returns (co_registry co1, learned)" by auto
  with Cons.IH [OF rest] show ?case by (simp add: events c)
qed simp

section \<open>No panic within the clock's range\<close>

fun call_ok :: "'sig co_call \<Rightarrow> bool" where
  "call_ok (Issue n source now c) \<longleftrightarrow> clock_in_range now"
| "call_ok (Enrol n lease c sg source now) \<longleftrightarrow> lease_ok lease \<and> clock_in_range now"
| "call_ok (Seek n now) \<longleftrightarrow> True"

lemma challenge_in_range: "clock_in_range now \<Longrightarrow> now + CHALLENGE_LIFETIME < instant_end"
  by (simp add: clock_in_range_def CHALLENGE_LIFETIME_def MAX_LEASE_SECONDS_def from_secs_def)

lemma co_do_returns: "call_ok call \<Longrightarrow> \<exists>co' reply. co_do E call co = Returns (co', reply)"
proof (cases call)
  case (Issue n source now c)
  moreover assume "call_ok call"
  ultimately show ?thesis
    by (simp add: issue_challenge_eq Let_def checked_add_instant_ok challenge_in_range)
next
  case (Enrol n lease c sg source now)
  moreover assume "call_ok call"
  ultimately show ?thesis
    by (simp add: register_node_eq Let_def checked_add_instant_ok lease_ok_in_range split: option.split prod.split)
next
  case (Seek n now)
  then show ?thesis by (cases "lookup_node n now co") simp
qed

lemma co_run_returns: "list_all call_ok calls \<Longrightarrow> \<exists>co' events. co_run E calls co = Returns (co', events)"
proof (induction calls arbitrary: co)
  case (Cons call calls)
  obtain co1 reply where "co_do E call co = Returns (co1, reply)"
    using co_do_returns [of call E co] Cons.prems by auto
  with Cons show ?case by fastforce
qed simp

section \<open>Properties\<close>

text \<open>The reply to a registration whose time limit is representable, from the pending challenge.\<close>

definition enrol_reply ::
  "('vk, 'sig) ed25519 \<Rightarrow> 'vk authorizations \<Rightarrow> string \<Rightarrow> duration \<Rightarrow> bytes \<Rightarrow> 'sig \<Rightarrow> socket_addr \<Rightarrow>
     (bytes \<times> instant) option \<Rightarrow> auth_response" where
  "enrol_reply E A n lease c sg e pending =
     (case pending of
        None \<Rightarrow> AuthError ''no unexpired challenge exists for this node and source endpoint''
      | Some (d, _) \<Rightarrow>
          if d \<noteq> c then AuthError ''challenge does not match the issued value''
          else if auth_get A n = None then AuthError ''node ID is not authorized''
          else if \<not> accepts E A n lease c sg then AuthError ''signature verification failed''
          else AuthRegistered n e lease)"

lemma enrol_decided:
  assumes pend: "ch_get (remove_expired_coordinator now co) (n, e) = pending" and A: "co_authorizations co = A"
  shows "(\<exists>co'. co_do E (Enrol n lease c sg e now) co = Returns (co', AuthRegistered n e lease)) \<longleftrightarrow>
     (\<exists>until. pending = Some (c, until)) \<and> accepts E A n lease c sg \<and> now + lease < instant_end"
    and "co_do E (Enrol n lease c sg e now) co = Returns (co', reply) \<Longrightarrow>
     reply = enrol_reply E A n lease c sg e pending"
proof -
  have known: "accepts E A n lease c sg \<Longrightarrow> auth_get A n \<noteq> None" by (auto simp: accepts_def)
  then show "(\<exists>co'. co_do E (Enrol n lease c sg e now) co = Returns (co', AuthRegistered n e lease)) \<longleftrightarrow>
     (\<exists>until. pending = Some (c, until)) \<and> accepts E A n lease c sg \<and> now + lease < instant_end"
    by (cases pending) (auto simp: register_node_eq Let_def pend A checked_add_instant_def split: if_splits)
  show "co_do E (Enrol n lease c sg e now) co = Returns (co', reply) \<Longrightarrow> reply = enrol_reply E A n lease c sg e pending"
    using known
    by (cases pending) (auto simp: enrol_reply_def register_node_eq Let_def pend A checked_add_instant_def split: if_splits)
qed

text \<open>A run for the examples: one challenge, then one signed registration.\<close>

definition sample_source :: socket_addr where "sample_source = SocketV4 (Ipv4 127 0 0 1) 40000"
definition sample_challenge :: bytes where "sample_challenge = replicate 32 9"

definition sample_issue :: "bytes co_call" where
  "sample_issue = Issue ''mesh-a'' sample_source 0 sample_challenge"

definition sample_enrol :: "bytes co_call" where
  "sample_enrol = Enrol ''mesh-a'' (from_secs 30) sample_challenge
     (ed_sign sample_ed25519 sample_secret
        (registration_signing_message ''mesh-a'' (from_secs 30) sample_challenge)) sample_source 1"

lemma sample_accepts: "accepts sample_ed25519 sample_authorizations ''mesh-a'' (from_secs 30) sample_challenge
    (ed_sign sample_ed25519 sample_secret (registration_signing_message ''mesh-a'' (from_secs 30) sample_challenge))"
  by (simp add: accepts_def sign_verifies [OF sample_ed25519_ok])

lemma sample_run1:
  "\<exists>co. co_run sample_ed25519 [sample_issue] (new_coordinator sample_authorizations)
     = Returns (co, [(sample_issue, AuthChallengeIssued ''mesh-a'' sample_challenge)])"
  by (simp add: sample_issue_def issue_challenge_eq Let_def checked_add_instant_def CHALLENGE_LIFETIME_def
      instant_end_def from_secs_def nanos_per_sec_def)

lemma sample_run2:
  "\<exists>co. co_run sample_ed25519 [sample_issue, sample_enrol] (new_coordinator sample_authorizations)
     = Returns (co, [(sample_issue, AuthChallengeIssued ''mesh-a'' sample_challenge),
                     (sample_enrol, AuthRegistered ''mesh-a'' sample_source (from_secs 30))])"
  using sample_accepts
  by (simp add: sample_issue_def sample_enrol_def issue_challenge_eq register_node_eq Let_def
      checked_add_instant_def CHALLENGE_LIFETIME_def instant_end_def ch_get_pruned pending.get_put)
    (simp add: from_secs_def nanos_per_sec_def)

text \<open>
  C1.  Every accepted registration is authentic and uses a fresh challenge once: the coordinator
  confirms a registration only for the node, endpoint and lease requested, only with a signature
  by the authorized key of that node over node, lease and challenge, and only if it issued that
  very challenge to that node at that endpoint less than 10 seconds earlier, with no other
  challenge issued and no registration attempted for the pair in between.
\<close>

theorem registration_uses_one_challenge:
  assumes "co_reach E A (xs @ (Enrol n lease c sg e t, AuthRegistered m e' k) # ys) co"
  shows "m = n \<and> e' = e \<and> k = lease
     \<and> (\<exists>vk. auth_get A n = Some vk \<and> ed_verify_strict E vk (registration_signing_message n lease c) sg)
     \<and> (\<exists>us t1 vs. xs = us @ (Issue n e t1 c, AuthChallengeIssued n c) # vs
          \<and> t < t1 + CHALLENGE_LIFETIME \<and> (\<forall>ev \<in> set vs. \<not> touches n e ev))"
  using enrolment_authentic [OF assms] unfolding accepts_def issued_in_def by auto

theorem registration_uses_one_challenge_witness:
  "\<exists>us t1 vs. [(sample_issue, AuthChallengeIssued ''mesh-a'' sample_challenge)]
     = us @ (Issue ''mesh-a'' sample_source t1 sample_challenge, AuthChallengeIssued ''mesh-a'' sample_challenge) # vs
     \<and> 1 < t1 + CHALLENGE_LIFETIME \<and> (\<forall>ev \<in> set vs. \<not> touches ''mesh-a'' sample_source ev)"
proof -
  obtain co where "co_run sample_ed25519 [sample_issue, sample_enrol] (new_coordinator sample_authorizations)
     = Returns (co, [(sample_issue, AuthChallengeIssued ''mesh-a'' sample_challenge),
                     (sample_enrol, AuthRegistered ''mesh-a'' sample_source (from_secs 30))])"
    using sample_run2 by blast
  from co_run_reach [OF this] have reach: "co_reach sample_ed25519 sample_authorizations
      ([(sample_issue, AuthChallengeIssued ''mesh-a'' sample_challenge)]
        @ (sample_enrol, AuthRegistered ''mesh-a'' sample_source (from_secs 30)) # []) co" by simp
  show ?thesis
    using registration_uses_one_challenge [OF reach [unfolded sample_enrol_def]] by blast
qed

text \<open>
  C2.  After any chronological history of calls, a registration is confirmed exactly when the
  history left that challenge outstanding for the node at the endpoint and it has not expired,
  the signature is by the node's authorized key, and the deadline is representable.  A refused
  registration gets the reply of the first check that fails: no live challenge, another
  challenge, an unknown node, a wrong signature.
\<close>

theorem registration_decision:
  assumes "co_run E calls (new_coordinator A) = Returns (co, events)"
    and "sorted (map co_time calls @ [now])"
  shows "((\<exists>co'. co_do E (Enrol n lease c sg e now) co = Returns (co', AuthRegistered n e lease)) \<longleftrightarrow>
     (\<exists>until. outstanding A n e calls = Some (c, until) \<and> now < until)
     \<and> accepts E A n lease c sg \<and> now + lease < instant_end)
   \<and> (\<forall>co' reply. co_do E (Enrol n lease c sg e now) co = Returns (co', reply) \<longrightarrow>
     reply = enrol_reply E A n lease c sg e (while_live now (outstanding A n e calls)))"
proof -
  have pend: "ch_get (remove_expired_coordinator now co) (n, e) = while_live now (outstanding A n e calls)"
    by (rule ch_get_history [OF assms])
  have A: "co_authorizations co = A" using co_run_authorizations [OF assms(1)] by simp
  note decided = enrol_decided [OF pend A]
  have live: "(\<exists>until. outstanding A n e calls = Some (c, until) \<and> now < until)
      \<longleftrightarrow> (\<exists>until. while_live now (outstanding A n e calls) = Some (c, until))"
    by (simp add: while_live_Some)
  show ?thesis unfolding live by (intro conjI allI impI) (rule decided(1), erule decided(2))
qed

theorem registration_decision_witness:
  "\<exists>co co'. co_run sample_ed25519 [sample_issue] (new_coordinator sample_authorizations)
       = Returns (co, [(sample_issue, AuthChallengeIssued ''mesh-a'' sample_challenge)])
     \<and> co_do sample_ed25519 sample_enrol co
       = Returns (co', AuthRegistered ''mesh-a'' sample_source (from_secs 30))"
proof -
  obtain co where run: "co_run sample_ed25519 [sample_issue] (new_coordinator sample_authorizations)
     = Returns (co, [(sample_issue, AuthChallengeIssued ''mesh-a'' sample_challenge)])"
    using sample_run1 by blast
  have sorted: "sorted (map co_time [sample_issue] @ [1])" by (simp add: sample_issue_def)
  have out: "outstanding sample_authorizations ''mesh-a'' sample_source [sample_issue]
      = Some (sample_challenge, CHALLENGE_LIFETIME)"
    by (simp add: outstanding_def sample_issue_def)
  have range: "1 < CHALLENGE_LIFETIME" "1 + from_secs 30 < instant_end"
    by (simp_all add: CHALLENGE_LIFETIME_def from_secs_def instant_end_def nanos_per_sec_def)
  show ?thesis
    using registration_decision [OF run sorted, THEN conjunct1, of "''mesh-a''" "from_secs 30" sample_challenge
        "ed_sign sample_ed25519 sample_secret
          (registration_signing_message ''mesh-a'' (from_secs 30) sample_challenge)" sample_source]
      run out range sample_accepts unfolding sample_enrol_def by blast
qed

text \<open>
  After any chronological history, a look-up of a node finds the endpoint of its latest
  confirmed registration while that lease runs, and otherwise reports that it was not found.
\<close>

theorem auth_lookup_history:
  assumes "co_run E calls (new_coordinator A) = Returns (co, events)"
    and "sorted (map co_time calls @ [now])"
  shows "snd (lookup_node n now co) =
     (case live_value now (latest n (enrolments events)) of
        None \<Rightarrow> AuthNotFound n | Some (e, _) \<Rightarrow> AuthFound n e)"
  by (simp add: lookup_node_eq Let_def member_get_history [OF assms])

theorem auth_lookup_history_witness:
  "\<exists>co events. co_run sample_ed25519 [sample_issue, sample_enrol] (new_coordinator sample_authorizations)
       = Returns (co, events)
     \<and> snd (lookup_node ''mesh-a'' (from_secs 30) co) = AuthFound ''mesh-a'' sample_source
     \<and> snd (lookup_node ''mesh-a'' (1 + from_secs 30) co) = AuthNotFound ''mesh-a''"
proof -
  obtain co where run: "co_run sample_ed25519 [sample_issue, sample_enrol] (new_coordinator sample_authorizations)
     = Returns (co, [(sample_issue, AuthChallengeIssued ''mesh-a'' sample_challenge),
                     (sample_enrol, AuthRegistered ''mesh-a'' sample_source (from_secs 30))])"
    using sample_run2 by blast
  have "sorted (map co_time [sample_issue, sample_enrol] @ [from_secs 30])"
    "sorted (map co_time [sample_issue, sample_enrol] @ [1 + from_secs 30])"
    by (simp_all add: sample_issue_def sample_enrol_def from_secs_def nanos_per_sec_def)
  note look = auth_lookup_history [OF run this(1), of "''mesh-a''"] auth_lookup_history [OF run this(2), of "''mesh-a''"]
  have "snd (lookup_node ''mesh-a'' (from_secs 30) co) = AuthFound ''mesh-a'' sample_source"
    "snd (lookup_node ''mesh-a'' (1 + from_secs 30) co) = AuthNotFound ''mesh-a''"
    unfolding look by (simp_all add: enrolments_def sample_issue_def sample_enrol_def)
  with run show ?thesis by blast
qed

text \<open>
  C24.  The authenticated coordinator refines the learning coordinator: in every run its registry
  is the one the learning coordinator reaches on the accepted registrations (with every other
  event as a look-up), and a look-up then gives the same reply, under its own protocol version.
\<close>

theorem refines_learning_coordinator:
  assumes "co_run E calls (new_coordinator A) = Returns (co, events)"
  shows "handle_all (map (learning_call asker) events) default_registry = Returns (co_registry co)
     \<and> (\<exists>learned. handle (Lookup n) asker now (co_registry co)
            = Returns (co_registry (fst (lookup_node n now co)), learned)
         \<and> encode_auth_response (snd (lookup_node n now co))
            = AUTH_PROTOCOL_VERSION @ drop (length PROTOCOL_VERSION) (encode_response learned))"
proof -
  let ?r = "remove_expired_registrations now (co_registry co)"
  have "member_get (remove_expired_coordinator now co) n = reg_get ?r n"
    by (simp add: reg_get_co_registry [symmetric])
  then have "encode_auth_response (snd (lookup_node n now co)) = AUTH_PROTOCOL_VERSION @ drop (length PROTOCOL_VERSION)
      (encode_response (case reg_get ?r n of None \<Rightarrow> NotFound n | Some (e, _) \<Rightarrow> Found n e))"
    by (simp add: lookup_node_eq Let_def split: option.split)
  moreover have "co_registry (fst (lookup_node n now co)) = ?r" by (simp add: lookup_node_eq Let_def)
  moreover have "co_registry (new_coordinator A) = default_registry" by (simp add: new_coordinator_def)
  ultimately show ?thesis using co_run_learning [OF assms, of asker] by (simp add: handle_Lookup Let_def)
qed

theorem refines_learning_coordinator_witness:
  "\<exists>co r. co_run sample_ed25519 [sample_issue, sample_enrol] (new_coordinator sample_authorizations)
       = Returns (co, [(sample_issue, AuthChallengeIssued ''mesh-a'' sample_challenge),
                       (sample_enrol, AuthRegistered ''mesh-a'' sample_source (from_secs 30))])
     \<and> handle_all [(Lookup ''mesh-a'', sample_source, 0), (Register ''mesh-a'' (from_secs 30), sample_source, 1)]
         default_registry = Returns (co_registry co)"
proof -
  obtain co where run: "co_run sample_ed25519 [sample_issue, sample_enrol] (new_coordinator sample_authorizations)
     = Returns (co, [(sample_issue, AuthChallengeIssued ''mesh-a'' sample_challenge),
                     (sample_enrol, AuthRegistered ''mesh-a'' sample_source (from_secs 30))])"
    using sample_run2 by blast
  from refines_learning_coordinator [OF run, of sample_source] run show ?thesis
    by (auto simp: sample_issue_def sample_enrol_def)
qed

end
