(* ===== verification/Coordinator_Server.thy ===== *)
theory Coordinator_Server
  imports Sockets Auth_Coordinator
begin

text \<open>
  The UDP loops and the clients of \<open>src/coordinator.rs\<close>: \<open>run_server\<close>,
  \<open>run_authenticated_server\<close>, \<open>exchange\<close> with its wrappers, and
  \<open>register_authenticated\<close>.  A loop body is a function from state and one datagram to the new
  state and the reply; both bodies are instances of \<open>service\<close>.  The last section runs the
  clients against the servers.
\<close>

section \<open>Servers\<close>

text \<open>The reply computed for the bytes of one datagram, and the loop body around it.\<close>

definition coordinator_answer ::
  "bytes \<Rightarrow> socket_addr \<Rightarrow> instant \<Rightarrow> registry \<Rightarrow> (registry \<times> response) outcome" where
  "coordinator_answer received source now r =
     (if MAX_DATAGRAM_BYTES < length received
      then Returns (r, Error (''request exceeds '' @ decimal MAX_DATAGRAM_BYTES @ ''-byte limit''))
      else case parse_request received of
        Inr request \<Rightarrow> handle request source now r
      | Inl message \<Rightarrow> Returns (r, Error message))"

definition coordinator_step ::
  "registry \<Rightarrow> net_step \<Rightarrow> (registry \<times> bytes \<times> socket_addr) outcome" where
  "coordinator_step r n =
     out_bind (expect_ok ''failed to receive coordinator request'' (ns_received n)) (\<lambda>(payload, source).
     out_bind (coordinator_answer (recv_into (MAX_DATAGRAM_BYTES + 1) payload) source (ns_now n) r)
       (\<lambda>(r, response).
     let encoded = encode_response response in
     out_bind (expect_sent ''failed to send coordinator response'' (ns_send_error n)) (\<lambda>_.
     Returns (r, as_bytes encoded, source))))"

definition run_server :: "string option \<Rightarrow> net_step list \<Rightarrow> (bytes \<times> socket_addr) list \<times> run_status" where
  "run_server bind_error steps =
     (case bind_error of
        Some e \<Rightarrow> ([], Panicked (''failed to bind coordinator UDP socket: '' @ e))
      | None \<Rightarrow>
          (case serve coordinator_step default_registry steps of
             (_, sent, Some m) \<Rightarrow> (sent, Panicked m)
           | (_, sent, None) \<Rightarrow> (sent, Blocked)))"

text \<open>The authenticated loop also draws randomness for a challenge.\<close>

record auth_net_step = net_step +
  ns_random :: "string + bytes"

definition auth_coordinator_answer ::
  "('vk, 'sig) ed25519 \<Rightarrow> bytes \<Rightarrow> socket_addr \<Rightarrow> instant \<Rightarrow> string + bytes \<Rightarrow> 'vk coordinator \<Rightarrow>
     ('vk coordinator \<times> auth_response) outcome" where
  "auth_coordinator_answer E received source now random co =
     (if MAX_DATAGRAM_BYTES < length received
      then Returns (co, AuthError (''request exceeds '' @ decimal MAX_DATAGRAM_BYTES @ ''-byte limit''))
      else case parse_auth_request E received of
        Inr (AuthChallenge node_id) \<Rightarrow>
          (case random of
             Inr challenge \<Rightarrow> issue_challenge node_id source now challenge co
           | Inl e \<Rightarrow> Returns (co, AuthError (''operating system failed to generate a challenge: '' @ e)))
      | Inr (AuthRegister node_id lease challenge signature) \<Rightarrow>
          register_node E node_id lease challenge signature source now co
      | Inr (AuthLookup node_id) \<Rightarrow> Returns (lookup_node node_id now co)
      | Inl message \<Rightarrow> Returns (co, AuthError message))"

definition auth_coordinator_step ::
  "('vk, 'sig) ed25519 \<Rightarrow> 'vk coordinator \<Rightarrow> auth_net_step \<Rightarrow> ('vk coordinator \<times> bytes \<times> socket_addr) outcome" where
  "auth_coordinator_step E co n =
     out_bind (expect_ok ''failed to receive authenticated coordinator request'' (ns_received n))
       (\<lambda>(payload, source).
     out_bind (auth_coordinator_answer E (recv_into (MAX_DATAGRAM_BYTES + 1) payload) source (ns_now n)
                 (ns_random n) co)
       (\<lambda>(co, response).
     let encoded = encode_auth_response response in
     out_bind (expect_sent ''failed to send authenticated coordinator response'' (ns_send_error n)) (\<lambda>_.
     Returns (co, as_bytes encoded, source))))"

definition run_authenticated_server ::
  "('vk, 'sig) ed25519 \<Rightarrow> string option \<Rightarrow> string \<Rightarrow> string + string \<Rightarrow> auth_net_step list \<Rightarrow>
     (bytes \<times> socket_addr) list \<times> run_status" where
  "run_authenticated_server E bind_error authorization_path authorization_file steps =
     (case out_bind (expect_sent ''failed to bind authenticated coordinator UDP socket'' bind_error) (\<lambda>_.
             or_panic (\<lambda>e. ''failed to load coordinator authorizations: '' @ e)
               (load_authorizations E authorization_path authorization_file)) of
        Panics m \<Rightarrow> ([], Panicked m)
      | Returns authorizations \<Rightarrow>
          (case serve (auth_coordinator_step E) (new_coordinator authorizations) steps of
             (_, sent, Some m) \<Rightarrow> (sent, Panicked m)
           | (_, sent, None) \<Rightarrow> (sent, Blocked)))"

section \<open>Clients\<close>

text \<open>The result of a client is the list of datagrams it sent and the text it printed last, or a
  panic.\<close>

definition CLIENT_TIMEOUT :: duration where "CLIENT_TIMEOUT = from_secs 2"

lemma CLIENT_TIMEOUT_pos [simp]: "0 < CLIENT_TIMEOUT"
  by (simp add: CLIENT_TIMEOUT_def from_secs_def nanos_per_sec_def)

definition exchange :: "client_socket \<Rightarrow> string \<Rightarrow> bytes list \<times> string outcome" where
  "exchange cs request =
     (case out_bind (expect_sent ''failed to bind coordinator client socket'' (cs_bind_error cs)) (\<lambda>_.
           out_bind (expect_sent ''failed to select coordinator server'' (cs_connect_error cs)) (\<lambda>_.
           out_bind (expect_sent ''failed to set coordinator response timeout'' (cs_timeout_error cs)) (\<lambda>_.
           expect_sent ''failed to send coordinator request'' (cs_send_error cs 0)))) of
        Panics m \<Rightarrow> ([], Panics m)
      | Returns _ \<Rightarrow>
          ([as_bytes request],
           out_bind (expect_ok ''failed to receive coordinator response within two seconds''
                       (cs_received (set_read_timeout CLIENT_TIMEOUT cs) 0)) (\<lambda>payload.
           expect ''coordinator response is not UTF-8'' (from_utf8 (recv_into MAX_DATAGRAM_BYTES payload)))))"

definition client_register :: "client_socket \<Rightarrow> string \<Rightarrow> nat \<Rightarrow> bytes list \<times> string outcome" where
  "client_register cs node_id lease_seconds = exchange cs (register_text node_id lease_seconds)"

definition client_lookup :: "client_socket \<Rightarrow> string \<Rightarrow> bytes list \<times> string outcome" where
  "client_lookup cs node_id = exchange cs (lookup_text node_id)"

definition lookup_authenticated :: "client_socket \<Rightarrow> string \<Rightarrow> bytes list \<times> string outcome" where
  "lookup_authenticated cs node_id = exchange cs (auth_lookup_text node_id)"

definition advertise_route :: "client_socket \<Rightarrow> string \<Rightarrow> string \<Rightarrow> nat \<Rightarrow> bytes list \<times> string outcome" where
  "advertise_route cs node_id prefix_text lease_seconds =
     (case out_bind (or_panic (\<lambda>e. ''invalid node ID: '' @ e) (validate_node_id node_id)) (\<lambda>_.
           out_bind (or_panic (\<lambda>e. ''invalid advertised prefix: '' @ e) (parse_prefix prefix_text)) (\<lambda>p.
           out_bind (or_panic (\<lambda>e. ''invalid route lease: '' @ e) (parse_lease (decimal lease_seconds))) (\<lambda>lease.
           Returns (advertise_route_text node_id p lease)))) of
        Panics m \<Rightarrow> ([], Panics m)
      | Returns request \<Rightarrow> exchange cs request)"

definition route_lookup :: "client_socket \<Rightarrow> string \<Rightarrow> bytes list \<times> string outcome" where
  "route_lookup cs destination =
     (case parse_ipv4_addr destination of
        None \<Rightarrow> ([], Panics ''route destination must be an IPv4 address'')
      | Some d \<Rightarrow> exchange cs (route_lookup_text d))"

definition receive_connected :: "string + bytes \<Rightarrow> string \<Rightarrow> string outcome" where
  "receive_connected received description =
     out_bind (or_panic (\<lambda>e. ''failed to receive '' @ description @ '' within two seconds: '' @ e) received)
       (\<lambda>payload.
     expect (description @ '' is not UTF-8'') (from_utf8 (recv_into MAX_DATAGRAM_BYTES payload)))"

definition register_authenticated ::
  "('vk, 'sig) ed25519 \<Rightarrow> client_socket \<Rightarrow> string \<Rightarrow> nat \<Rightarrow> string \<Rightarrow> string + string \<Rightarrow>
     bytes list \<times> string outcome" where
  "register_authenticated E cs node_id lease_seconds identity_path identity_file =
     (case out_bind (or_panic (\<lambda>e. ''failed to load node identity: '' @ e)
                       (load_identity identity_path identity_file)) (\<lambda>identity.
           out_bind (if id_node_id identity = node_id then Returns ()
                     else Panics ''command node ID does not match identity file'') (\<lambda>_.
           out_bind (or_panic (\<lambda>e. ''invalid lease: '' @ e) (parse_lease (decimal lease_seconds))) (\<lambda>lease.
           out_bind (expect_sent ''failed to bind authenticated coordinator client socket'' (cs_bind_error cs)) (\<lambda>_.
           out_bind (expect_sent ''failed to select authenticated coordinator server'' (cs_connect_error cs)) (\<lambda>_.
           out_bind (expect_sent ''failed to set authenticated coordinator response timeout'' (cs_timeout_error cs)) (\<lambda>_.
           out_bind (expect_sent ''failed to send coordinator challenge request'' (cs_send_error cs 0)) (\<lambda>_.
           Returns (identity, lease)))))))) of
        Panics m \<Rightarrow> ([], Panics m)
      | Returns (identity, lease) \<Rightarrow>
          let sent = [as_bytes (challenge_text node_id)] in
          (case out_bind (receive_connected (cs_received (set_read_timeout CLIENT_TIMEOUT cs) 0) ''challenge response'')
                  (\<lambda>challenge_response.
                or_panic (\<lambda>e. ''invalid coordinator challenge response: '' @ e)
                  (parse_challenge_response challenge_response node_id)) of
             Panics m \<Rightarrow> (sent, Panics m)
           | Returns challenge \<Rightarrow>
               let signature = identity_sign E identity (registration_signing_message node_id lease challenge);
                   register_request = signed_register_text E node_id lease challenge signature
               in case cs_send_error cs 1 of
                    Some e \<Rightarrow> (sent, Panics (''failed to send signed coordinator registration: '' @ e))
                  | None \<Rightarrow> (sent @ [as_bytes register_request],
                             receive_connected (cs_received (set_read_timeout CLIENT_TIMEOUT cs) 1)
                               ''registration response'')))"

section \<open>The servers as services\<close>

text \<open>Every reply goes to the endpoint the request came from and opens with the version.\<close>

definition replies_to :: "string \<Rightarrow> ('a net_step_scheme) \<Rightarrow> bytes \<times> socket_addr \<Rightarrow> bool" where
  "replies_to version n out \<longleftrightarrow> (\<exists>payload text. ns_received n = Inr (payload, snd out)
     \<and> fst out = as_bytes (version @ CHR '' '' # text))"

definition registry_inv :: "registry \<Rightarrow> bool" where
  "registry_inv r \<longleftrightarrow> routes_inv (reg_routes r)
     \<and> (\<forall>n. reg_get r n \<noteq> None \<longrightarrow> valid_node_id n)
     \<and> (\<forall>ad \<in> set (advertisements (reg_routes r)). valid_node_id (sr_node_id (ad_route ad))
          \<and> wf_prefix (sr_prefix (ad_route ad)))"

lemma encode_response_opens: "\<exists>text. encode_response x = PROTOCOL_VERSION @ CHR '' '' # text"
  by (cases x) simp_all

lemma encode_auth_response_opens: "\<exists>text. encode_auth_response x = AUTH_PROTOCOL_VERSION @ CHR '' '' # text"
  by (cases x) simp_all

lemma reg_get_pruned_sub: "reg_get (remove_expired_registrations now r) n = Some x \<Longrightarrow> reg_get r n = Some x"
  by (auto simp: leases.get_prune split: option.splits if_splits)

lemma handle_registry_inv:
  assumes "registry_inv r" and "request_ok q" and "handle q source now r = Returns (r', reply)"
  shows "registry_inv r'"
proof (cases q)
  case (Register n lease)
  with assms have r': "r' = reg_put n source (now + lease) (remove_expired_registrations now r)"
    and n: "valid_node_id n" by (auto simp: handle_Register)
  have "valid_node_id m" if "reg_get r' m \<noteq> None" for m
  proof (cases "m = n")
    case False
    with that obtain x where "reg_get (remove_expired_registrations now r) m = Some x"
      by (cases "reg_get (remove_expired_registrations now r) m") (simp_all add: r' leases.get_put)
    then have "reg_get r m = Some x" by (rule reg_get_pruned_sub)
    with assms(1) show ?thesis by (simp add: registry_inv_def)
  qed (simp add: n)
  with assms(1) show ?thesis by (simp add: registry_inv_def r')
next
  case (Lookup n)
  with assms show ?thesis
    by (auto simp: handle_Lookup Let_def registry_inv_def leases.get_prune split: option.splits)
next
  case (AdvertiseRoute n p lease)
  with assms obtain x where x: "advertise n p lease now (reg_routes r) = Returns x"
    and r': "r' = (remove_expired_registrations now r)\<lparr>reg_routes := x\<rparr>"
    by (auto simp: handle_AdvertiseRoute)
  have "routes_inv x" using routes_inv_advertise [OF _ x] assms(1) by (simp add: registry_inv_def)
  moreover have "\<forall>ad \<in> set (advertisements x). valid_node_id (sr_node_id (ad_route ad))
      \<and> wf_prefix (sr_prefix (ad_route ad))"
    using x assms AdvertiseRoute
    by (auto simp: advertise_eq_put routes_put_def remove_expired_routes_def registry_inv_def)
  ultimately show ?thesis using assms(1)
    by (auto simp: r' registry_inv_def leases.get_prune split: option.splits)
next
  case (RouteLookup d)
  with assms have r': "r' = (remove_expired_registrations now r)\<lparr>reg_routes := remove_expired_routes now (reg_routes r)\<rparr>"
    by (auto simp: handle_RouteLookup lookup_route_def Let_def)
  have "routes_inv (remove_expired_routes now (reg_routes r))"
    using assms(1) by (simp add: registry_inv_def routes_inv_remove_expired)
  moreover have "\<forall>ad \<in> set (advertisements (remove_expired_routes now (reg_routes r))).
      valid_node_id (sr_node_id (ad_route ad)) \<and> wf_prefix (sr_prefix (ad_route ad))"
    using assms(1) by (simp add: registry_inv_def remove_expired_routes_def)
  ultimately show ?thesis using assms(1)
    by (auto simp: r' registry_inv_def leases.get_prune split: option.splits)
qed

lemma coordinator_answer_cases:
  assumes "coordinator_answer received source now r = Returns (r', response)"
  shows "(r' = r \<and> (\<exists>m. response = Error m)) \<or>
     (\<exists>q. request_ok q \<and> length received \<le> MAX_DATAGRAM_BYTES \<and> parse_request received = Ok q
        \<and> handle q source now r = Returns (r', response))"
proof (cases "parse_request received")
  case (Inl m)
  with assms show ?thesis by (auto simp: coordinator_answer_def split: if_splits)
next
  case (Inr q)
  from requests.dec_valid [OF Inr] have "request_ok q" .
  with assms Inr show ?thesis by (auto simp: coordinator_answer_def split: if_splits)
qed

lemma coordinator_step_Returns:
  "coordinator_step r n = Returns (r', out) \<longleftrightarrow>
     (\<exists>payload source response. ns_received n = Inr (payload, source) \<and> ns_send_error n = None
        \<and> coordinator_answer (recv_into (MAX_DATAGRAM_BYTES + 1) payload) source (ns_now n) r
            = Returns (r', response)
        \<and> out = (as_bytes (encode_response response), source))"
  by (fastforce simp: coordinator_step_def Let_def)

interpretation coordinator: service coordinator_step registry_inv "replies_to PROTOCOL_VERSION"
proof
  fix r r' :: registry and n :: net_step and out
  assume inv: "registry_inv r" and "coordinator_step r n = Returns (r', out)"
  then obtain payload source response where rec: "ns_received n = Inr (payload, source)"
    and answer: "coordinator_answer (recv_into (MAX_DATAGRAM_BYTES + 1) payload) source (ns_now n) r
            = Returns (r', response)"
    and out: "out = (as_bytes (encode_response response), source)"
    by (auto simp: coordinator_step_Returns)
  show "registry_inv r'"
    using coordinator_answer_cases [OF answer] inv handle_registry_inv by blast
  show "replies_to PROTOCOL_VERSION n out"
    using rec out encode_response_opens [of response] by (auto simp: replies_to_def)
qed

lemma registry_inv_default [simp]: "registry_inv default_registry"
  by (simp add: registry_inv_def, simp add: default_registry_def, simp add: empty_routes_def)

fun call_of :: "socket_addr \<Rightarrow> instant \<Rightarrow> bytes \<Rightarrow> 'sig auth_request \<Rightarrow> 'sig co_call" where
  "call_of source now c (AuthChallenge n) = Issue n source now c"
| "call_of source now c (AuthRegister n lease challenge sg) = Enrol n lease challenge sg source now"
| "call_of source now c (AuthLookup n) = Seek n now"

lemma auth_answer_call:
  "length received \<le> MAX_DATAGRAM_BYTES \<Longrightarrow> parse_auth_request E received = Ok q \<Longrightarrow>
     auth_coordinator_answer E received source now (Inr c) co = co_do E (call_of source now c q) co"
  by (cases q) (simp_all add: auth_coordinator_answer_def)

lemma auth_coordinator_answer_cases:
  assumes "auth_coordinator_answer E received source now random co = Returns (co', response)"
  shows "(co' = co \<and> (\<exists>m. response = AuthError m)) \<or>
     (\<exists>q c. length received \<le> MAX_DATAGRAM_BYTES \<and> parse_auth_request E received = Ok q
        \<and> co_do E (call_of source now c q) co = Returns (co', response))"
proof (cases "length received \<le> MAX_DATAGRAM_BYTES")
  case True
  show ?thesis
  proof (cases "parse_auth_request E received")
    case (Inl m)
    with assms show ?thesis by (auto simp: auth_coordinator_answer_def split: if_splits)
  next
    case (Inr q)
    show ?thesis
    proof (cases q)
      case (AuthChallenge n)
      show ?thesis
      proof (cases random)
        case (Inl e)
        with assms True Inr AuthChallenge show ?thesis by (auto simp: auth_coordinator_answer_def)
      next
        case random: (Inr c)
        with assms auth_answer_call [OF True Inr, of source now c co] True Inr show ?thesis by auto
      qed
    next
      case (AuthRegister n lease challenge sg)
      with assms True Inr have "co_do E (call_of source now [] q) co = Returns (co', response)"
        by (simp add: auth_coordinator_answer_def)
      with True Inr show ?thesis by blast
    next
      case (AuthLookup n)
      with assms True Inr have "co_do E (call_of source now [] q) co = Returns (co', response)"
        by (simp add: auth_coordinator_answer_def)
      with True Inr show ?thesis by blast
    qed
  qed
next
  case False
  with assms show ?thesis by (auto simp: auth_coordinator_answer_def)
qed

lemma auth_coordinator_step_Returns:
  "auth_coordinator_step E co n = Returns (co', out) \<longleftrightarrow>
     (\<exists>payload source response. ns_received n = Inr (payload, source) \<and> ns_send_error n = None
        \<and> auth_coordinator_answer E (recv_into (MAX_DATAGRAM_BYTES + 1) payload) source (ns_now n)
            (ns_random n) co = Returns (co', response)
        \<and> out = (as_bytes (encode_auth_response response), source))"
  by (fastforce simp: auth_coordinator_step_def Let_def)

text \<open>The tables of the authenticated coordinator only ever mention authorized nodes.\<close>

definition auth_inv :: "'vk authorizations \<Rightarrow> 'vk coordinator \<Rightarrow> bool" where
  "auth_inv A co \<longleftrightarrow> co_authorizations co = A
     \<and> (\<forall>n e. ch_get co (n, e) \<noteq> None \<longrightarrow> auth_get A n \<noteq> None)
     \<and> (\<forall>n. member_get co n \<noteq> None \<longrightarrow> auth_get A n \<noteq> None)"

lemma auth_inv_pruned: "auth_inv A co \<Longrightarrow> auth_inv A (remove_expired_coordinator now co)"
  by (fastforce simp: auth_inv_def dest: pruned_sub)

lemma auth_inv_put:
  "auth_inv A co \<Longrightarrow> auth_get A n \<noteq> None \<Longrightarrow> auth_inv A (ch_put (n, e) c u co)"
  "auth_inv A co \<Longrightarrow> auth_get A n \<noteq> None \<Longrightarrow> auth_inv A (member_put n e u co)"
  "auth_inv A co \<Longrightarrow> auth_inv A (ch_remove (n, e) co)"
  unfolding auth_inv_def
  by (simp_all add: pending.get_put members.get_put pending.get_remove del: not_None_eq) metis+

lemma auth_inv_do: "auth_inv A co \<Longrightarrow> co_do E call co = Returns (co', reply) \<Longrightarrow> auth_inv A co'"
proof -
  assume inv: "auth_inv A co" and exec: "co_do E call co = Returns (co', reply)"
  have A: "co_authorizations co = A" using inv by (simp add: auth_inv_def)
  note pruned = auth_inv_pruned [OF inv]
  from exec show ?thesis
  proof (cases rule: co_do_cases)
    case swept
    then show ?thesis using pruned by simp
  next
    case (issued n source now c)
    then show ?thesis using pruned [of now] A by (simp add: auth_inv_put)
  next
    case (rejected n lease c sg source now)
    then show ?thesis using pruned [of now] by (simp add: auth_inv_put)
  next
    case (enrolled n lease c sg source now until)
    then have "auth_get A n \<noteq> None" using A by (auto simp: accepts_def)
    with enrolled show ?thesis using pruned [of now] by (simp add: auth_inv_put)
  qed
qed

interpretation auth_coordinator: service "auth_coordinator_step E" "auth_inv A" "replies_to AUTH_PROTOCOL_VERSION"
  for E :: "('vk, 'sig) ed25519" and A :: "'vk authorizations"
proof
  fix co co' :: "'vk coordinator" and n :: auth_net_step and out
  assume inv: "auth_inv A co" and "auth_coordinator_step E co n = Returns (co', out)"
  then obtain payload source response where rec: "ns_received n = Inr (payload, source)"
    and answer: "auth_coordinator_answer E (recv_into (MAX_DATAGRAM_BYTES + 1) payload) source (ns_now n)
            (ns_random n) co = Returns (co', response)"
    and out: "out = (as_bytes (encode_auth_response response), source)"
    by (auto simp: auth_coordinator_step_Returns)
  show "auth_inv A co'"
    using auth_coordinator_answer_cases [OF answer] inv auth_inv_do by blast
  show "replies_to AUTH_PROTOCOL_VERSION n out"
    using rec out encode_auth_response_opens [of response] by (auto simp: replies_to_def)
qed

lemma auth_inv_new [simp]: "auth_inv A (new_coordinator A)"
  by (simp add: auth_inv_def)

section \<open>Clients against servers\<close>

text \<open>A printed text of at most 1024 ASCII bytes arrives whole.\<close>

lemma text_received [wire_simps]:
  "ascii_text s \<Longrightarrow> length s \<le> MAX_DATAGRAM_BYTES \<Longrightarrow>
     from_utf8 (recv_into MAX_DATAGRAM_BYTES (as_bytes s)) = Some s"
  by (simp add: recv_into_def from_utf8_ascii)

lemma request_received:
  "length s \<le> MAX_DATAGRAM_BYTES \<Longrightarrow> recv_into (MAX_DATAGRAM_BYTES + 1) (as_bytes s) = as_bytes s"
  by (simp add: recv_into_def)

lemma lease_digits: "lease_ok lease \<Longrightarrow> length (decimal (as_secs lease)) \<le> 3"
proof -
  assume "lease_ok lease"
  then have "as_secs lease < 10 ^ 3" by (auto simp: lease_ok_def MAX_LEASE_SECONDS_def)
  then show ?thesis by (rule decimal_length) simp
qed

lemma auth_texts_fit:
  assumes "auth_request_ok E q"
  shows "length (auth_request_text E q) \<le> MAX_DATAGRAM_BYTES"
  using assms
proof (cases q)
  case (AuthRegister n lease c sg)
  with assms valid_node_id_length [of n] lease_digits [of lease] show ?thesis
    by (simp add: signed_register_text_def AUTH_PROTOCOL_VERSION_def MAX_DATAGRAM_BYTES_def
        CHALLENGE_BYTES_def wire_signature_def)
next
  case (AuthChallenge n)
  with assms valid_node_id_length [of n] show ?thesis
    by (simp add: challenge_text_def AUTH_PROTOCOL_VERSION_def MAX_DATAGRAM_BYTES_def)
next
  case (AuthLookup n)
  with assms valid_node_id_length [of n] show ?thesis
    by (simp add: auth_lookup_text_def AUTH_PROTOCOL_VERSION_def MAX_DATAGRAM_BYTES_def)
qed

lemma auth_replies_fit:
  "valid_node_id n \<Longrightarrow> length c = CHALLENGE_BYTES \<Longrightarrow>
     length (encode_auth_response (AuthChallengeIssued n c)) \<le> MAX_DATAGRAM_BYTES"
  "valid_node_id n \<Longrightarrow> lease_ok lease \<Longrightarrow>
     length (encode_auth_response (AuthRegistered n source lease)) \<le> MAX_DATAGRAM_BYTES"
  using valid_node_id_length [of n] lease_digits [of lease] show_socket_addr_length [of source]
  by (simp_all add: AUTH_PROTOCOL_VERSION_def MAX_DATAGRAM_BYTES_def CHALLENGE_BYTES_def)

lemma auth_step_request:
  assumes "auth_request_ok E q"
    and "co_do E (call_of source now c q) co = Returns (co', response)"
  shows "auth_coordinator_step E co \<lparr>ns_received = Inr (as_bytes (auth_request_text E q), source),
           ns_now = now, ns_send_error = None, ns_random = Inr c\<rparr>
         = Returns (co', as_bytes (encode_auth_response response), source)"
proof -
  note fit = auth_texts_fit [OF assms(1)]
  have "auth_coordinator_answer E (as_bytes (auth_request_text E q)) source now (Inr c) co
      = Returns (co', response)"
    using auth_answer_call [of "as_bytes (auth_request_text E q)" E q source now c co] fit assms
    by (simp add: parse_auth_request_text)
  then show ?thesis
    using fit by (simp add: auth_coordinator_step_def Let_def request_received [unfolded Suc_eq_plus1 [symmetric]])
qed

text \<open>Traffic from other endpoints leaves a pending challenge alone.\<close>

definition from_others :: "socket_addr \<Rightarrow> auth_net_step \<Rightarrow> bool" where
  "from_others e n \<longleftrightarrow> (case ns_received n of Inr (payload, source) \<Rightarrow> source \<noteq> e | Inl _ \<Rightarrow> True)"

lemma other_step_keeps:
  assumes step: "auth_coordinator_step E co i = Returns (co', out)" and other: "from_others e i"
    and pend: "ch_get co (n, e) = Some (c, until)" and live: "ns_now i < until"
  shows "ch_get co' (n, e) = Some (c, until)"
proof -
  from step obtain payload source response where rec: "ns_received i = Inr (payload, source)"
    and answer: "auth_coordinator_answer E (recv_into (MAX_DATAGRAM_BYTES + 1) payload) source (ns_now i)
            (ns_random i) co = Returns (co', response)"
    by (auto simp: auth_coordinator_step_Returns)
  have source: "source \<noteq> e" using rec other by (simp add: from_others_def)
  from auth_coordinator_answer_cases [OF answer] show ?thesis
  proof
    assume "co' = co \<and> (\<exists>m. response = AuthError m)"
    with pend show ?thesis by simp
  next
    assume "\<exists>q d. length (recv_into (MAX_DATAGRAM_BYTES + 1) payload) \<le> MAX_DATAGRAM_BYTES
        \<and> parse_auth_request E (recv_into (MAX_DATAGRAM_BYTES + 1) payload) = Ok q
        \<and> co_do E (call_of source (ns_now i) d q) co = Returns (co', response)"
    then obtain q d where exec: "co_do E (call_of source (ns_now i) d q) co = Returns (co', response)" by blast
    have time: "co_time (call_of source (ns_now i) d q) = ns_now i" by (cases q) simp_all
    have kept: "ch_get (remove_expired_coordinator (ns_now i) co) (n, e) = Some (c, until)"
      using pend live by (simp add: ch_get_pruned)
    have source': "m = source \<and> t = ns_now i" if "call_of source (ns_now i) d q = Issue k m t x
        \<or> call_of source (ns_now i) d q = Enrol k l y z m t" for k l m t x y z
      using that by (cases q) auto
    from exec show ?thesis
    proof (cases rule: co_do_cases)
      case swept
      then show ?thesis using kept time by simp
    next
      case (issued n' source' now c')
      then show ?thesis using kept source source' by (auto simp: pending.get_put)
    next
      case (rejected n' lease c' sg source' now)
      then show ?thesis using kept source source' by (auto simp: pending.get_remove)
    next
      case (enrolled n' lease c' sg source' now u)
      then show ?thesis using kept source source' by (auto simp: pending.get_remove)
    qed
  qed
qed

lemma others_keep:
  assumes "serve (auth_coordinator_step E) co others = (co', outs, None)"
    and "list_all (from_others e) others" and "list_all (\<lambda>i. ns_now i < until) others"
    and "ch_get co (n, e) = Some (c, until)"
  shows "ch_get co' (n, e) = Some (c, until)"
proof -
  have "list_all (\<lambda>i. from_others e i \<and> ns_now i < until) others"
    using assms(2,3) by (simp add: list_all_iff)
  from serve_keeps [OF assms(1) this, of "\<lambda>co. ch_get co (n, e) = Some (c, until)"] assms(4)
  show ?thesis by (blast intro: other_step_keeps)
qed

lemma auth_step_authorizations:
  assumes "auth_coordinator_step E co n = Returns (co', out)"
  shows "co_authorizations co' = co_authorizations co"
proof -
  from assms obtain received source response where
    "auth_coordinator_answer E received source (ns_now n) (ns_random n) co = Returns (co', response)"
    by (auto simp: auth_coordinator_step_Returns)
  then show ?thesis using auth_coordinator_answer_cases co_do_authorizations by blast
qed

lemma serve_authorizations:
  assumes "serve (auth_coordinator_step E) co ns = (co', outs, p)"
  shows "co_authorizations co' = co_authorizations co"
  using serve_keeps [OF assms, of "\<lambda>_. True" "\<lambda>x. co_authorizations x = co_authorizations co"]
  by (simp add: auth_step_authorizations list_all_iff)

lemma exchange_good:
  "ascii_text reply \<Longrightarrow> length reply \<le> MAX_DATAGRAM_BYTES \<Longrightarrow>
     exchange (good_socket (\<lambda>_. as_bytes reply)) request = ([as_bytes request], Returns reply)"
  by (simp add: exchange_def from_utf8_ascii)

lemma register_authenticated_good:
  assumes "load_identity path file = Ok i" and "id_node_id i = n"
    and "parse_lease (decimal secs) = Ok lease" and "lease_ok lease" and "length c = CHALLENGE_BYTES"
    and "replies 0 = as_bytes (encode_auth_response (AuthChallengeIssued n c))"
    and "replies 1 = as_bytes (encode_auth_response (AuthRegistered n source lease))"
  shows "register_authenticated E (good_socket replies) n secs path file =
     ([as_bytes (challenge_text n),
       as_bytes (signed_register_text E n lease c
         (ed_sign E (id_signing_key i) (registration_signing_message n lease c)))],
      Returns (encode_auth_response (AuthRegistered n source lease)))"
proof -
  have n: "valid_node_id n" using load_identity_valid [OF assms(1)] assms(2) by simp
  have ascii: "ascii_text (encode_auth_response (AuthChallengeIssued n c))"
    "ascii_text (encode_auth_response (AuthRegistered n source lease))"
    using n by simp_all
  have first: "receive_connected (Inr (replies 0)) d = Returns (encode_auth_response (AuthChallengeIssued n c))" for d
    unfolding assms(6) receive_connected_def or_panic_simps out_bind_simps
    by (subst text_received [OF ascii(1) auth_replies_fit(1) [OF n assms(5)]]) simp
  have second: "receive_connected (Inr (replies 1)) d = Returns (encode_auth_response (AuthRegistered n source lease))" for d
    unfolding assms(7) receive_connected_def or_panic_simps out_bind_simps
    by (subst text_received [OF ascii(2) auth_replies_fit(2) [OF n assms(4)]]) simp
  have parsed: "parse_challenge_response (encode_auth_response (AuthChallengeIssued n c)) n = Ok c"
    by (rule parse_challenge_reply [OF n assms(5)])
  show ?thesis
    using first second parsed assms(1-3)
    by (simp add: register_authenticated_def Let_def identity_sign_def
        del: encode_auth_response.simps)
qed

section \<open>Servers survive any traffic\<close>

text \<open>The socket works and the clock is not at its end; the datagram is arbitrary.\<close>

definition plain_traffic :: "'a net_step_scheme \<Rightarrow> bool" where
  "plain_traffic n \<longleftrightarrow> (\<exists>payload source. ns_received n = Inr (payload, source))
     \<and> ns_send_error n = None \<and> clock_in_range (ns_now n)"

lemma coordinator_answer_total:
  assumes "clock_in_range now"
  shows "\<exists>r' response. coordinator_answer bs source now r = Returns (r', response)"
proof (cases "parse_request bs")
  case (Inl m)
  then show ?thesis by (simp add: coordinator_answer_def)
next
  case (Inr q)
  with handle_returns [OF requests.dec_valid [OF Inr] assms] show ?thesis by (simp add: coordinator_answer_def)
qed

lemma coordinator_step_total:
  assumes "plain_traffic n"
  shows "\<exists>r' out. coordinator_step r n = Returns (r', out)"
proof -
  obtain payload source where rec: "ns_received n = Inr (payload, source)"
    using assms by (auto simp: plain_traffic_def)
  obtain r' response where
    "coordinator_answer (recv_into (MAX_DATAGRAM_BYTES + 1) payload) source (ns_now n) r = Returns (r', response)"
    using coordinator_answer_total assms by (metis plain_traffic_def)
  then have "coordinator_step r n = Returns (r', as_bytes (encode_response response), source)"
    using rec assms unfolding coordinator_step_Returns plain_traffic_def by blast
  then show ?thesis by blast
qed

lemma call_of_ok: "auth_request_ok E q \<Longrightarrow> clock_in_range now \<Longrightarrow> call_ok (call_of source now c q)"
  by (cases q) simp_all

lemma auth_coordinator_answer_total:
  assumes "signature_scheme_ok E" and "clock_in_range now"
  shows "\<exists>co' response. auth_coordinator_answer E bs source now random co = Returns (co', response)"
proof (cases "parse_auth_request E bs")
  case (Inl m)
  then show ?thesis by (simp add: auth_coordinator_answer_def)
next
  case (Inr q)
  have "auth_request_ok E q" by (rule codec.dec_valid [OF auth_requests_codec [OF assms(1)] Inr])
  then have ok: "call_ok (call_of source now c q)" for c using assms(2) by (rule call_of_ok)
  then obtain co' response where exec: "co_do E (call_of source now (case random of Inr c \<Rightarrow> c | Inl _ \<Rightarrow> []) q) co
      = Returns (co', response)" using co_do_returns by blast
  show ?thesis
  proof (cases random)
    case (Inl e)
    with Inr exec show ?thesis by (cases q) (simp_all add: auth_coordinator_answer_def)
  next
    case random: (Inr c)
    with Inr exec show ?thesis by (cases q) (simp_all add: auth_coordinator_answer_def)
  qed
qed

lemma auth_coordinator_step_total:
  assumes "signature_scheme_ok E" and "plain_traffic n"
  shows "\<exists>co' out. auth_coordinator_step E co n = Returns (co', out)"
proof -
  obtain payload source where rec: "ns_received n = Inr (payload, source)"
    using assms(2) by (auto simp: plain_traffic_def)
  obtain co' response where "auth_coordinator_answer E (recv_into (MAX_DATAGRAM_BYTES + 1) payload) source
      (ns_now n) (ns_random n) co = Returns (co', response)"
    using auth_coordinator_answer_total [OF assms(1)] assms(2) by (metis plain_traffic_def)
  then have "auth_coordinator_step E co n = Returns (co', as_bytes (encode_auth_response response), source)"
    using rec assms(2) unfolding auth_coordinator_step_Returns plain_traffic_def by blast
  then show ?thesis by blast
qed

lemma serve_total:
  assumes "\<And>s i. i \<in> set is \<Longrightarrow> \<exists>s' out. step s i = Returns (s', out)"
  shows "\<exists>t outs. serve step s is = (t, outs, None) \<and> length outs = length is"
  using assms
proof (induction "is" arbitrary: s)
  case (Cons i "is")
  obtain s' out where "step s i = Returns (s', out)" using Cons.prems [of i s] by auto
  moreover obtain t outs where "serve step s' is = (t, outs, None)" "length outs = length is"
    using Cons.IH [of s'] Cons.prems by auto
  ultimately show ?case by simp
qed simp

lemma registration_of_honest_node:
  assumes E: "signature_scheme_ok E" and id: "load_identity path contents = Ok i"
    and key: "auth_get (co_authorizations co) (id_node_id i) = Some (ed_verifying_key E (id_signing_key i))"
    and secs: "1 \<le> secs" "secs \<le> 300" and c: "length c = CHALLENGE_BYTES"
    and t1: "clock_in_range t1" and t2: "clock_in_range t2" "t2 < t1 + CHALLENGE_LIFETIME"
  shows "\<exists>d1 d2 r1 r2 co1.
     register_authenticated E (good_socket (\<lambda>k. if k = 0 then r1 else r2)) (id_node_id i) secs path contents
       = ([d1, d2], Returns (encode_auth_response (AuthRegistered (id_node_id i) source (from_secs secs))))
     \<and> auth_coordinator_step E co \<lparr>ns_received = Inr (d1, source), ns_now = t1, ns_send_error = None,
         ns_random = Inr c\<rparr> = Returns (co1, r1, source)
     \<and> (\<forall>others co2 outs random. serve (auth_coordinator_step E) co1 others = (co2, outs, None) \<longrightarrow>
         list_all (from_others source) others \<longrightarrow> list_all (\<lambda>n. ns_now n < t1 + CHALLENGE_LIFETIME) others \<longrightarrow>
         (\<exists>co3. auth_coordinator_step E co2 \<lparr>ns_received = Inr (d2, source), ns_now = t2, ns_send_error = None,
             ns_random = Inr random\<rparr> = Returns (co3, r2, source)
           \<and> member_get co3 (id_node_id i) = Some (source, t2 + from_secs secs)))"
proof -
  let ?n = "id_node_id i" and ?lease = "from_secs secs" and ?until = "t1 + CHALLENGE_LIFETIME"
  let ?A = "co_authorizations co"
  define sg where "sg = ed_sign E (id_signing_key i) (registration_signing_message ?n ?lease c)"
  let ?r1 = "as_bytes (encode_auth_response (AuthChallengeIssued ?n c))"
  let ?r2 = "as_bytes (encode_auth_response (AuthRegistered ?n source ?lease))"
  let ?d1 = "as_bytes (challenge_text ?n)" and ?d2 = "as_bytes (signed_register_text E ?n ?lease c sg)"
  have n: "valid_node_id ?n" using load_identity_valid [OF id] by simp
  have lease: "lease_ok ?lease" using secs by (auto simp: lease_ok_def MAX_LEASE_SECONDS_def)
  have q1: "auth_request_ok E (AuthChallenge ?n)" using n by simp
  have q2: "auth_request_ok E (AuthRegister ?n ?lease c sg)" using n lease c by (simp add: sg_def sign_wire [OF E])
  have acc: "accepts E ?A ?n ?lease c sg" using key by (simp add: accepts_def sg_def sign_verifies [OF E])
  define co1 where "co1 = ch_put (?n, source) c ?until (remove_expired_coordinator t1 co)"
  have "co_do E (call_of source t1 c (AuthChallenge ?n)) co = Returns (co1, AuthChallengeIssued ?n c)"
    using key challenge_in_range [OF t1] by (simp add: issue_challenge_eq co1_def Let_def checked_add_instant_def)
  from auth_step_request [OF q1 this] have step1: "auth_coordinator_step E co \<lparr>ns_received = Inr (?d1, source),
      ns_now = t1, ns_send_error = None, ns_random = Inr c\<rparr> = Returns (co1, ?r1, source)" by simp
  have "parse_lease (decimal (as_secs ?lease)) = Ok ?lease" using lease by (rule parse_lease_decimal)
  then have pl: "parse_lease (decimal secs) = Ok ?lease" by simp
  have client: "register_authenticated E (good_socket (\<lambda>k. if k = 0 then ?r1 else ?r2)) ?n secs path contents
       = ([?d1, ?d2], Returns (encode_auth_response (AuthRegistered ?n source ?lease)))"
    unfolding sg_def by (rule register_authenticated_good [OF id refl pl lease c]) simp_all
  have step2: "\<exists>co3. auth_coordinator_step E co2 \<lparr>ns_received = Inr (?d2, source), ns_now = t2, ns_send_error = None,
             ns_random = Inr random\<rparr> = Returns (co3, ?r2, source)
           \<and> member_get co3 ?n = Some (source, t2 + ?lease)"
    if run: "serve (auth_coordinator_step E) co1 others = (co2, outs, None)"
      and others: "list_all (from_others source) others" "list_all (\<lambda>n. ns_now n < ?until) others"
    for others co2 outs random
  proof -
    have "ch_get co1 (?n, source) = Some (c, ?until)" by (simp add: co1_def pending.get_put)
    from others_keep [OF run others this] have pend: "ch_get co2 (?n, source) = Some (c, ?until)" .
    define B where "B = ?A"
    have inv1: "co_authorizations co1 = B" by (simp add: co1_def B_def)
    have A2: "co_authorizations co2 = B" using serve_authorizations [OF run] inv1 by simp
    have "\<exists>co3. co_do E (call_of source t2 random (AuthRegister ?n ?lease c sg)) co2
        = Returns (co3, AuthRegistered ?n source ?lease) \<and> member_get co3 ?n = Some (source, t2 + ?lease)"
      using pend t2 acc A2 key lease_ok_in_range [OF lease t2(1)]
      by (simp add: register_node_eq Let_def ch_get_pruned checked_add_instant_def members.get_put B_def)
    then obtain co3 where exec: "co_do E (call_of source t2 random (AuthRegister ?n ?lease c sg)) co2
        = Returns (co3, AuthRegistered ?n source ?lease)" and mem: "member_get co3 ?n = Some (source, t2 + ?lease)"
      by blast
    from auth_step_request [OF q2 exec] mem show ?thesis by auto
  qed
  show ?thesis using client step1 step2 by blast
qed

lemma authenticated_lookup_good:
  assumes n: "valid_node_id n" and member: "member_get co n = Some (e, u)" "now < u"
  defines "reply \<equiv> encode_auth_response (AuthFound n e)"
  shows "lookup_authenticated (good_socket (\<lambda>_. as_bytes reply)) n = ([as_bytes (auth_lookup_text n)], Returns reply)"
    and "auth_coordinator_step E co \<lparr>ns_received = Inr (as_bytes (auth_lookup_text n), client), ns_now = now,
       ns_send_error = None, ns_random = Inr c\<rparr>
     = Returns (remove_expired_coordinator now co, as_bytes reply, client)"
proof -
  have "length reply \<le> MAX_DATAGRAM_BYTES"
    using valid_node_id_length [OF n] show_socket_addr_length [of e]
    by (simp add: reply_def AUTH_PROTOCOL_VERSION_def MAX_DATAGRAM_BYTES_def)
  moreover have "ascii_text reply" using n by (simp add: reply_def)
  ultimately show "lookup_authenticated (good_socket (\<lambda>_. as_bytes reply)) n
      = ([as_bytes (auth_lookup_text n)], Returns reply)"
    unfolding lookup_authenticated_def by (intro exchange_good)
  have q: "auth_request_ok E (AuthLookup n)" using n by simp
  have found: "co_do E (call_of client now c (AuthLookup n)) co
      = Returns (remove_expired_coordinator now co, AuthFound n e)"
    using member by (simp add: lookup_node_eq Let_def members.get_prune)
  show "auth_coordinator_step E co \<lparr>ns_received = Inr (as_bytes (auth_lookup_text n), client), ns_now = now,
       ns_send_error = None, ns_random = Inr c\<rparr>
     = Returns (remove_expired_coordinator now co, as_bytes reply, client)"
    using auth_step_request [OF q found] by (simp add: reply_def del: encode_auth_response.simps)
qed

section \<open>Properties\<close>

text \<open>
  C23.  The learning coordinator survives any traffic: as long as its socket works and the clock
  is 300 seconds from its end, no sequence of datagrams, whatever their bytes, stops the server,
  and each is answered with one \<open>MESHLET/1\<close> reply to the endpoint it came from.
\<close>

theorem coordinator_survives:
  assumes "list_all plain_traffic ns"
  shows "\<exists>sent. run_server None ns = (sent, Blocked) \<and> list_all2 (replies_to PROTOCOL_VERSION) ns sent"
proof -
  obtain r sent where run: "serve coordinator_step default_registry ns = (r, sent, None)"
    and len: "length sent = length ns"
    using serve_total [of ns coordinator_step default_registry] coordinator_step_total assms
    by (auto simp: list_all_iff)
  have "list_all2 (replies_to PROTOCOL_VERSION) ns sent"
    using coordinator.serve_good [OF registry_inv_default run] len by simp
  then show ?thesis by (simp add: run_server_def run)
qed

theorem coordinator_survives_witness:
  "\<exists>sent. run_server None [\<lparr>ns_received = Inr ([0xFF, 0xFE], sample_source), ns_now = 0, ns_send_error = None\<rparr>]
     = (sent, Blocked) \<and> length sent = 1"
proof -
  have "list_all plain_traffic [\<lparr>ns_received = Inr ([0xFF, 0xFE], sample_source), ns_now = 0, ns_send_error = None\<rparr>]"
    by (simp add: plain_traffic_def clock_in_range_def instant_end_def from_secs_def MAX_LEASE_SECONDS_def
        nanos_per_sec_def)
  from coordinator_survives [OF this] show ?thesis by (auto dest: list_all2_lengthD)
qed

text \<open>
  C22.  The same for the authenticated coordinator once its authorization file is loaded, also
  when the operating system fails to produce random challenges.
\<close>

theorem auth_coordinator_survives:
  assumes "signature_scheme_ok E" and "load_authorizations E path contents = Ok A"
    and "list_all plain_traffic ns"
  shows "\<exists>sent. run_authenticated_server E None path contents ns = (sent, Blocked)
     \<and> list_all2 (replies_to AUTH_PROTOCOL_VERSION) ns sent"
proof -
  obtain co sent where run: "serve (auth_coordinator_step E) (new_coordinator A) ns = (co, sent, None)"
    and len: "length sent = length ns"
    using serve_total [of ns "auth_coordinator_step E" "new_coordinator A"]
      auth_coordinator_step_total [OF assms(1)] assms(3)
    by (auto simp: list_all_iff)
  have "list_all2 (replies_to AUTH_PROTOCOL_VERSION) ns sent"
    using auth_coordinator.serve_good [OF auth_inv_new run] len by simp
  then show ?thesis by (simp add: run_authenticated_server_def assms(2) run)
qed

theorem auth_coordinator_survives_witness:
  "\<exists>sent. run_authenticated_server sample_ed25519 None ''keys'' (Inr sample_authorization_file)
     [\<lparr>ns_received = Inr ([0xFF, 0xFE], sample_source), ns_now = 0, ns_send_error = None, ns_random = Inl ''none''\<rparr>]
     = (sent, Blocked) \<and> length sent = 1"
proof -
  have "list_all plain_traffic [\<lparr>ns_received = Inr ([0xFF, 0xFE], sample_source), ns_now = 0,
      ns_send_error = None, ns_random = Inl ''none''\<rparr>]"
    by (simp add: plain_traffic_def clock_in_range_def instant_end_def from_secs_def MAX_LEASE_SECONDS_def
        nanos_per_sec_def)
  from auth_coordinator_survives [OF sample_ed25519_ok sample_authorization_loaded [of "''keys''"] this]
  show ?thesis by (auto dest: list_all2_lengthD)
qed

text \<open>
  C19.  Whatever traffic arrives, the authenticated coordinator holds challenges and
  registrations only for nodes of its authorization set, which it never changes.
\<close>

theorem tables_hold_authorized_nodes:
  assumes "serve (auth_coordinator_step E) (new_coordinator A) ns = (co, sent, p)"
  shows "co_authorizations co = A
     \<and> (\<forall>n e. fmlookup (co_challenges co) (n, e) \<noteq> None \<longrightarrow> auth_get A n \<noteq> None)
     \<and> (\<forall>n. fmlookup (registrations (co_registry co)) n \<noteq> None \<longrightarrow> auth_get A n \<noteq> None)"
  using auth_coordinator.serve_inv [OF auth_inv_new assms]
  by (simp add: auth_inv_def ch_get_def member_get_def reg_get_def del: not_None_eq)

theorem tables_hold_authorized_nodes_witness:
  "co_authorizations (fst (serve (auth_coordinator_step sample_ed25519) (new_coordinator sample_authorizations)
     [\<lparr>ns_received = Inr ([], sample_source), ns_now = 0, ns_send_error = None, ns_random = Inl []\<rparr>]))
   = sample_authorizations"
proof -
  obtain co sent p where run: "serve (auth_coordinator_step sample_ed25519) (new_coordinator sample_authorizations)
     [\<lparr>ns_received = Inr ([], sample_source), ns_now = 0, ns_send_error = None, ns_random = Inl []\<rparr>] = (co, sent, p)"
    by (metis prod_cases3)
  then show ?thesis using tables_hold_authorized_nodes [OF run] by simp
qed

text \<open>
  An authorized node registers: the client's two datagrams, given to a coordinator in any
  state that trusts the node's key, with any traffic from other endpoints between them, lead the
  client to print the confirmation and the coordinator to record the client's observed endpoint
  until the lease ends, provided the second datagram arrives within 10 seconds of the first.
\<close>

theorem honest_registration:
  assumes "signature_scheme_ok E" and id: "load_identity path contents = Ok i"
    and key: "auth_get (co_authorizations co) (id_node_id i) = Some (ed_verifying_key E (id_signing_key i))"
    and secs: "1 \<le> secs" "secs \<le> 300" and c: "length c = CHALLENGE_BYTES"
    and t1: "clock_in_range t1" and t2: "clock_in_range t2" "t2 < t1 + CHALLENGE_LIFETIME"
  shows "\<exists>d1 d2 r1 r2 co1.
     register_authenticated E (good_socket (\<lambda>k. if k = 0 then r1 else r2)) (id_node_id i) secs path contents
       = ([d1, d2], Returns (encode_auth_response (AuthRegistered (id_node_id i) source (from_secs secs))))
     \<and> auth_coordinator_step E co \<lparr>ns_received = Inr (d1, source), ns_now = t1, ns_send_error = None,
         ns_random = Inr c\<rparr> = Returns (co1, r1, source)
     \<and> (\<forall>others co2 outs random. serve (auth_coordinator_step E) co1 others = (co2, outs, None) \<longrightarrow>
         list_all (from_others source) others \<longrightarrow> list_all (\<lambda>n. ns_now n < t1 + CHALLENGE_LIFETIME) others \<longrightarrow>
         (\<exists>co3. auth_coordinator_step E co2 \<lparr>ns_received = Inr (d2, source), ns_now = t2, ns_send_error = None,
             ns_random = Inr random\<rparr> = Returns (co3, r2, source)
           \<and> member_get co3 (id_node_id i) = Some (source, t2 + from_secs secs)))"
  by (rule registration_of_honest_node [OF assms])

theorem honest_registration_witness:
  "\<exists>d1 d2 r1 r2 co1 co3.
     register_authenticated sample_ed25519 (good_socket (\<lambda>k. if k = 0 then r1 else r2)) ''mesh-a'' 30 ''id''
         (Inr sample_identity_file)
       = ([d1, d2], Returns (encode_auth_response (AuthRegistered ''mesh-a'' sample_source (from_secs 30))))
     \<and> auth_coordinator_step sample_ed25519 (new_coordinator sample_authorizations)
         \<lparr>ns_received = Inr (d1, sample_source), ns_now = 0, ns_send_error = None, ns_random = Inr sample_challenge\<rparr>
         = Returns (co1, r1, sample_source)
     \<and> auth_coordinator_step sample_ed25519 co1
         \<lparr>ns_received = Inr (d2, sample_source), ns_now = 1, ns_send_error = None, ns_random = Inr []\<rparr>
         = Returns (co3, r2, sample_source)
     \<and> member_get co3 ''mesh-a'' = Some (sample_source, 1 + from_secs 30)"
proof -
  let ?i = "\<lparr>id_node_id = ''mesh-a'', id_signing_key = sample_secret\<rparr>"
  have range: "clock_in_range 0" "clock_in_range 1" "1 < 0 + CHALLENGE_LIFETIME"
    by (simp_all add: clock_in_range_def CHALLENGE_LIFETIME_def instant_end_def from_secs_def
        MAX_LEASE_SECONDS_def nanos_per_sec_def)
  have key: "auth_get (co_authorizations (new_coordinator sample_authorizations)) (id_node_id ?i)
      = Some (ed_verifying_key sample_ed25519 (id_signing_key ?i))" by simp
  have len: "length sample_challenge = CHALLENGE_BYTES" by (simp add: sample_challenge_def CHALLENGE_BYTES_def)
  have secs: "1 \<le> (30 :: nat)" "(30 :: nat) \<le> 300" by simp_all
  note reg = honest_registration [OF sample_ed25519_ok sample_identity_loaded [of "''id''"] key secs len range,
      where source = sample_source, unfolded identity.select_convs add_0]
  from reg obtain d1 d2 r1 r2 co1 where run:
    "register_authenticated sample_ed25519 (good_socket (\<lambda>k. if k = 0 then r1 else r2)) ''mesh-a'' 30 ''id''
         (Inr sample_identity_file)
       = ([d1, d2], Returns (encode_auth_response (AuthRegistered ''mesh-a'' sample_source (from_secs 30))))"
    "auth_coordinator_step sample_ed25519 (new_coordinator sample_authorizations)
         \<lparr>ns_received = Inr (d1, sample_source), ns_now = 0, ns_send_error = None, ns_random = Inr sample_challenge\<rparr>
         = Returns (co1, r1, sample_source)"
    and rest: "\<forall>others co2 outs random. serve (auth_coordinator_step sample_ed25519) co1 others = (co2, outs, None) \<longrightarrow>
         list_all (from_others sample_source) others \<longrightarrow> list_all (\<lambda>n. ns_now n < CHALLENGE_LIFETIME) others \<longrightarrow>
         (\<exists>co3. auth_coordinator_step sample_ed25519 co2 \<lparr>ns_received = Inr (d2, sample_source), ns_now = 1,
             ns_send_error = None, ns_random = Inr random\<rparr> = Returns (co3, r2, sample_source)
           \<and> member_get co3 ''mesh-a'' = Some (sample_source, 1 + from_secs 30))" by blast
  have "serve (auth_coordinator_step sample_ed25519) co1 [] = (co1, [], None)" by simp
  with rest obtain co3 where "auth_coordinator_step sample_ed25519 co1
      \<lparr>ns_received = Inr (d2, sample_source), ns_now = 1, ns_send_error = None, ns_random = Inr []\<rparr>
      = Returns (co3, r2, sample_source)" "member_get co3 ''mesh-a'' = Some (sample_source, 1 + from_secs 30)"
    by (metis list.pred_inject(1))
  with run show ?thesis by blast
qed

end
