(* ===== verification/Coordinator_Routes.thy ===== *)
theory Coordinator_Routes
  imports Coordinator_Server
begin

text \<open>
  Routes through the learning coordinator of \<open>src/coordinator.rs\<close>, from the client that
  advertises a prefix to the client that looks an address up: \<open>advertise_route\<close> and
  \<open>route_lookup\<close> run against the body of \<open>run_server\<close>, with any other traffic in
  between that does not displace the route.
\<close>

section \<open>One request of a client\<close>

lemma show_prefix_length: "wf_prefix p \<Longrightarrow> length (show_prefix p) \<le> 19"
proof -
  assume "wf_prefix p"
  then have "length (decimal (unat (pfx_length p))) \<le> 3"
    by (intro decimal_length_octet) (simp add: wf_prefix_def word_le_nat_alt)
  then show ?thesis using show_ipv4_length [of "pfx_network p"] by (simp add: show_prefix_def)
qed

lemma route_texts_fit:
  "valid_node_id n \<Longrightarrow> wf_prefix p \<Longrightarrow> lease_ok lease \<Longrightarrow>
     length (advertise_route_text n p lease) \<le> MAX_DATAGRAM_BYTES"
  "length (route_lookup_text d) \<le> MAX_DATAGRAM_BYTES"
  using valid_node_id_length [of n] show_prefix_length [of p] lease_digits [of lease] show_ipv4_length [of d]
  by (simp_all add: advertise_route_text_def route_lookup_text_def PROTOCOL_VERSION_def MAX_DATAGRAM_BYTES_def)

lemma route_replies_fit:
  "valid_node_id n \<Longrightarrow> wf_prefix p \<Longrightarrow> lease_ok lease \<Longrightarrow>
     length (encode_response (RouteAdvertised n p lease)) \<le> MAX_DATAGRAM_BYTES"
  "valid_node_id n \<Longrightarrow> wf_prefix p \<Longrightarrow>
     length (encode_response (RouteFound d p n)) \<le> MAX_DATAGRAM_BYTES"
  using valid_node_id_length [of n] show_prefix_length [of p] lease_digits [of lease] show_ipv4_length [of d]
  by (simp_all add: PROTOCOL_VERSION_def MAX_DATAGRAM_BYTES_def)

lemma step_request:
  assumes "request_ok q" and "length (request_text q) \<le> MAX_DATAGRAM_BYTES"
    and "handle q source now r = Returns (r', response)"
  shows "coordinator_step r \<lparr>ns_received = Inr (as_bytes (request_text q), source), ns_now = now,
           ns_send_error = None\<rparr>
         = Returns (r', as_bytes (encode_response response), source)"
  using assms
  by (simp add: coordinator_step_def coordinator_answer_def request_received [unfolded Suc_eq_plus1 [symmetric]]
      parse_request_text)

section \<open>Traffic that does not displace a route\<close>

definition leaves_route :: "ipv4_addr \<Rightarrow> string \<Rightarrow> ipv4_prefix \<Rightarrow> net_step \<Rightarrow> bool" where
  "leaves_route d n p i \<longleftrightarrow>
     (case ns_received i of
        Inl _ \<Rightarrow> True
      | Inr (payload, _) \<Rightarrow>
          (case parse_request (recv_into (MAX_DATAGRAM_BYTES + 1) payload) of
             Ok (AdvertiseRoute m q _) \<Rightarrow> yields_to d n p m q
           | _ \<Rightarrow> True))"

lemma handle_keeps_route:
  assumes "handle q source now r = Returns (r', reply)" and "route_wins d n p e (reg_routes r)" and "now < e"
    and "case q of AdvertiseRoute m x _ \<Rightarrow> yields_to d n p m x | _ \<Rightarrow> True"
  shows "route_wins d n p e (reg_routes r')"
  using assms route_wins_prune [OF assms(2,3)]
  by (cases q) (auto simp: handle_cases Let_def lookup_route_def advertise_eq_put intro: route_wins_put_other)

lemma step_keeps_route:
  assumes step: "coordinator_step r i = Returns (r', out)" and "leaves_route d n p i \<and> ns_now i < e"
    and "route_wins d n p e (reg_routes r)"
  shows "route_wins d n p e (reg_routes r')"
proof -
  from step obtain payload source response where rec: "ns_received i = Inr (payload, source)"
    and answer: "coordinator_answer (recv_into (MAX_DATAGRAM_BYTES + 1) payload) source (ns_now i) r
            = Returns (r', response)"
    by (auto simp: coordinator_step_Returns)
  from coordinator_answer_cases [OF answer] show ?thesis
  proof
    assume "\<exists>q. request_ok q \<and> length (recv_into (MAX_DATAGRAM_BYTES + 1) payload) \<le> MAX_DATAGRAM_BYTES
        \<and> parse_request (recv_into (MAX_DATAGRAM_BYTES + 1) payload) = Ok q
        \<and> handle q source (ns_now i) r = Returns (r', response)"
    then obtain q where parsed: "parse_request (recv_into (MAX_DATAGRAM_BYTES + 1) payload) = Ok q"
      and exec: "handle q source (ns_now i) r = Returns (r', response)" by blast
    have "case q of AdvertiseRoute m x _ \<Rightarrow> yields_to d n p m x | _ \<Rightarrow> True"
      using assms(2) rec parsed by (simp add: leaves_route_def)
    with handle_keeps_route [OF exec assms(3)] assms(2) show ?thesis by blast
  qed (use assms(3) in simp)
qed

section \<open>The clients\<close>

lemma advertise_route_good:
  assumes n: "valid_node_id n" and p: "parse_prefix ptext = Ok p" and secs: "1 \<le> secs" "secs \<le> 300"
  defines "reply \<equiv> encode_response (RouteAdvertised n p (from_secs secs))"
  shows "advertise_route (good_socket (\<lambda>_. as_bytes reply)) n ptext secs
     = ([as_bytes (request_text (AdvertiseRoute n p (from_secs secs)))], Returns reply)"
proof -
  have lease: "lease_ok (from_secs secs)" using secs by (auto simp: lease_ok_def MAX_LEASE_SECONDS_def)
  have parsed: "parse_lease (decimal secs) = Ok (from_secs secs)" using parse_lease_decimal [OF lease] by simp
  have "length reply \<le> MAX_DATAGRAM_BYTES"
    unfolding reply_def by (rule route_replies_fit(1) [OF n parse_prefix_wf [OF p] lease])
  moreover have "ascii_text reply" using n by (simp add: reply_def)
  ultimately show ?thesis
    using n p parsed by (simp add: advertise_route_def exchange_good)
qed

lemma route_lookup_good:
  assumes n: "valid_node_id n" and p: "wf_prefix p" and d: "parse_ipv4_addr dtext = Some d"
  defines "reply \<equiv> encode_response (RouteFound d p n)"
  shows "route_lookup (good_socket (\<lambda>_. as_bytes reply)) dtext
     = ([as_bytes (request_text (RouteLookup d))], Returns reply)"
proof -
  have "length reply \<le> MAX_DATAGRAM_BYTES" unfolding reply_def by (rule route_replies_fit(2) [OF n p])
  moreover have "ascii_text reply" using n by (simp add: reply_def)
  ultimately show ?thesis using d by (simp add: route_lookup_def exchange_good)
qed

section \<open>Properties\<close>

text \<open>
  C10.  An advertised route is found.  A node advertises a prefix to a coordinator that holds no
  longer prefix for the destination; the client prints the confirmation, and after any traffic
  within the lease that does not advertise an equally specific route or refresh this one, a
  look-up of an address of the prefix from any endpoint prints this prefix and this node.
\<close>

theorem advertised_route_is_found:
  assumes n: "valid_node_id n" and p: "parse_prefix ptext = Ok p" and secs: "1 \<le> secs" "secs \<le> 300"
    and d: "parse_ipv4_addr dtext = Some d" "prefix_contains p d"
    and free: "not_longer d p (advertisements (reg_routes r))" and t1: "clock_in_range t1"
  shows "\<exists>advert look reply1 reply2 r1.
     advertise_route (good_socket (\<lambda>_. reply1)) n ptext secs
       = ([advert], Returns (encode_response (RouteAdvertised n p (from_secs secs))))
     \<and> coordinator_step r \<lparr>ns_received = Inr (advert, source), ns_now = t1, ns_send_error = None\<rparr>
       = Returns (r1, reply1, source)
     \<and> route_lookup (good_socket (\<lambda>_. reply2)) dtext
       = ([look], Returns (encode_response (RouteFound d p n)))
     \<and> (\<forall>others outs r2 t2 client. serve coordinator_step r1 others = (r2, outs, None) \<longrightarrow>
         list_all (\<lambda>i. leaves_route d n p i \<and> ns_now i < t1 + from_secs secs) others \<longrightarrow>
         t2 < t1 + from_secs secs \<longrightarrow>
         (\<exists>r3. coordinator_step r2 \<lparr>ns_received = Inr (look, client), ns_now = t2, ns_send_error = None\<rparr>
            = Returns (r3, reply2, client)))"
proof -
  let ?lease = "from_secs secs" and ?e = "t1 + from_secs secs"
  have wf: "wf_prefix p" by (rule parse_prefix_wf [OF p])
  have lease: "lease_ok ?lease" using secs by (auto simp: lease_ok_def MAX_LEASE_SECONDS_def)
  let ?q1 = "AdvertiseRoute n p ?lease" and ?q2 = "RouteLookup d"
  define x where "x = routes_put (n, p) () ?e (remove_expired_routes t1 (reg_routes r))"
  define r1 where "r1 = (remove_expired_registrations t1 r)\<lparr>reg_routes := x\<rparr>"
  have "handle ?q1 source t1 r = Returns (r1, RouteAdvertised n p ?lease)"
    using lease_ok_in_range [OF lease t1]
    by (simp add: handle_AdvertiseRoute advertise_eq_put checked_add_instant_ok r1_def x_def)
  then have step1: "coordinator_step r \<lparr>ns_received = Inr (as_bytes (request_text ?q1), source), ns_now = t1,
      ns_send_error = None\<rparr> = Returns (r1, as_bytes (encode_response (RouteAdvertised n p ?lease)), source)"
    using n wf lease route_texts_fit(1) [OF n wf lease] by (intro step_request) simp_all
  have wins: "route_wins d n p ?e (reg_routes r1)"
    using route_wins_put [OF d(2) free] by (simp add: r1_def x_def)
  have step2: "\<exists>r3. coordinator_step r2 \<lparr>ns_received = Inr (as_bytes (request_text ?q2), client), ns_now = t2,
      ns_send_error = None\<rparr> = Returns (r3, as_bytes (encode_response (RouteFound d p n)), client)"
    if run: "serve coordinator_step r1 others = (r2, outs, None)"
      and others: "list_all (\<lambda>i. leaves_route d n p i \<and> ns_now i < ?e) others" and t2: "t2 < ?e"
    for others outs r2 t2 client
  proof -
    have "route_wins d n p ?e (reg_routes r2)"
      using serve_keeps [OF run others, of "\<lambda>r. route_wins d n p ?e (reg_routes r)"] wins step_keeps_route by blast
    from route_wins_lookup [OF this t2]
    have "\<exists>r3. handle ?q2 client t2 r2 = Returns (r3, RouteFound d p n)" by (simp add: handle_RouteLookup)
    then show ?thesis using step_request [of ?q2] route_texts_fit(2) by auto
  qed
  show ?thesis
    using advertise_route_good [OF n p secs] route_lookup_good [OF n wf d(1)] step1 step2 by blast
qed

text \<open>The witness: \<open>mesh-b\<close> advertises \<open>10.30.0.0/24\<close>, then \<open>mesh-c\<close> the wider \<open>10.0.0.0/8\<close>.\<close>

definition wider_advertisement :: net_step where
  "wider_advertisement = \<lparr>ns_received = Inr (as_bytes (request_text
       (AdvertiseRoute ''mesh-c'' sample_prefix8 (from_secs 60))), SocketV4 (Ipv4 10 0 0 3) 4000),
     ns_now = 1, ns_send_error = None\<rparr>"

lemma sample_prefixes_wf: "wf_prefix sample_prefix8" "wf_prefix sample_prefix24"
  by (simp_all add: wf_prefix_def sample_prefix8_def sample_prefix24_def prefix_mask_def)

lemma wider_advertisement_runs: "\<exists>r2 outs. serve coordinator_step r1 [wider_advertisement] = (r2, outs, None)"
proof -
  have "plain_traffic wider_advertisement"
    by (simp add: plain_traffic_def wider_advertisement_def clock_in_range_def instant_end_def from_secs_def
        MAX_LEASE_SECONDS_def nanos_per_sec_def)
  then obtain r2 out where "coordinator_step r1 wider_advertisement = Returns (r2, out)"
    using coordinator_step_total by blast
  then show ?thesis by simp
qed

lemma wider_advertisement_leaves: "leaves_route d ''mesh-b'' sample_prefix24 wider_advertisement"
proof -
  have ok: "request_ok (AdvertiseRoute ''mesh-c'' sample_prefix8 (from_secs 60))"
    using sample_prefixes_wf by (auto simp: valid_node_id_def MAX_NODE_ID_BYTES_def lease_ok_def MAX_LEASE_SECONDS_def
        is_ascii_alphanumeric_def is_ascii_digit_def)
  have "length (request_text (AdvertiseRoute ''mesh-c'' sample_prefix8 (from_secs 60))) \<le> MAX_DATAGRAM_BYTES"
    using ok by (simp only: request_text.simps request_ok.simps route_texts_fit)
  then have "leaves_route d ''mesh-b'' sample_prefix24 wider_advertisement
      \<longleftrightarrow> yields_to d ''mesh-b'' sample_prefix24 ''mesh-c'' sample_prefix8"
    by (simp add: leaves_route_def wider_advertisement_def request_received [unfolded Suc_eq_plus1 [symmetric]]
        parse_request_text [OF ok] del: request_text.simps)
  then show ?thesis by (simp add: yields_to_def sample_prefix8_def sample_prefix24_def)
qed

theorem advertised_route_is_found_witness:
  "\<exists>advert look reply1 reply2 r1 r2 outs r3.
     coordinator_step default_registry \<lparr>ns_received = Inr (advert, sample_source), ns_now = 0, ns_send_error = None\<rparr>
       = Returns (r1, reply1, sample_source)
     \<and> serve coordinator_step r1 [wider_advertisement] = (r2, outs, None)
     \<and> route_lookup (good_socket (\<lambda>_. reply2)) ''10.30.0.2''
       = ([look], Returns (encode_response (RouteFound (Ipv4 10 30 0 2) sample_prefix24 ''mesh-b'')))
     \<and> coordinator_step r2 \<lparr>ns_received = Inr (look, sample_source), ns_now = 2, ns_send_error = None\<rparr>
       = Returns (r3, reply2, sample_source)"
proof -
  have n: "valid_node_id ''mesh-b''"
    by (simp add: valid_node_id_def MAX_NODE_ID_BYTES_def is_ascii_alphanumeric_def is_ascii_digit_def)
  have p: "parse_prefix (show_prefix sample_prefix24) = Ok sample_prefix24"
    by (rule parse_show_prefix [OF sample_prefixes_wf(2)])
  have "show_ipv4 (Ipv4 10 30 0 2) = ''10.30.0.2''" by code_simp
  with parse_show_ipv4 [of "Ipv4 10 30 0 2"] have d: "parse_ipv4_addr ''10.30.0.2'' = Some (Ipv4 10 30 0 2)" by simp
  have member: "prefix_contains sample_prefix24 (Ipv4 10 30 0 2)"
    by (simp add: prefix_contains_def sample_prefix24_def prefix_mask_def)
  have free: "not_longer (Ipv4 10 30 0 2) sample_prefix24 (advertisements (reg_routes default_registry))"
    by (simp add: not_longer_def default_registry_def empty_routes_def)
  have t: "clock_in_range 0" "1 < 0 + from_secs 30" "2 < 0 + from_secs 30"
    by (simp_all add: clock_in_range_def instant_end_def from_secs_def MAX_LEASE_SECONDS_def nanos_per_sec_def)
  have secs: "1 \<le> (30 :: nat)" "(30 :: nat) \<le> 300" by simp_all
  from advertised_route_is_found [OF n p secs d member free t(1), of sample_source]
  obtain advert look reply1 reply2 r1 where first: "coordinator_step default_registry
      \<lparr>ns_received = Inr (advert, sample_source), ns_now = 0, ns_send_error = None\<rparr> = Returns (r1, reply1, sample_source)"
    and client: "route_lookup (good_socket (\<lambda>_. reply2)) ''10.30.0.2''
       = ([look], Returns (encode_response (RouteFound (Ipv4 10 30 0 2) sample_prefix24 ''mesh-b'')))"
    and rest: "\<forall>others outs r2 t2 client. serve coordinator_step r1 others = (r2, outs, None) \<longrightarrow>
         list_all (\<lambda>i. leaves_route (Ipv4 10 30 0 2) ''mesh-b'' sample_prefix24 i \<and> ns_now i < 0 + from_secs 30) others \<longrightarrow>
         t2 < 0 + from_secs 30 \<longrightarrow>
         (\<exists>r3. coordinator_step r2 \<lparr>ns_received = Inr (look, client), ns_now = t2, ns_send_error = None\<rparr>
            = Returns (r3, reply2, client))" by blast
  obtain r2 outs where run: "serve coordinator_step r1 [wider_advertisement] = (r2, outs, None)"
    using wider_advertisement_runs by blast
  have "list_all (\<lambda>i. leaves_route (Ipv4 10 30 0 2) ''mesh-b'' sample_prefix24 i \<and> ns_now i < 0 + from_secs 30)
      [wider_advertisement]"
    using wider_advertisement_leaves t(2) by (simp add: wider_advertisement_def)
  from rest [rule_format, OF run this t(3)] obtain r3 where "coordinator_step r2
      \<lparr>ns_received = Inr (look, sample_source), ns_now = 2, ns_send_error = None\<rparr> = Returns (r3, reply2, sample_source)"
    by blast
  with first run client show ?thesis by blast
qed

end
