(* ===== verification/Coordinator_Replies.thy ===== *)
theory Coordinator_Replies
  imports Coordinator_Routes
begin

text \<open>
  What the replies of the coordinators of \<open>src/coordinator.rs\<close> to their clients look like: the
  table the learning coordinator answers from is well formed, and every reply of either
  coordinator to a datagram of its own client commands fits the buffer of \<open>exchange\<close> and
  \<open>receive_connected\<close>, so that the clients print it whole.
\<close>

section \<open>Error texts\<close>

definition short_text :: "string \<Rightarrow> bool" where
  "short_text m \<longleftrightarrow> length m \<le> 200 \<and> ascii_text m"

lemma host_bits_text: "short_text (''prefix has host bits set; use '' @ show_ipv4 a @ ''/'' @ decimal (unat (n :: u8)))"
proof -
  have "unat n \<le> 255" using unsigned_less [of n, where 'a = nat] by simp
  then have "length (decimal (unat n)) \<le> 3" by (rule decimal_length_octet)
  then show ?thesis using show_ipv4_length [of a] by (simp add: short_text_def)
qed

text \<open>Every error a fallible computation can report is short; the rules follow its structure.\<close>

definition short_errors :: "'a result \<Rightarrow> bool" where
  "short_errors r \<longleftrightarrow> (\<forall>m. r = Err m \<longrightarrow> short_text m)"

lemma short_errors_Ok: "short_errors (Ok x)"
  by (simp add: short_errors_def)

lemma short_errors_Err: "short_text m \<Longrightarrow> short_errors (Err m)"
  by (simp add: short_errors_def)

lemma short_errors_ok_or: "short_text m \<Longrightarrow> short_errors (ok_or m r)"
  by (simp add: short_errors_def ok_or_eq_Inl)

lemma short_errors_and_then: "short_errors r \<Longrightarrow> (\<And>x. short_errors (f x)) \<Longrightarrow> short_errors (and_then r f)"
  by (auto simp: short_errors_def and_then_eq_Inl)

lemma short_errors_if: "short_errors r \<Longrightarrow> short_errors s \<Longrightarrow> short_errors (if b then r else s)"
  by simp

lemmas short_errors_intros = short_errors_Ok short_errors_Err short_errors_ok_or short_errors_and_then short_errors_if

lemma short_errors_parse_prefix: "short_errors (parse_prefix s)"
  unfolding parse_prefix_def Let_def split_beta
  by (intro short_errors_intros host_bits_text) (simp_all add: short_text_def)

lemma short_errors_parse_lease: "short_errors (parse_lease s)"
proof -
  have "length (decimal 300) \<le> 3" by (rule decimal_length) simp_all
  then show ?thesis unfolding parse_lease_def MAX_LEASE_SECONDS_def
    by (intro short_errors_intros) (simp_all add: short_text_def)
qed

lemma short_errors_node_id: "short_errors (validate_node_id n)"
  unfolding validate_node_id_def
  by (intro short_errors_intros) (simp add: short_text_def node_id_error_def)

lemma short_errors_fields: "short_errors (parse_request_fields (PROTOCOL_VERSION # ws))"
proof -
  have expected: "short_text request_expected" by (simp add: short_text_def request_expected_def)
  have dest: "short_text ''route destination must be an IPv4 address''" by (simp add: short_text_def)
  show ?thesis unfolding parse_request_fields_def list.case
    by (simp split: list.split)
      (intro conjI allI impI short_errors_intros short_errors_node_id short_errors_parse_lease
        short_errors_parse_prefix expected dest)
qed

lemma parse_request_error:
  assumes "from_utf8 received = Some (PROTOCOL_VERSION @ CHR '' '' # rest)" and "parse_request received = Err m"
  shows "short_text m"
  using assms short_errors_fields [of "split_ascii_whitespace rest"]
  by (simp add: parse_request_def split_plain_word_space short_errors_def)

section \<open>Replies\<close>

fun response_ok :: "response \<Rightarrow> bool" where
  "response_ok (Registered n e lease) \<longleftrightarrow> valid_node_id n \<and> lease_ok lease"
| "response_ok (Found n e) \<longleftrightarrow> valid_node_id n"
| "response_ok (NotFound n) \<longleftrightarrow> valid_node_id n"
| "response_ok (RouteAdvertised n p lease) \<longleftrightarrow> valid_node_id n \<and> wf_prefix p \<and> lease_ok lease"
| "response_ok (RouteFound d p n) \<longleftrightarrow> valid_node_id n \<and> wf_prefix p"
| "response_ok (RouteNotFound d) \<longleftrightarrow> True"
| "response_ok (Error m) \<longleftrightarrow> short_text m"

lemma response_fits:
  assumes "response_ok x"
  shows "length (encode_response x) \<le> MAX_DATAGRAM_BYTES" and "ascii_text (encode_response x)"
proof -
  have ids: "length n \<le> 64" if "valid_node_id n" for n by (rule valid_node_id_length [OF that])
  show "length (encode_response x) \<le> MAX_DATAGRAM_BYTES"
  proof (cases x)
    case (Registered n e lease)
    with assms ids [of n] lease_digits [of lease] show_socket_addr_length [of e] show ?thesis
      by (simp add: PROTOCOL_VERSION_def MAX_DATAGRAM_BYTES_def)
  next
    case (Found n e)
    with assms ids [of n] show_socket_addr_length [of e] show ?thesis
      by (simp add: PROTOCOL_VERSION_def MAX_DATAGRAM_BYTES_def)
  next
    case (NotFound n)
    with assms ids [of n] show ?thesis by (simp add: PROTOCOL_VERSION_def MAX_DATAGRAM_BYTES_def)
  next
    case (RouteAdvertised n p lease)
    with assms show ?thesis by (simp add: route_replies_fit del: encode_response.simps)
  next
    case (RouteFound d p n)
    with assms show ?thesis by (simp add: route_replies_fit del: encode_response.simps)
  next
    case (RouteNotFound d)
    with show_ipv4_length [of d] show ?thesis by (simp add: PROTOCOL_VERSION_def MAX_DATAGRAM_BYTES_def)
  next
    case (Error m)
    with assms show ?thesis by (simp add: PROTOCOL_VERSION_def MAX_DATAGRAM_BYTES_def short_text_def)
  qed
  show "ascii_text (encode_response x)" using assms by (cases x) (simp_all add: short_text_def)
qed

lemma lookup_route_in_table:
  "snd (lookup_route d now r) = Some x \<Longrightarrow> \<exists>ad \<in> set (advertisements r). x = ad_route ad"
  by (auto simp: lookup_route_def Let_def remove_expired_routes_def dest!: max_by_key_in_set)

lemma handle_response_ok:
  assumes "registry_inv r" and "request_ok q" and "handle q source now r = Returns (r', x)"
  shows "response_ok x"
proof (cases q)
  case (RouteLookup d)
  show ?thesis
  proof (cases "snd (lookup_route d now (reg_routes r))")
    case None
    with assms(3) RouteLookup show ?thesis by (auto simp: handle_RouteLookup)
  next
    case (Some s)
    from lookup_route_in_table [OF this] obtain ad where ad: "ad \<in> set (advertisements (reg_routes r))" "s = ad_route ad"
      by blast
    with assms(1) have "valid_node_id (sr_node_id s)" "wf_prefix (sr_prefix s)" by (auto simp: registry_inv_def)
    with assms(3) RouteLookup Some show ?thesis by (auto simp: handle_RouteLookup)
  qed
qed (use assms in \<open>auto simp: handle_Register handle_Lookup handle_AdvertiseRoute Let_def split: option.splits\<close>)

lemma answer_ok:
  assumes inv: "registry_inv r" and small: "length (PROTOCOL_VERSION @ CHR '' '' # rest) \<le> MAX_DATAGRAM_BYTES"
    and answer: "coordinator_answer (as_bytes (PROTOCOL_VERSION @ CHR '' '' # rest)) source now r = Returns (r', x)"
  shows "response_ok x"
proof -
  let ?bs = "as_bytes (PROTOCOL_VERSION @ CHR '' '' # rest)"
  show ?thesis
  proof (cases "parse_request ?bs")
    case (Inr q)
    with answer small have "handle q source now r = Returns (r', x)" by (simp add: coordinator_answer_def)
    with handle_response_ok [OF inv requests.dec_valid [OF Inr]] show ?thesis .
  next
    case (Inl m)
    with answer small have x: "x = Error m" by (simp add: coordinator_answer_def)
    have "short_text m"
    proof (cases "from_utf8 ?bs")
      case None
      with Inl show ?thesis by (auto simp: parse_request_def short_text_def)
    next
      case (Some s)
      then have "s = PROTOCOL_VERSION @ CHR '' '' # rest" by (auto simp only: from_utf8_Some as_bytes_inject)
      with parse_request_error [of ?bs rest] Some Inl show ?thesis by simp
    qed
    with x show ?thesis by simp
  qed
qed

lemma oversized_answer:
  "MAX_DATAGRAM_BYTES < length received \<Longrightarrow>
     coordinator_answer received source now r = Returns (r', x) \<Longrightarrow> response_ok x"
proof -
  have "length (decimal 1024) \<le> 4" by (rule decimal_length) simp_all
  then have "short_text (''request exceeds '' @ decimal MAX_DATAGRAM_BYTES @ ''-byte limit'')"
    by (simp add: short_text_def MAX_DATAGRAM_BYTES_def)
  then show "MAX_DATAGRAM_BYTES < length received \<Longrightarrow>
     coordinator_answer received source now r = Returns (r', x) \<Longrightarrow> response_ok x"
    by (auto simp: coordinator_answer_def)
qed

lemma step_reply:
  assumes inv: "registry_inv r" and request: "request = PROTOCOL_VERSION @ CHR '' '' # rest"
    and step: "coordinator_step r \<lparr>ns_received = Inr (as_bytes request, source), ns_now = now, ns_send_error = e\<rparr>
      = Returns (r', reply, dest)"
  obtains x where "reply = as_bytes (encode_response x)" and "response_ok x"
proof -
  let ?got = "recv_into (MAX_DATAGRAM_BYTES + 1) (as_bytes request)"
  from step obtain x where answer: "coordinator_answer ?got source now r = Returns (r', x)"
    and reply: "reply = as_bytes (encode_response x)" by (auto simp: coordinator_step_Returns)
  have "response_ok x"
  proof (cases "length request \<le> MAX_DATAGRAM_BYTES")
    case True
    with answer_ok [OF inv, of rest source now r' x] answer request_received [OF True] request show ?thesis by simp
  next
    case False
    then have "MAX_DATAGRAM_BYTES < length ?got" by simp
    with oversized_answer answer show ?thesis by blast
  qed
  with reply show thesis by (rule that)
qed

section \<open>What the client commands send\<close>

text \<open>A command of the learning coordinator that sends anything is one \<open>exchange\<close>.\<close>

lemma exchange_sends: "d \<in> set (fst (exchange cs request)) \<Longrightarrow> d = as_bytes request"
  by (auto simp: exchange_def split: outcome.splits)

lemma client_texts_open:
  "\<exists>rest. register_text n secs = PROTOCOL_VERSION @ CHR '' '' # rest"
  "\<exists>rest. lookup_text n = PROTOCOL_VERSION @ CHR '' '' # rest"
  "\<exists>rest. advertise_route_text n q lease = PROTOCOL_VERSION @ CHR '' '' # rest"
  "\<exists>rest. route_lookup_text d = PROTOCOL_VERSION @ CHR '' '' # rest"
  by (simp_all add: register_text_def lookup_text_def advertise_route_text_def route_lookup_text_def)

lemma one_exchange:
  "\<exists>rest. q = PROTOCOL_VERSION @ CHR '' '' # rest \<Longrightarrow> \<exists>request.
     (\<exists>rest. request = PROTOCOL_VERSION @ CHR '' '' # rest) \<and> (\<forall>cs. exchange cs q = exchange cs request)"
  by (intro exI [of _ q]) simp

lemma client_command_exchanges:
  assumes "command \<in> {\<lambda>cs. client_register cs n secs, \<lambda>cs. client_lookup cs n,
      \<lambda>cs. advertise_route cs n prefix secs, \<lambda>cs. route_lookup cs destination}"
    and "d \<in> set (fst (command cs))"
  obtains rest where "d = as_bytes (PROTOCOL_VERSION @ CHR '' '' # rest)"
    and "\<And>cs. command cs = exchange cs (PROTOCOL_VERSION @ CHR '' '' # rest)"
proof -
  have "\<exists>request. (\<exists>rest. request = PROTOCOL_VERSION @ CHR '' '' # rest) \<and> (\<forall>cs. command cs = exchange cs request)"
    using assms unfolding client_register_def client_lookup_def advertise_route_def route_lookup_def
    by (auto split: outcome.splits option.splits) (intro one_exchange client_texts_open)+
  then obtain rest where ex: "command cs = exchange cs (PROTOCOL_VERSION @ CHR '' '' # rest)" for cs by blast
  moreover have "d = as_bytes (PROTOCOL_VERSION @ CHR '' '' # rest)"
    by (rule exchange_sends [of _ cs]) (use assms(2) ex in simp)
  ultimately show thesis by (rule that [rotated])
qed

section \<open>Replies of the authenticated coordinator\<close>

fun auth_response_ok :: "auth_response \<Rightarrow> bool" where
  "auth_response_ok (AuthChallengeIssued n c) \<longleftrightarrow> valid_node_id n \<and> length c = CHALLENGE_BYTES"
| "auth_response_ok (AuthRegistered n e lease) \<longleftrightarrow> valid_node_id n \<and> lease_ok lease"
| "auth_response_ok (AuthFound n e) \<longleftrightarrow> valid_node_id n"
| "auth_response_ok (AuthNotFound n) \<longleftrightarrow> valid_node_id n"
| "auth_response_ok (AuthError m) \<longleftrightarrow> short_text m"

lemma auth_response_fits:
  assumes "auth_response_ok x"
  shows "length (encode_auth_response x) \<le> MAX_DATAGRAM_BYTES" and "ascii_text (encode_auth_response x)"
proof -
  show "length (encode_auth_response x) \<le> MAX_DATAGRAM_BYTES"
  proof (cases x)
    case (AuthFound n e)
    with assms valid_node_id_length [of n] show_socket_addr_length [of e] show ?thesis
      by (simp add: AUTH_PROTOCOL_VERSION_def MAX_DATAGRAM_BYTES_def)
  next
    case (AuthNotFound n)
    with assms valid_node_id_length [of n] show ?thesis by (simp add: AUTH_PROTOCOL_VERSION_def MAX_DATAGRAM_BYTES_def)
  next
    case (AuthError m)
    with assms show ?thesis by (simp add: AUTH_PROTOCOL_VERSION_def MAX_DATAGRAM_BYTES_def short_text_def)
  qed (use assms in \<open>simp_all add: auth_replies_fit del: encode_auth_response.simps\<close>)
  show "ascii_text (encode_auth_response x)" using assms by (cases x) (simp_all add: short_text_def)
qed

lemma co_do_response_ok:
  assumes "auth_request_ok E q" and "length c = CHALLENGE_BYTES"
    and "co_do E (call_of source now c q) co = Returns (co', x)"
  shows "auth_response_ok x"
  using assms
  by (cases q) (auto simp: issue_challenge_eq register_node_eq lookup_node_eq Let_def short_text_def
      split: option.splits if_splits)

text \<open>A request that parses, and any look-up, is answered with a short text.\<close>

lemma lookup_parse_error:
  assumes "from_utf8 received = Some (auth_lookup_text n)" and "parse_auth_request E received = Err m"
  shows "short_text m"
proof -
  have expected: "short_text auth_request_expected" by (simp add: short_text_def auth_request_expected_def quoted_def AUTH_PROTOCOL_VERSION_def)
  have "short_errors (parse_auth_request_fields E (AUTH_PROTOCOL_VERSION # ''LOOKUP'' # ws))" for ws
    unfolding parse_auth_request_fields_def list.case
    by (simp split: list.split) (intro conjI allI impI short_errors_intros short_errors_node_id expected)
  moreover have "split_ascii_whitespace (auth_lookup_text n) = AUTH_PROTOCOL_VERSION # ''LOOKUP'' # split_ascii_whitespace n"
    using split_plain_word_space [of AUTH_PROTOCOL_VERSION "''LOOKUP'' @ CHR '' '' # n"]
      split_plain_word_space [of "''LOOKUP''" n] by (simp add: auth_lookup_text_def)
  ultimately show ?thesis using assms by (simp add: parse_auth_request_def short_errors_def)
qed

lemma auth_answer_ok:
  assumes E: "signature_scheme_ok E" and c: "length c = CHALLENGE_BYTES"
    and answer: "auth_coordinator_answer E (recv_into (MAX_DATAGRAM_BYTES + 1) d) source now (Inr c) co = Returns (co', x)"
    and request: "(\<exists>q. parse_auth_request E d = Ok q) \<or> (\<exists>n. d = as_bytes (auth_lookup_text n))"
  shows "auth_response_ok x"
proof (cases "length d \<le> MAX_DATAGRAM_BYTES")
  case True
  then have d: "recv_into (MAX_DATAGRAM_BYTES + 1) d = d" by (simp add: recv_into_def)
  show ?thesis
  proof (cases "parse_auth_request E d")
    case (Inr q)
    then have "auth_request_ok E q" using codec.dec_valid [OF auth_requests_codec [OF E]] by blast
    with co_do_response_ok [OF this c] answer auth_answer_call [OF True Inr] d show ?thesis by simp
  next
    case (Inl m)
    with request obtain n where n: "d = as_bytes (auth_lookup_text n)" by auto
    have "short_text m"
    proof (cases "from_utf8 d")
      case None
      with Inl show ?thesis by (auto simp: parse_auth_request_def short_text_def)
    next
      case (Some t)
      then have "t = auth_lookup_text n" using n by (auto simp only: from_utf8_Some as_bytes_inject)
      with lookup_parse_error [of d n E m] Some Inl show ?thesis by simp
    qed
    with answer d True Inl show ?thesis by (auto simp: auth_coordinator_answer_def)
  qed
next
  case False
  have "length (decimal 1024) \<le> 4" by (rule decimal_length) simp_all
  then have "short_text (''request exceeds '' @ decimal MAX_DATAGRAM_BYTES @ ''-byte limit'')"
    by (simp add: short_text_def MAX_DATAGRAM_BYTES_def)
  with answer False show ?thesis by (auto simp: auth_coordinator_answer_def)
qed

lemma parse_challenge_response_length: "parse_challenge_response r n = Ok c \<Longrightarrow> length c = CHALLENGE_BYTES"
  by (auto simp: parse_challenge_response_def Let_def dest: decode_hex_array_length split: list.splits if_splits)

lemma register_sends_requests:
  assumes E: "signature_scheme_ok E" and d: "d \<in> set (fst (register_authenticated E cs n secs path contents))"
  shows "\<exists>q. parse_auth_request E d = Ok q"
proof -
  from d obtain i lease where i: "load_identity path contents = Ok i" "id_node_id i = n"
    and lease: "parse_lease (decimal secs) = Ok lease"
    by (auto simp: register_authenticated_def split: outcome.splits if_splits)
  have n: "valid_node_id n" using load_identity_valid [OF i(1)] i(2) by simp
  have "d = as_bytes (auth_request_text E (AuthChallenge n))
      \<or> (\<exists>c. length c = CHALLENGE_BYTES \<and> d = as_bytes (auth_request_text E (AuthRegister n lease c
            (identity_sign E i (registration_signing_message n lease c)))))"
    using d i lease
    by (auto simp: register_authenticated_def Let_def dest: parse_challenge_response_length
        split: outcome.splits option.splits if_splits)
  then show ?thesis
  proof (elim disjE exE conjE)
    assume "d = as_bytes (auth_request_text E (AuthChallenge n))"
    with parse_auth_request_text [of E "AuthChallenge n"] n show ?thesis by auto
  next
    fix c assume c: "length c = CHALLENGE_BYTES" and "d = as_bytes (auth_request_text E (AuthRegister n lease c
        (identity_sign E i (registration_signing_message n lease c))))"
    moreover have "auth_request_ok E (AuthRegister n lease c (identity_sign E i (registration_signing_message n lease c)))"
      using n parse_lease_ok [OF lease] c by (simp add: identity_sign_def sign_wire [OF E])
    ultimately show ?thesis using parse_auth_request_text by blast
  qed
qed

section \<open>Properties\<close>

text \<open>
  C21.  Whatever traffic arrives, the tables of the learning coordinator are well formed: every
  registered name is a valid node ID, the route table has at most one advertisement for a node
  and prefix, and every advertised prefix is canonical, of at most 32 bits, for a valid node ID.
\<close>

theorem learning_tables_well_formed:
  assumes "serve coordinator_step default_registry ns = (r, sent, p)"
  shows "(\<forall>n. fmlookup (registrations r) n \<noteq> None \<longrightarrow> valid_node_id n)
     \<and> distinct (map (\<lambda>ad. (sr_node_id (ad_route ad), sr_prefix (ad_route ad))) (advertisements (reg_routes r)))
     \<and> (\<forall>ad \<in> set (advertisements (reg_routes r)). valid_node_id (sr_node_id (ad_route ad))
          \<and> wf_prefix (sr_prefix (ad_route ad)))"
  using coordinator.serve_inv [OF registry_inv_default assms]
  by (simp add: registry_inv_def routes_inv_def reg_get_def ad_key_def [abs_def] del: not_None_eq)

theorem learning_tables_well_formed_witness:
  "\<exists>r sent. serve coordinator_step default_registry [wider_advertisement] = (r, sent, None)
     \<and> (\<forall>ad \<in> set (advertisements (reg_routes r)). wf_prefix (sr_prefix (ad_route ad)))"
proof -
  obtain r sent where run: "serve coordinator_step default_registry [wider_advertisement] = (r, sent, None)"
    using wider_advertisement_runs by blast
  from learning_tables_well_formed [OF run] run show ?thesis by blast
qed

text \<open>
  C20.  No client of the learning coordinator sees a cut reply: after any traffic, whatever
  datagram one of its four commands (register, look up, advertise a route, look a route up) sends,
  with any arguments, the reply to it is at most 1024 bytes, so that the client's receive buffer
  holds it, and the command prints the whole response.
\<close>

theorem client_prints_whole_reply:
  assumes run: "serve coordinator_step default_registry ns = (r, sent, p)"
    and command: "command \<in> {\<lambda>cs. client_register cs n secs, \<lambda>cs. client_lookup cs n,
      \<lambda>cs. advertise_route cs n prefix secs, \<lambda>cs. route_lookup cs destination}"
    and sends: "d \<in> set (fst (command cs))"
    and step: "coordinator_step r \<lparr>ns_received = Inr (d, source), ns_now = now, ns_send_error = e\<rparr>
      = Returns (r', reply, dest)"
  shows "length reply \<le> MAX_DATAGRAM_BYTES \<and> (\<exists>x. reply = as_bytes (encode_response x)
     \<and> command (good_socket (\<lambda>_. reply)) = ([d], Returns (encode_response x)))"
proof -
  obtain rest where opens: "d = as_bytes (PROTOCOL_VERSION @ CHR '' '' # rest)"
    and ex: "\<And>cs. command cs = exchange cs (PROTOCOL_VERSION @ CHR '' '' # rest)"
    using client_command_exchanges [OF command sends] by metis
  have "registry_inv r" by (rule coordinator.serve_inv [OF registry_inv_default run])
  from step_reply [OF this refl step [unfolded opens]] obtain x where
    x: "reply = as_bytes (encode_response x)" "response_ok x" .
  with exchange_good [OF response_fits(2,1) [OF x(2)]] response_fits(1) [OF x(2)] show ?thesis
    unfolding ex opens by auto
qed

theorem client_prints_whole_reply_witness:
  "\<exists>r' reply x. coordinator_step default_registry \<lparr>ns_received = Inr (as_bytes (lookup_text ''no such node''), sample_source),
       ns_now = 0, ns_send_error = None\<rparr> = Returns (r', reply, sample_source)
     \<and> client_lookup (good_socket (\<lambda>_. reply)) ''no such node''
        = ([as_bytes (lookup_text ''no such node'')], Returns (encode_response x))"
proof -
  let ?d = "as_bytes (lookup_text ''no such node'')"
  let ?n = "\<lparr>ns_received = Inr (?d, sample_source), ns_now = 0, ns_send_error = None\<rparr>"
  have "plain_traffic ?n"
    by (simp add: plain_traffic_def clock_in_range_def instant_end_def from_secs_def MAX_LEASE_SECONDS_def nanos_per_sec_def)
  then obtain r' reply dest where step: "coordinator_step default_registry ?n = Returns (r', reply, dest)"
    using coordinator_step_total [of ?n] by (metis surj_pair)
  then have dest: "dest = sample_source" by (auto simp: coordinator_step_Returns)
  have run: "serve coordinator_step default_registry [] = (default_registry, [], None)" by simp
  have command: "(\<lambda>cs. client_lookup cs ''no such node'') \<in> {\<lambda>cs. client_register cs ''no such node'' 1,
      \<lambda>cs. client_lookup cs ''no such node'', \<lambda>cs. advertise_route cs ''no such node'' [] 1, \<lambda>cs. route_lookup cs []}" by simp
  have sends: "?d \<in> set (fst ((\<lambda>cs. client_lookup cs ''no such node'') (good_socket (\<lambda>_. []))))"
    by (simp add: client_lookup_def exchange_def)
  from client_prints_whole_reply [OF run command sends step] step dest show ?thesis by blast
qed

text \<open>
  C38.  No client of the authenticated coordinator sees a cut reply either: in any state, whatever
  datagram the authenticated look-up (of any name) or registration (either of its two) sends, the
  reply is at most 1024 bytes and the client's receive routine returns the whole response; the
  look-up prints it.  The operating system gives the coordinator its 32 random bytes.
\<close>

theorem authenticated_client_reads_whole_reply:
  assumes E: "signature_scheme_ok E" and c: "length c = CHALLENGE_BYTES"
    and sends: "d \<in> set (fst (lookup_authenticated cs n)) \<union> set (fst (register_authenticated E cs n secs path contents))"
    and step: "auth_coordinator_step E co \<lparr>ns_received = Inr (d, source), ns_now = now, ns_send_error = e,
       ns_random = Inr c\<rparr> = Returns (co', reply, dest)"
  shows "length reply \<le> MAX_DATAGRAM_BYTES \<and> (\<exists>x. reply = as_bytes (encode_auth_response x)
     \<and> (\<forall>what. receive_connected (Inr reply) what = Returns (encode_auth_response x))
     \<and> (d \<in> set (fst (lookup_authenticated cs n)) \<longrightarrow>
          lookup_authenticated (good_socket (\<lambda>_. reply)) n = ([d], Returns (encode_auth_response x))))"
proof -
  have lookup: "d = as_bytes (auth_lookup_text n)" if "d \<in> set (fst (lookup_authenticated cs n))"
    using that exchange_sends by (auto simp: lookup_authenticated_def)
  then have request: "(\<exists>q. parse_auth_request E d = Ok q) \<or> (\<exists>n. d = as_bytes (auth_lookup_text n))"
    using sends register_sends_requests [OF E] by blast
  from step obtain x where
    answer: "auth_coordinator_answer E (recv_into (MAX_DATAGRAM_BYTES + 1) d) source now (Inr c) co = Returns (co', x)"
    and reply: "reply = as_bytes (encode_auth_response x)" by (auto simp: auth_coordinator_step_Returns)
  note fits = auth_response_fits [OF auth_answer_ok [OF E c answer request]]
  have "receive_connected (Inr reply) what = Returns (encode_auth_response x)" for what
    unfolding reply receive_connected_def by (simp add: text_received [OF fits(2,1)])
  moreover have "lookup_authenticated (good_socket (\<lambda>_. reply)) n = ([as_bytes (auth_lookup_text n)], Returns (encode_auth_response x))"
    unfolding reply lookup_authenticated_def by (rule exchange_good [OF fits(2,1)])
  ultimately show ?thesis using fits(1) reply lookup by auto
qed

theorem authenticated_client_reads_whole_reply_witness:
  "\<exists>co' reply x. auth_coordinator_step sample_ed25519 (new_coordinator sample_authorizations)
       \<lparr>ns_received = Inr (as_bytes (auth_lookup_text ''no such node''), sample_source), ns_now = 0,
        ns_send_error = None, ns_random = Inr sample_challenge\<rparr> = Returns (co', reply, sample_source)
     \<and> lookup_authenticated (good_socket (\<lambda>_. reply)) ''no such node''
        = ([as_bytes (auth_lookup_text ''no such node'')], Returns (encode_auth_response x))"
proof -
  let ?d = "as_bytes (auth_lookup_text ''no such node'')"
  let ?n = "\<lparr>ns_received = Inr (?d, sample_source), ns_now = 0, ns_send_error = None, ns_random = Inr sample_challenge\<rparr>"
  have "plain_traffic ?n"
    by (simp add: plain_traffic_def clock_in_range_def instant_end_def from_secs_def MAX_LEASE_SECONDS_def nanos_per_sec_def)
  then obtain co' reply dest where step: "auth_coordinator_step sample_ed25519 (new_coordinator sample_authorizations) ?n
      = Returns (co', reply, dest)"
    using auth_coordinator_step_total [OF sample_ed25519_ok, of ?n] by (metis surj_pair)
  then have dest: "dest = sample_source" by (auto simp: auth_coordinator_step_Returns)
  have c: "length sample_challenge = CHALLENGE_BYTES" by (simp add: sample_challenge_def CHALLENGE_BYTES_def)
  have sent: "?d \<in> set (fst (lookup_authenticated (good_socket (\<lambda>_. [])) ''no such node''))"
    by (simp add: lookup_authenticated_def exchange_def)
  then have "?d \<in> set (fst (lookup_authenticated (good_socket (\<lambda>_. [])) ''no such node''))
      \<union> set (fst (register_authenticated sample_ed25519 (good_socket (\<lambda>_. [])) ''no such node'' 1 [] (Inr [])))" by blast
  from authenticated_client_reads_whole_reply [OF sample_ed25519_ok c this step] sent step dest show ?thesis by blast
qed

end
