(* ===== verification/Handshake_Wire.thy ===== *)
theory Handshake_Wire
  imports Identity
begin

text \<open>
  The messages of \<open>src/handshake.rs\<close>: the two hellos with their parsers and printers, the
  messages each side signs, the transcript and the key derivation.  X25519, SHA-256 and HKDF
  (crates \<open>x25519-dalek\<close>, \<open>sha2\<close>, \<open>hkdf\<close>) are parameters.  The lemmas show the round
  trips, that signed messages and transcripts determine what they describe, and that the two
  sides of one exchange derive the same keys.
\<close>

section \<open>Key agreement and key derivation\<close>

record key_exchange =
  kx_public :: "bytes \<Rightarrow> bytes" \<comment> \<open>public key of a secret\<close>
  kx_shared :: "bytes \<Rightarrow> bytes \<Rightarrow> bytes" \<comment> \<open>own secret, peer's public key\<close>
  kx_contributory :: "bytes \<Rightarrow> bool" \<comment> \<open>\<open>was_contributory\<close> of a shared secret\<close>
  kx_digest :: "bytes \<Rightarrow> bytes" \<comment> \<open>SHA-256\<close>
  kx_expand :: "bytes \<Rightarrow> bytes \<Rightarrow> bytes \<Rightarrow> nat \<Rightarrow> bytes option" \<comment> \<open>salt, secret, info, length\<close>

definition EXCHANGE_KEY_BYTES :: nat where "EXCHANGE_KEY_BYTES = 32"
definition SIGNATURE_BYTES :: nat where "SIGNATURE_BYTES = 64"
definition SESSION_KEY_BYTES :: nat where "SESSION_KEY_BYTES = 32"

text \<open>
  What the crates document: Diffie-Hellman agreement, a public key of 32 bytes, that keys of
  honest secrets contribute, and that HKDF-SHA256 fails only beyond 255 blocks of 32 bytes.
\<close>

definition key_exchange_ok :: "key_exchange \<Rightarrow> bool" where
  "key_exchange_ok K \<longleftrightarrow>
     (\<forall>a b. kx_shared K a (kx_public K b) = kx_shared K b (kx_public K a))
   \<and> (\<forall>a b. kx_contributory K (kx_shared K a (kx_public K b)))
   \<and> (\<forall>a. length (kx_public K a) = EXCHANGE_KEY_BYTES)
   \<and> (\<forall>salt ikm info n. n \<le> 255 * 32 \<longrightarrow>
        (\<exists>okm. kx_expand K salt ikm info n = Some okm \<and> length okm = n))"

text \<open>A concrete instance for examples.\<close>

definition sample_key_exchange :: key_exchange where
  "sample_key_exchange = \<lparr>
     kx_public = (\<lambda>a. replicate 32 (sum_list a)),
     kx_shared = (\<lambda>a p. replicate 32 (sum_list a + hd (p @ [0]))),
     kx_contributory = (\<lambda>_. True),
     kx_digest = (\<lambda>m. replicate 32 (sum_list m)),
     kx_expand = (\<lambda>salt ikm info n. if n \<le> 255 * 32
        then Some (replicate n (sum_list salt + sum_list ikm + sum_list info)) else None)\<rparr>"

lemma sample_key_exchange_ok: "key_exchange_ok sample_key_exchange"
  by (auto simp: key_exchange_ok_def sample_key_exchange_def EXCHANGE_KEY_BYTES_def add.commute)

section \<open>Hellos\<close>

definition HANDSHAKE_VERSION :: string where "HANDSHAKE_VERSION = ''MESHLET/3''"

record 'sig client_hello =
  cl_initiator_id :: string
  cl_responder_id :: string
  cl_exchange_public :: bytes
  cl_signature :: 'sig

record 'sig server_hello =
  sv_initiator_id :: string
  sv_responder_id :: string
  sv_client_exchange_public :: bytes
  sv_server_exchange_public :: bytes
  sv_signature :: 'sig

definition require_version :: "string \<Rightarrow> unit result" where
  "require_version version =
     (if version = HANDSHAKE_VERSION then Ok ()
      else Err (''unsupported handshake protocol version '' @ quoted version))"

definition parse_signature :: "('vk, 'sig) ed25519 \<Rightarrow> string \<Rightarrow> 'sig result" where
  "parse_signature E encoded =
     and_then (decode_hex_array SIGNATURE_BYTES encoded) (\<lambda>bs.
     map_err (\<lambda>e. ''invalid signature: '' @ e) (ed_sig_try_from E bs))"

definition encode_client_hello :: "('vk, 'sig) ed25519 \<Rightarrow> 'sig client_hello \<Rightarrow> string" where
  "encode_client_hello E hello =
     unwords [HANDSHAKE_VERSION, ''CLIENT_HELLO'', cl_initiator_id hello, cl_responder_id hello,
              encode_hex (cl_exchange_public hello),
              encode_hex (ed_sig_to_bytes E (cl_signature hello))]"

definition parse_client_hello :: "('vk, 'sig) ed25519 \<Rightarrow> string \<Rightarrow> 'sig client_hello result" where
  "parse_client_hello E message =
     (let unexpected = Err (''expected ''
            @ quoted ''MESHLET/3 CLIENT_HELLO INITIATOR RESPONDER PUBLIC_KEY SIGNATURE'') in
      case split_ascii_whitespace message of
        [version, kind, initiator_id, responder_id, exchange_public, signature] \<Rightarrow>
          if kind \<noteq> ''CLIENT_HELLO'' then unexpected
          else
            and_then (require_version version) (\<lambda>_.
            and_then (validate_node_id initiator_id) (\<lambda>_.
            and_then (validate_node_id responder_id) (\<lambda>_.
            and_then (decode_hex_array EXCHANGE_KEY_BYTES exchange_public) (\<lambda>exchange.
            and_then (parse_signature E signature) (\<lambda>sg.
            Ok \<lparr>cl_initiator_id = initiator_id, cl_responder_id = responder_id,
                cl_exchange_public = exchange, cl_signature = sg\<rparr>)))))
      | _ \<Rightarrow> unexpected)"

definition encode_server_hello :: "('vk, 'sig) ed25519 \<Rightarrow> 'sig server_hello \<Rightarrow> string" where
  "encode_server_hello E hello =
     unwords [HANDSHAKE_VERSION, ''SERVER_HELLO'', sv_initiator_id hello, sv_responder_id hello,
              encode_hex (sv_client_exchange_public hello),
              encode_hex (sv_server_exchange_public hello),
              encode_hex (ed_sig_to_bytes E (sv_signature hello))]"

definition parse_server_hello :: "('vk, 'sig) ed25519 \<Rightarrow> string \<Rightarrow> 'sig server_hello result" where
  "parse_server_hello E message =
     (let unexpected = Err (''expected ''
            @ quoted ''MESHLET/3 SERVER_HELLO INITIATOR RESPONDER CLIENT_KEY SERVER_KEY SIGNATURE'') in
      case split_ascii_whitespace message of
        [version, kind, initiator_id, responder_id, client_exchange_public, server_exchange_public,
         signature] \<Rightarrow>
          if kind \<noteq> ''SERVER_HELLO'' then unexpected
          else
            and_then (require_version version) (\<lambda>_.
            and_then (validate_node_id initiator_id) (\<lambda>_.
            and_then (validate_node_id responder_id) (\<lambda>_.
            and_then (decode_hex_array EXCHANGE_KEY_BYTES client_exchange_public) (\<lambda>client_exchange.
            and_then (decode_hex_array EXCHANGE_KEY_BYTES server_exchange_public) (\<lambda>server_exchange.
            and_then (parse_signature E signature) (\<lambda>sg.
            Ok \<lparr>sv_initiator_id = initiator_id, sv_responder_id = responder_id,
                sv_client_exchange_public = client_exchange,
                sv_server_exchange_public = server_exchange, sv_signature = sg\<rparr>))))))
      | _ \<Rightarrow> unexpected)"

section \<open>Signed messages, transcript and keys\<close>

definition client_signing_message :: "string \<Rightarrow> string \<Rightarrow> bytes \<Rightarrow> bytes" where
  "client_signing_message initiator_id responder_id exchange_public =
     as_bytes (closed_lines
       [''MESHLET-HANDSHAKE-CLIENT/1'',
        ''protocol:'' @ HANDSHAKE_VERSION,
        ''initiator:'' @ initiator_id,
        ''responder:'' @ responder_id,
        ''exchange-public:'' @ encode_hex exchange_public])"

definition server_signing_message :: "('vk, 'sig) ed25519 \<Rightarrow> 'sig client_hello \<Rightarrow> bytes \<Rightarrow> bytes" where
  "server_signing_message E client server_exchange_public =
     as_bytes (closed_lines
       [''MESHLET-HANDSHAKE-SERVER/1'',
        ''protocol:'' @ HANDSHAKE_VERSION,
        ''initiator:'' @ cl_initiator_id client,
        ''responder:'' @ cl_responder_id client,
        ''client-exchange-public:'' @ encode_hex (cl_exchange_public client),
        ''client-signature:'' @ encode_hex (ed_sig_to_bytes E (cl_signature client)),
        ''server-exchange-public:'' @ encode_hex server_exchange_public])"

definition handshake_transcript ::
  "('vk, 'sig) ed25519 \<Rightarrow> 'sig client_hello \<Rightarrow> 'sig server_hello \<Rightarrow> bytes" where
  "handshake_transcript E client server =
     (let client_message = client_signing_message (cl_initiator_id client) (cl_responder_id client)
                             (cl_exchange_public client);
          server_message = server_signing_message E client (sv_server_exchange_public server)
      in client_message @ ed_sig_to_bytes E (cl_signature client)
           @ server_message @ ed_sig_to_bytes E (sv_signature server))"

record session_keys =
  client_to_server :: bytes
  server_to_client :: bytes

definition derive_session_keys :: "key_exchange \<Rightarrow> bytes \<Rightarrow> bytes \<Rightarrow> session_keys result" where
  "derive_session_keys K shared transcript =
     (if \<not> kx_contributory K shared
      then Err ''peer exchange key produced an unsafe all-zero shared secret''
      else
        let transcript_hash = kx_digest K transcript in
        and_then (ok_or ''failed to derive client-to-server key''
                    (kx_expand K transcript_hash shared
                       (as_bytes ''MESHLET/3 client-to-server encryption key'') SESSION_KEY_BYTES)) (\<lambda>c2s.
        and_then (ok_or ''failed to derive server-to-client key''
                    (kx_expand K transcript_hash shared
                       (as_bytes ''MESHLET/3 server-to-client encryption key'') SESSION_KEY_BYTES)) (\<lambda>s2c.
        Ok \<lparr>client_to_server = c2s, server_to_client = s2c\<rparr>)))"

definition validate_server_hello :: "'sig server_hello \<Rightarrow> 'sig client_hello \<Rightarrow> unit result" where
  "validate_server_hello server client =
     (if sv_initiator_id server \<noteq> cl_initiator_id client
         \<or> sv_responder_id server \<noteq> cl_responder_id client
         \<or> sv_client_exchange_public server \<noteq> cl_exchange_public client
      then Err (''server did not echo the client'' @ CHR 0x27 # ''s exact handshake values'')
      else Ok ())"

definition verify_signature ::
  "('vk, 'sig) ed25519 \<Rightarrow> 'vk authorizations \<Rightarrow> string \<Rightarrow> bytes \<Rightarrow> 'sig \<Rightarrow> unit result" where
  "verify_signature E authorizations node_id message signature =
     and_then (ok_or (''node '' @ quoted node_id @ '' has no authorized public key'')
                 (auth_get authorizations node_id)) (\<lambda>public_key.
     if ed_verify_strict E public_key message signature then Ok ()
     else Err (''signature from node '' @ quoted node_id @ '' is invalid''))"

definition require_authorized :: "'vk authorizations \<Rightarrow> string \<Rightarrow> unit outcome" where
  "require_authorized authorizations node_id =
     (if auth_get authorizations node_id = None
      then Panics (''node '' @ quoted node_id @ '' has no authorized public key'')
      else Returns ())"

text \<open>The lines \<open>print_success\<close> prints; the endpoint is given as it is displayed.\<close>

definition success_lines :: "key_exchange \<Rightarrow> string \<Rightarrow> string \<Rightarrow> string \<Rightarrow> bytes \<Rightarrow> session_keys \<Rightarrow> string list" where
  "success_lines K role peer_node_id peer_endpoint transcript keys =
     (let session_id = kx_digest K transcript in
      [''handshake role: '' @ role,
       ''authenticated peer: '' @ peer_node_id,
       ''peer endpoint: '' @ peer_endpoint,
       ''session ID: '' @ encode_hex (take 8 session_id),
       ''directional keys derived: client->server '' @ decimal (length (client_to_server keys))
         @ '' bytes, server->client '' @ decimal (length (server_to_client keys)) @ '' bytes'',
       ''key status: derived locally; not yet confirmed by encrypted traffic'',
       ''shared secret and encryption keys are intentionally not printed''])"

text \<open>What is printed shows of the keys only their lengths.\<close>

lemma success_lines_hide_keys:
  "length (client_to_server keys) = length (client_to_server keys') \<Longrightarrow>
   length (server_to_client keys) = length (server_to_client keys') \<Longrightarrow>
     success_lines K role peer endpoint transcript keys = success_lines K role peer endpoint transcript keys'"
  by (simp add: success_lines_def Let_def)

section \<open>Round trips\<close>

definition client_hello_ok :: "('vk, 'sig) ed25519 \<Rightarrow> 'sig client_hello \<Rightarrow> bool" where
  "client_hello_ok E h \<longleftrightarrow> valid_node_id (cl_initiator_id h) \<and> valid_node_id (cl_responder_id h)
     \<and> length (cl_exchange_public h) = EXCHANGE_KEY_BYTES \<and> wire_signature E (cl_signature h)"

definition server_hello_ok :: "('vk, 'sig) ed25519 \<Rightarrow> 'sig server_hello \<Rightarrow> bool" where
  "server_hello_ok E h \<longleftrightarrow> valid_node_id (sv_initiator_id h) \<and> valid_node_id (sv_responder_id h)
     \<and> length (sv_client_exchange_public h) = EXCHANGE_KEY_BYTES
     \<and> length (sv_server_exchange_public h) = EXCHANGE_KEY_BYTES \<and> wire_signature E (sv_signature h)"

lemma hello_words [simp]:
  "plain_word HANDSHAKE_VERSION" "plain_word ''CLIENT_HELLO''" "plain_word ''SERVER_HELLO''"
  "ascii_text HANDSHAKE_VERSION" "one_line HANDSHAKE_VERSION"
  by (simp_all add: HANDSHAKE_VERSION_def plain_word_def is_ascii_whitespace_def one_line_def)

lemma require_version_Ok [simp]: "require_version v = Ok u \<longleftrightarrow> v = HANDSHAKE_VERSION"
  by (simp add: require_version_def)

lemma parse_signature_hex [wire_simps]:
  "wire_signature E s \<Longrightarrow> parse_signature E (encode_hex (ed_sig_to_bytes E s)) = Ok s"
  by (simp add: parse_signature_def wire_signature_def SIGNATURE_BYTES_def decode_encode_hex)

lemma wire_signature_nonempty: "wire_signature E s \<Longrightarrow> ed_sig_to_bytes E s \<noteq> []"
  by (auto simp: wire_signature_def)

lemma parse_client_hello_text:
  assumes "client_hello_ok E h"
  shows "parse_client_hello E (encode_client_hello E h) = Ok h"
proof -
  have "cl_exchange_public h \<noteq> []" "ed_sig_to_bytes E (cl_signature h) \<noteq> []"
    using assms by (auto simp: client_hello_ok_def EXCHANGE_KEY_BYTES_def wire_signature_def)
  then have "split_ascii_whitespace (encode_client_hello E h) =
      [HANDSHAKE_VERSION, ''CLIENT_HELLO'', cl_initiator_id h, cl_responder_id h,
       encode_hex (cl_exchange_public h), encode_hex (ed_sig_to_bytes E (cl_signature h))]"
    using assms unfolding encode_client_hello_def by (intro split_unwords) (simp add: client_hello_ok_def)
  then show ?thesis using assms
    by (simp add: parse_client_hello_def client_hello_ok_def decode_encode_hex parse_signature_hex
        require_version_def)
qed

lemma parse_server_hello_text:
  assumes "server_hello_ok E h"
  shows "parse_server_hello E (encode_server_hello E h) = Ok h"
proof -
  have "sv_client_exchange_public h \<noteq> []" "sv_server_exchange_public h \<noteq> []"
    "ed_sig_to_bytes E (sv_signature h) \<noteq> []"
    using assms by (auto simp: server_hello_ok_def EXCHANGE_KEY_BYTES_def wire_signature_def)
  then have "split_ascii_whitespace (encode_server_hello E h) =
      [HANDSHAKE_VERSION, ''SERVER_HELLO'', sv_initiator_id h, sv_responder_id h,
       encode_hex (sv_client_exchange_public h), encode_hex (sv_server_exchange_public h),
       encode_hex (ed_sig_to_bytes E (sv_signature h))]"
    using assms unfolding encode_server_hello_def by (intro split_unwords) (simp add: server_hello_ok_def)
  then show ?thesis using assms
    by (simp add: parse_server_hello_def server_hello_ok_def decode_encode_hex parse_signature_hex
        require_version_def)
qed

lemma parse_signature_wire: "signature_scheme_ok E \<Longrightarrow> parse_signature E s = Ok sg \<Longrightarrow> wire_signature E sg"
  by (auto simp: parse_signature_def intro: try_from_wire)

lemma six_fields:
  assumes "length ws = 6"
  obtains a b c d e f where "ws = [a, b, c, d, e, f]"
  using assms by (auto simp: numeral_eq_Suc length_Suc_conv)

lemma seven_fields:
  assumes "length ws = 7"
  obtains a b c d e f g where "ws = [a, b, c, d, e, f, g]"
  using assms by (auto simp: numeral_eq_Suc length_Suc_conv)

lemma parse_client_hello_ok:
  assumes "signature_scheme_ok E" and "parse_client_hello E m = Ok h"
  shows "client_hello_ok E h"
proof -
  have "length (split_ascii_whitespace m) = 6"
    using assms(2) by (simp add: parse_client_hello_def Let_def split: list.splits)
  then obtain a b c d e f where fields: "split_ascii_whitespace m = [a, b, c, d, e, f]"
    by (rule six_fields)
  show ?thesis using assms unfolding parse_client_hello_def fields
    by (auto simp: client_hello_ok_def Let_def parse_signature_wire dest: decode_hex_array_length
        split: if_splits)
qed

lemma parse_server_hello_ok:
  assumes "signature_scheme_ok E" and "parse_server_hello E m = Ok h"
  shows "server_hello_ok E h"
proof -
  have "length (split_ascii_whitespace m) = 7"
    using assms(2) by (simp add: parse_server_hello_def Let_def split: list.splits)
  then obtain a b c d e f g where fields: "split_ascii_whitespace m = [a, b, c, d, e, f, g]"
    by (rule seven_fields)
  show ?thesis using assms unfolding parse_server_hello_def fields
    by (auto simp: server_hello_ok_def Let_def parse_signature_wire dest: decode_hex_array_length
        split: if_splits)
qed

lemma hello_codecs:
  assumes "signature_scheme_ok E"
  shows "codec (encode_client_hello E) (parse_client_hello E) (client_hello_ok E)"
    and "codec (encode_server_hello E) (parse_server_hello E) (server_hello_ok E)"
  using assms
  by (unfold_locales) (blast intro: parse_client_hello_text parse_client_hello_ok
      parse_server_hello_text parse_server_hello_ok)+

section \<open>Signed messages and transcripts determine what they describe\<close>

lemma client_message_prefix:
  assumes "valid_node_id i" "valid_node_id r" "valid_node_id i'" "valid_node_id r'"
  shows "client_signing_message i r x @ u = client_signing_message i' r' x' @ v \<longleftrightarrow>
     i = i' \<and> r = r' \<and> x = x' \<and> u = v"
  using assms unfolding client_signing_message_def
  by (subst signed_lines_prefix) simp_all

lemma client_signing_message_inject:
  assumes "valid_node_id i" "valid_node_id r" "valid_node_id i'" "valid_node_id r'"
  shows "client_signing_message i r x = client_signing_message i' r' x' \<longleftrightarrow> i = i' \<and> r = r' \<and> x = x'"
  using client_message_prefix [OF assms, of x "[]" x' "[]"] by simp

lemma wire_signature_inject:
  "wire_signature E s \<Longrightarrow> wire_signature E t \<Longrightarrow> ed_sig_to_bytes E s = ed_sig_to_bytes E t \<longleftrightarrow> s = t"
  by (metis wire_signature_def sum.inject(2))

lemma server_message_prefix:
  assumes "client_hello_ok E c" "client_hello_ok E d"
  shows "server_signing_message E c x @ u = server_signing_message E d y @ v \<longleftrightarrow> c = d \<and> x = y \<and> u = v"
proof -
  have sig: "ed_sig_to_bytes E (cl_signature c) = ed_sig_to_bytes E (cl_signature d) \<longleftrightarrow> cl_signature c = cl_signature d"
    using assms by (intro wire_signature_inject) (simp_all add: client_hello_ok_def)
  show ?thesis using assms unfolding server_signing_message_def
    by (subst signed_lines_prefix) (simp_all add: client_hello_ok_def sig, auto intro: client_hello.equality)
qed

lemma transcript_inject:
  assumes "client_hello_ok E c" "client_hello_ok E d"
    and "wire_signature E (sv_signature s)" "wire_signature E (sv_signature t)"
  shows "handshake_transcript E c s = handshake_transcript E d t \<longleftrightarrow>
     c = d \<and> sv_server_exchange_public s = sv_server_exchange_public t \<and> sv_signature s = sv_signature t"
proof -
  have ids: "valid_node_id (cl_initiator_id c)" "valid_node_id (cl_responder_id c)"
    "valid_node_id (cl_initiator_id d)" "valid_node_id (cl_responder_id d)"
    using assms by (simp_all add: client_hello_ok_def)
  have len: "length (ed_sig_to_bytes E (cl_signature c)) = length (ed_sig_to_bytes E (cl_signature d))"
    using assms by (simp add: client_hello_ok_def wire_signature_def)
  have sig: "ed_sig_to_bytes E (sv_signature s) = ed_sig_to_bytes E (sv_signature t) \<longleftrightarrow> sv_signature s = sv_signature t"
    using assms(3,4) by (rule wire_signature_inject)
  show ?thesis
    unfolding handshake_transcript_def Let_def client_message_prefix [OF ids] append_eq_append_conv [OF disjI1 [OF len]]
      server_message_prefix [OF assms(1,2)] sig
    by auto
qed

text \<open>A signature made in one role is never a signature for the other.\<close>

lemma signing_roles_differ: "client_signing_message i r x \<noteq> server_signing_message E c y"
proof
  assume eq: "client_signing_message i r x = server_signing_message E c y"
  have "take 19 (client_signing_message i r x) = as_bytes ''MESHLET-HANDSHAKE-C''"
    "take 19 (server_signing_message E c y) = as_bytes ''MESHLET-HANDSHAKE-S''"
    by (simp_all add: client_signing_message_def server_signing_message_def as_bytes_def)
  then show False using eq by simp
qed

section \<open>Both sides derive the same keys\<close>

lemma derive_session_keys_agree:
  "key_exchange_ok K \<Longrightarrow>
     derive_session_keys K (kx_shared K a (kx_public K b)) t = derive_session_keys K (kx_shared K b (kx_public K a)) t"
  by (simp add: key_exchange_ok_def)

lemma derive_session_keys_total:
  assumes "key_exchange_ok K"
  shows "\<exists>keys. derive_session_keys K (kx_shared K a (kx_public K b)) t = Ok keys
     \<and> length (client_to_server keys) = SESSION_KEY_BYTES \<and> length (server_to_client keys) = SESSION_KEY_BYTES"
proof -
  have small: "SESSION_KEY_BYTES \<le> 255 * 32" by (simp add: SESSION_KEY_BYTES_def)
  have "\<exists>okm. kx_expand K salt ikm info SESSION_KEY_BYTES = Some okm \<and> length okm = SESSION_KEY_BYTES"
    for salt ikm info using assms small unfolding key_exchange_ok_def by blast
  then obtain k1 k2 where
    "kx_expand K (kx_digest K t) (kx_shared K a (kx_public K b))
       (as_bytes ''MESHLET/3 client-to-server encryption key'') SESSION_KEY_BYTES = Some k1"
    "length k1 = SESSION_KEY_BYTES"
    "kx_expand K (kx_digest K t) (kx_shared K a (kx_public K b))
       (as_bytes ''MESHLET/3 server-to-client encryption key'') SESSION_KEY_BYTES = Some k2"
    "length k2 = SESSION_KEY_BYTES" by metis
  then show ?thesis using assms by (simp add: derive_session_keys_def Let_def key_exchange_ok_def)
qed

lemma verify_signature_Ok:
  "verify_signature E A n m s = Ok u \<longleftrightarrow> (\<exists>vk. auth_get A n = Some vk \<and> ed_verify_strict E vk m s)"
  by (auto simp: verify_signature_def split: if_splits)

lemma validate_server_hello_Ok:
  "validate_server_hello s c = Ok u \<longleftrightarrow> sv_initiator_id s = cl_initiator_id c
     \<and> sv_responder_id s = cl_responder_id c \<and> sv_client_exchange_public s = cl_exchange_public c"
  by (simp add: validate_server_hello_def)

section \<open>Properties\<close>

text \<open>
  C37.  Both hellos survive printing and parsing exactly when they are within the protocol's
  bounds, and the parsers return nothing else.
\<close>

theorem hello_round_trips:
  assumes "signature_scheme_ok E"
  shows "(parse_client_hello E (encode_client_hello E c) = Ok c \<longleftrightarrow> client_hello_ok E c)
   \<and> ((\<exists>m. parse_client_hello E m = Ok c) \<longleftrightarrow> client_hello_ok E c)
   \<and> (parse_server_hello E (encode_server_hello E s) = Ok s \<longleftrightarrow> server_hello_ok E s)
   \<and> ((\<exists>m. parse_server_hello E m = Ok s) \<longleftrightarrow> server_hello_ok E s)"
  using codec.round_trip_iff [OF hello_codecs(1) [OF assms], of c] codec.dec_valid [OF hello_codecs(1) [OF assms]]
    codec.round_trip_iff [OF hello_codecs(2) [OF assms], of s] codec.dec_valid [OF hello_codecs(2) [OF assms]]
  by blast

definition sample_client_hello :: "bytes client_hello" where
  "sample_client_hello = \<lparr>cl_initiator_id = ''mesh-a'', cl_responder_id = ''mesh-a'',
     cl_exchange_public = replicate 32 1, cl_signature = ed_sign sample_ed25519 sample_secret [1]\<rparr>"

definition sample_server_hello :: "bytes server_hello" where
  "sample_server_hello = \<lparr>sv_initiator_id = ''mesh-a'', sv_responder_id = ''mesh-a'',
     sv_client_exchange_public = replicate 32 1, sv_server_exchange_public = replicate 32 2,
     sv_signature = ed_sign sample_ed25519 sample_secret [2]\<rparr>"

lemma sample_hellos_ok:
  "client_hello_ok sample_ed25519 sample_client_hello" "server_hello_ok sample_ed25519 sample_server_hello"
  by (simp_all add: client_hello_ok_def server_hello_ok_def sample_client_hello_def sample_server_hello_def
      mesh_a_valid EXCHANGE_KEY_BYTES_def sign_wire [OF sample_ed25519_ok])

theorem hello_round_trips_witness:
  "parse_client_hello sample_ed25519 (encode_client_hello sample_ed25519 sample_client_hello) = Ok sample_client_hello
   \<and> parse_server_hello sample_ed25519 (encode_server_hello sample_ed25519 sample_server_hello) = Ok sample_server_hello"
  using hello_round_trips [OF sample_ed25519_ok] sample_hellos_ok by blast

text \<open>
  C15.  The transcript that salts the session keys determines the handshake: two transcripts are
  equal only if all fields of the client hello, the server's exchange key and the server's
  signature agree.
\<close>

theorem transcript_binds_handshake:
  assumes "client_hello_ok E c" and "client_hello_ok E d" and "server_hello_ok E s" and "server_hello_ok E t"
  shows "handshake_transcript E c s = handshake_transcript E d t \<longleftrightarrow>
     c = d \<and> sv_server_exchange_public s = sv_server_exchange_public t \<and> sv_signature s = sv_signature t"
  using assms by (intro transcript_inject) (simp_all add: server_hello_ok_def)

theorem transcript_binds_handshake_witness:
  "handshake_transcript sample_ed25519 sample_client_hello sample_server_hello
   \<noteq> handshake_transcript sample_ed25519 (sample_client_hello\<lparr>cl_responder_id := ''mesh-b''\<rparr>) sample_server_hello"
proof -
  have "valid_node_id ''mesh-b''"
    by (simp add: valid_node_id_def MAX_NODE_ID_BYTES_def is_ascii_alphanumeric_def)
  then have "client_hello_ok sample_ed25519 (sample_client_hello\<lparr>cl_responder_id := ''mesh-b''\<rparr>)"
    using sample_hellos_ok(1) by (simp add: client_hello_ok_def)
  then show ?thesis
    using transcript_binds_handshake [OF sample_hellos_ok(1) _ sample_hellos_ok(2) sample_hellos_ok(2)]
    by (simp add: sample_client_hello_def)
qed

end
