(* ===== verification/Secure_Packet.thy ===== *)
theory Secure_Packet
  imports Std_Text
begin

text \<open>
  \<open>src/secure_packet.rs\<close>: the encrypted data packet.  The cipher (crate
  \<open>chacha20poly1305\<close>) is a parameter: two functions from key, nonce, associated data and
  input to an optional output.  The lemmas characterise \<open>seal\<close> and \<open>open\<close> on every
  branch; the locale \<open>ordered_channel\<close> is the contract between a sender and a receiver
  that a whole stream of messages rests on.
\<close>

record aead =
  aead_encrypt :: "bytes \<Rightarrow> bytes \<Rightarrow> bytes \<Rightarrow> bytes \<Rightarrow> bytes option" \<comment> \<open>key, nonce, aad, message\<close>
  aead_decrypt :: "bytes \<Rightarrow> bytes \<Rightarrow> bytes \<Rightarrow> bytes \<Rightarrow> bytes option" \<comment> \<open>key, nonce, aad, ciphertext\<close>

definition MAGIC :: bytes where "MAGIC = as_bytes ''MSH3''"
definition HEADER_BYTES :: nat where "HEADER_BYTES = 13"
definition AUTHENTICATION_TAG_BYTES :: nat where "AUTHENTICATION_TAG_BYTES = 16"

datatype direction = ClientToServer | ServerToClient

fun wire_value :: "direction \<Rightarrow> u8" where
  "wire_value ClientToServer = 0"
| "wire_value ServerToClient = 1"

definition from_wire :: "u8 \<Rightarrow> direction result" where
  "from_wire value =
     (if value = 0 then Ok ClientToServer
      else if value = 1 then Ok ServerToClient
      else Err (''unknown encrypted-packet direction '' @ decimal (unat value)))"

fun direction_label :: "direction \<Rightarrow> string" where
  "direction_label ClientToServer = ''client-to-server''"
| "direction_label ServerToClient = ''server-to-client''"

definition packet_header :: "direction \<Rightarrow> u64 \<Rightarrow> bytes" where
  "packet_header direction packet_number = MAGIC @ [wire_value direction] @ to_be_bytes packet_number"

definition packet_nonce :: "direction \<Rightarrow> u64 \<Rightarrow> bytes" where
  "packet_nonce direction packet_number =
     [wire_value direction, 0, 0, 0] @ to_be_bytes packet_number"

record packet_sender =
  s_key :: bytes
  s_direction :: direction
  s_next :: u64

definition new_sender :: "bytes \<Rightarrow> direction \<Rightarrow> packet_sender" where
  "new_sender key direction = \<lparr>s_key = key, s_direction = direction, s_next = 0\<rparr>"

definition seal :: "aead \<Rightarrow> packet_sender \<Rightarrow> bytes \<Rightarrow> packet_sender \<times> bytes result" where
  "seal A s plaintext =
     (let packet_number = s_next s in
      case checked_succ packet_number of
        None \<Rightarrow> (s, Err ''outbound packet number exhausted'')
      | Some next_packet_number \<Rightarrow>
          let header = packet_header (s_direction s) packet_number;
              nonce = packet_nonce (s_direction s) packet_number
          in case aead_encrypt A (s_key s) nonce header plaintext of
               None \<Rightarrow> (s, Err ''failed to encrypt packet'')
             | Some ciphertext \<Rightarrow> (s\<lparr>s_next := next_packet_number\<rparr>, Ok (header @ ciphertext)))"

record packet_receiver =
  r_key :: bytes
  r_direction :: direction
  r_next :: u64

definition new_receiver :: "bytes \<Rightarrow> direction \<Rightarrow> packet_receiver" where
  "new_receiver key direction = \<lparr>r_key = key, r_direction = direction, r_next = 0\<rparr>"

text \<open>\<open>open\<close>: the checks in the order of the source; only success advances the receiver.\<close>

definition open_packet :: "aead \<Rightarrow> packet_receiver \<Rightarrow> bytes \<Rightarrow> packet_receiver \<times> bytes result" where
  "open_packet A r packet =
     (if length packet < HEADER_BYTES + AUTHENTICATION_TAG_BYTES
      then (r, Err ''encrypted packet is too short'')
      else if take (length MAGIC) packet \<noteq> MAGIC
      then (r, Err ''encrypted packet has the wrong protocol marker'')
      else case from_wire (packet ! 4) of
        Inl e \<Rightarrow> (r, Err e)
      | Inr direction \<Rightarrow>
          if direction \<noteq> r_direction r
          then (r, Err (''expected a '' @ direction_label (r_direction r) @ '' packet, received ''
                        @ direction_label direction))
          else
            let packet_number = from_be_bytes (take (HEADER_BYTES - 5) (drop 5 packet)) in
            if packet_number \<noteq> r_next r
            then (r, Err (''expected packet number '' @ decimal (unat (r_next r)) @ '', received ''
                          @ decimal (unat packet_number)))
            else case checked_succ packet_number of
              None \<Rightarrow> (r, Err ''inbound packet number exhausted'')
            | Some next_packet_number \<Rightarrow>
                (case aead_decrypt A (r_key r) (packet_nonce direction packet_number)
                        (take HEADER_BYTES packet) (drop HEADER_BYTES packet) of
                   None \<Rightarrow> (r, Err ''encrypted packet authentication failed'')
                 | Some plaintext \<Rightarrow> (r\<lparr>r_next := next_packet_number\<rparr>, Ok plaintext)))"

section \<open>What the cipher promises\<close>

text \<open>
  The documented behaviour of ChaCha20-Poly1305: messages up to \<open>(2 ^ 32 - 1) * 64\<close> bytes
  are encrypted, the ciphertext is 16 bytes longer, decryption under the same key, nonce and
  associated data gives the message back; and, as encryption is deterministic, a ciphertext
  that decrypts is the encryption of what it decrypts to.
\<close>

definition aead_limit :: nat where "aead_limit = (2 ^ 32 - 1) * 64"

definition aead_correct :: "aead \<Rightarrow> bool" where
  "aead_correct A \<longleftrightarrow> (\<forall>k n a m. length m \<le> aead_limit \<longrightarrow>
     (\<exists>c. aead_encrypt A k n a m = Some c)) \<and>
   (\<forall>k n a m c. aead_encrypt A k n a m = Some c \<longrightarrow>
      length c = length m + AUTHENTICATION_TAG_BYTES \<and> aead_decrypt A k n a c = Some m)"

definition aead_tidy :: "aead \<Rightarrow> bool" where
  "aead_tidy A \<longleftrightarrow>
     (\<forall>k n a m c. aead_decrypt A k n a c = Some m \<longrightarrow> aead_encrypt A k n a m = Some c)"

text \<open>A concrete instance for examples: the message in clear followed by a checksum tag.\<close>

definition sample_tag :: "bytes \<Rightarrow> bytes \<Rightarrow> bytes \<Rightarrow> bytes \<Rightarrow> bytes" where
  "sample_tag k n a m = replicate 16 (sum_list (k @ n @ a @ m))"

definition sample_aead :: aead where
  "sample_aead = \<lparr>
     aead_encrypt = (\<lambda>k n a m. Some (m @ sample_tag k n a m)),
     aead_decrypt = (\<lambda>k n a c.
        if 16 \<le> length c \<and>
           drop (length c - 16) c = sample_tag k n a (take (length c - 16) c)
        then Some (take (length c - 16) c) else None)\<rparr>"

lemma length_sample_tag [simp]: "length (sample_tag k n a m) = 16"
  by (simp add: sample_tag_def)

lemma sample_aead_correct: "aead_correct sample_aead"
  by (simp add: aead_correct_def sample_aead_def AUTHENTICATION_TAG_BYTES_def)

lemma sample_aead_tidy: "aead_tidy sample_aead"
  unfolding aead_tidy_def sample_aead_def
  by (auto split: if_splits) (metis append_take_drop_id)

section \<open>Headers and nonces\<close>

lemma length_MAGIC [simp]: "length MAGIC = 4"
  by (simp add: MAGIC_def)

lemma length_packet_header [simp]: "length (packet_header d n) = 13"
  by (simp add: packet_header_def)

lemma wire_value_inject [simp]: "wire_value d = wire_value e \<longleftrightarrow> d = e"
  by (cases d; cases e) simp_all

lemma from_wire_value [simp]: "from_wire (wire_value d) = Ok d"
  by (cases d) (simp_all add: from_wire_def)

lemma from_wire_Ok: "from_wire v = Ok d \<longleftrightarrow> v = wire_value d"
  by (cases d) (auto simp: from_wire_def split: if_splits)

lemma packet_header_inject [simp]: "packet_header d m = packet_header e n \<longleftrightarrow> d = e \<and> m = n"
  by (auto simp: packet_header_def)

lemma packet_nonce_inject [simp]: "packet_nonce d m = packet_nonce e n \<longleftrightarrow> d = e \<and> m = n"
  by (auto simp: packet_nonce_def)

lemma length_packet_nonce [simp]: "length (packet_nonce d n) = 12"
  by (simp add: packet_nonce_def)

text \<open>The three header checks together say that the packet starts with a given header.\<close>

lemma header_checks:
  assumes "13 \<le> length packet"
  shows "take (length MAGIC) packet = MAGIC \<and> packet ! 4 = wire_value d
       \<and> from_be_bytes (take (HEADER_BYTES - 5) (drop 5 packet)) = n
     \<longleftrightarrow> take HEADER_BYTES packet = packet_header d n"
proof -
  have split: "take HEADER_BYTES packet = take 4 packet @ [packet ! 4] @ take 8 (drop 5 packet)"
  proof -
    have "take 13 packet = take 4 packet @ take 9 (drop 4 packet)"
      using take_add [of 4 9 packet] by simp
    moreover have "drop 4 packet = packet ! 4 # drop 5 packet"
      using assms Cons_nth_drop_Suc [of 4 packet] by simp
    then have "take 9 (drop 4 packet) = packet ! 4 # take 8 (drop 5 packet)" by simp
    ultimately show ?thesis by (simp add: HEADER_BYTES_def)
  qed
  have len: "length (take 8 (drop 5 packet)) = 8" using assms by simp
  have len4: "length (take 4 packet) = length MAGIC" "min (length packet) 4 = 4" using assms by simp_all
  show ?thesis
    using to_from_be_bytes [OF len] from_to_be_bytes [of n] len4 unfolding split packet_header_def
    by (auto simp: HEADER_BYTES_def)
qed

section \<open>Behaviour of seal and open on every branch\<close>

lemma seal_Ok:
  "seal A s m = (s', Ok packet) \<longleftrightarrow>
     (\<exists>n ciphertext. checked_succ (s_next s) = Some n
        \<and> aead_encrypt A (s_key s) (packet_nonce (s_direction s) (s_next s))
            (packet_header (s_direction s) (s_next s)) m = Some ciphertext
        \<and> packet = packet_header (s_direction s) (s_next s) @ ciphertext
        \<and> s' = s\<lparr>s_next := n\<rparr>)"
  by (auto simp: seal_def Let_def split: option.splits)

lemma seal_Err: "seal A s m = (s', Err e) \<Longrightarrow> s' = s"
  by (auto simp: seal_def Let_def split: option.splits)

lemma open_Err: "open_packet A r packet = (r', Err e) \<Longrightarrow> r' = r"
  by (auto simp: open_packet_def Let_def split: option.splits sum.splits if_splits)

text \<open>A packet is accepted exactly when it is the expected header followed by an authentic
  ciphertext for that header.\<close>

lemma open_Ok:
  "open_packet A r packet = (r', Ok m) \<longleftrightarrow>
     (\<exists>n ciphertext. packet = packet_header (r_direction r) (r_next r) @ ciphertext
        \<and> AUTHENTICATION_TAG_BYTES \<le> length ciphertext
        \<and> checked_succ (r_next r) = Some n
        \<and> aead_decrypt A (r_key r) (packet_nonce (r_direction r) (r_next r))
            (packet_header (r_direction r) (r_next r)) ciphertext = Some m
        \<and> r' = r\<lparr>r_next := n\<rparr>)" (is "?opened \<longleftrightarrow> ?accepted")
proof
  assume opened: ?opened
  then have len: "29 \<le> length packet"
    by (auto simp: open_packet_def HEADER_BYTES_def AUTHENTICATION_TAG_BYTES_def split: if_splits)
  then have long: "13 \<le> length packet" by simp
  have "take (length MAGIC) packet = MAGIC \<and> packet ! 4 = wire_value (r_direction r)
      \<and> from_be_bytes (take (HEADER_BYTES - 5) (drop 5 packet)) = r_next r"
    using opened by (auto simp: open_packet_def Let_def from_wire_Ok split: if_splits sum.splits option.splits)
  then have header: "take HEADER_BYTES packet = packet_header (r_direction r) (r_next r)"
    using header_checks [OF long] by blast
  then have "packet = packet_header (r_direction r) (r_next r) @ drop HEADER_BYTES packet"
    by (metis append_take_drop_id)
  moreover have "AUTHENTICATION_TAG_BYTES \<le> length (drop HEADER_BYTES packet)"
    using len by (simp add: HEADER_BYTES_def AUTHENTICATION_TAG_BYTES_def)
  moreover obtain n where "checked_succ (r_next r) = Some n" "r' = r\<lparr>r_next := n\<rparr>"
    "aead_decrypt A (r_key r) (packet_nonce (r_direction r) (r_next r))
       (packet_header (r_direction r) (r_next r)) (drop HEADER_BYTES packet) = Some m"
    using opened header
    by (auto simp: open_packet_def Let_def split: if_splits sum.splits option.splits)
  ultimately show ?accepted by blast
next
  assume ?accepted
  then obtain n ciphertext where packet: "packet = packet_header (r_direction r) (r_next r) @ ciphertext"
    and len: "AUTHENTICATION_TAG_BYTES \<le> length ciphertext" and n: "checked_succ (r_next r) = Some n"
    and dec: "aead_decrypt A (r_key r) (packet_nonce (r_direction r) (r_next r))
            (packet_header (r_direction r) (r_next r)) ciphertext = Some m"
    and r': "r' = r\<lparr>r_next := n\<rparr>" by blast
  have header: "take HEADER_BYTES packet = packet_header (r_direction r) (r_next r)"
    and rest: "drop HEADER_BYTES packet = ciphertext" by (simp_all add: packet HEADER_BYTES_def)
  have long: "13 \<le> length packet" by (simp add: packet)
  from header_checks [OF long] header have "take (length MAGIC) packet = MAGIC"
    "packet ! 4 = wire_value (r_direction r)"
    "from_be_bytes (take (HEADER_BYTES - 5) (drop 5 packet)) = r_next r" by blast+
  moreover have "\<not> length packet < HEADER_BYTES + AUTHENTICATION_TAG_BYTES"
    using len by (simp add: packet HEADER_BYTES_def)
  ultimately show ?opened using n dec r' header rest by (simp add: open_packet_def Let_def)
qed

section \<open>Streams of packets\<close>

text \<open>
  The contract between the two ends of one direction: while they are synchronised, what is
  sent successfully is received as it was sent, and both stay synchronised.
\<close>

locale ordered_channel =
  fixes send :: "'s \<Rightarrow> 'm \<Rightarrow> 's \<times> ('e + 'p)"
    and receive :: "'r \<Rightarrow> 'p \<Rightarrow> 'r \<times> ('e + 'm)"
    and synced :: "'s \<Rightarrow> 'r \<Rightarrow> bool"
  assumes delivered: "synced s r \<Longrightarrow> send s m = (s', Inr p) \<Longrightarrow>
      \<exists>r'. receive r p = (r', Inr m) \<and> synced s' r'"
begin

theorem stream_delivered:
  "synced s r \<Longrightarrow> call_each send s ms = (s', map Inr ps) \<Longrightarrow>
     \<exists>r'. call_each receive r ps = (r', map Inr ms) \<and> synced s' r'"
proof (induction ms arbitrary: s r ps)
  case Nil
  then show ?case by auto
next
  case (Cons m ms)
  obtain s1 o1 where step: "send s m = (s1, o1)" by (cases "send s m")
  obtain s2 os where rest: "call_each send s1 ms = (s2, os)" by (cases "call_each send s1 ms")
  from Cons.prems(2) step rest obtain p ps' where ps: "ps = p # ps'" and "o1 = Inr p"
    and os: "os = map Inr ps'" and s2: "s2 = s'" by (cases ps) auto
  with delivered [OF Cons.prems(1)] step obtain r1 where recv: "receive r p = (r1, Inr m)"
    and sync: "synced s1 r1" by blast
  from Cons.IH [OF sync] rest os s2 obtain r2 where
    "call_each receive r1 ps' = (r2, map Inr ms)" "synced s' r2" by blast
  with recv ps show ?case by simp
qed

end

definition synced :: "aead \<Rightarrow> packet_sender \<Rightarrow> packet_receiver \<Rightarrow> bool" where
  "synced A s r \<longleftrightarrow> aead_correct A \<and> s_key s = r_key r \<and> s_direction s = r_direction r
     \<and> s_next s = r_next r"

interpretation packets: ordered_channel "seal A" "open_packet A" "synced A" for A
proof
  fix s r m s' p
  assume sync: "synced A s r" and sealed: "seal A s m = (s', Inr p)"
  obtain n c where n: "checked_succ (s_next s) = Some n" and s': "s' = s\<lparr>s_next := n\<rparr>"
    and enc: "aead_encrypt A (s_key s) (packet_nonce (s_direction s) (s_next s))
        (packet_header (s_direction s) (s_next s)) m = Some c"
    and p: "p = packet_header (s_direction s) (s_next s) @ c"
    using sealed by (auto simp: seal_Ok)
  have "open_packet A r p = (r\<lparr>r_next := n\<rparr>, Inr m)"
    using sync n enc p by (auto simp: open_Ok synced_def aead_correct_def)
  moreover have "synced A s' (r\<lparr>r_next := n\<rparr>)" using sync s' by (simp add: synced_def)
  ultimately show "\<exists>r'. open_packet A r p = (r', Inr m) \<and> synced A s' r'" by blast
qed

text \<open>While numbers remain, a correct cipher seals every message within its limit.\<close>

lemma seal_total:
  assumes "aead_correct A" and "length m \<le> aead_limit" and "unat (s_next s) < u64_max"
  shows "\<exists>packet n. seal A s m = (s\<lparr>s_next := n\<rparr>, Ok packet) \<and> unat n = unat (s_next s) + 1"
proof -
  have "s_next s \<noteq> 0xFFFFFFFFFFFFFFFF" using assms(3) by (auto simp: u64_max_def)
  then obtain n where n: "checked_succ (s_next s) = Some n" by (auto simp: checked_succ_def)
  then have "unat n = unat (s_next s) + 1" by (rule unat_checked_succ)
  moreover obtain c where "aead_encrypt A (s_key s) (packet_nonce (s_direction s) (s_next s))
      (packet_header (s_direction s) (s_next s)) m = Some c"
    using assms(1,2) unfolding aead_correct_def by blast
  then have "seal A s m = (s\<lparr>s_next := n\<rparr>, Ok (packet_header (s_direction s) (s_next s) @ c))"
    using n by (simp add: seal_Ok)
  ultimately show ?thesis by blast
qed

lemma seal_each_total:
  assumes "aead_correct A"
  shows "\<forall>m \<in> set ms. length m \<le> aead_limit \<Longrightarrow> unat (s_next s) + length ms \<le> u64_max \<Longrightarrow>
     \<exists>s' ps. call_each (seal A) s ms = (s', map Ok ps)"
proof (induction ms arbitrary: s)
  case Nil
  have "call_each (seal A) s [] = (s, map Ok [])" by simp
  then show ?case by blast
next
  case (Cons m ms)
  from seal_total [OF assms, of m s] Cons.prems obtain packet n
    where seal: "seal A s m = (s\<lparr>s_next := n\<rparr>, Ok packet)" and n: "unat n = unat (s_next s) + 1"
    by auto
  have "unat (s_next (s\<lparr>s_next := n\<rparr>)) + length ms \<le> u64_max" using Cons.prems n by simp
  with Cons.IH Cons.prems obtain s' ps
    where "call_each (seal A) (s\<lparr>s_next := n\<rparr>) ms = (s', map Ok ps)" by (meson list.set_intros(2))
  with seal have "call_each (seal A) s (m # ms) = (s', map Ok (packet # ps))" by simp
  then show ?case by blast
qed

section \<open>Numbering\<close>

text \<open>Successful calls advance the counter by one each, whatever else is attempted.\<close>

lemma seal_each_headers:
  "call_each (seal A) s ms = (s', outs) \<Longrightarrow>
     map (take 13) (oks outs) = map (\<lambda>i. packet_header (s_direction s) (s_next s + of_nat i)) [0..<length (oks outs)]
     \<and> unat (s_next s') = unat (s_next s) + length (oks outs)"
proof (induction ms arbitrary: s outs)
  case Nil
  then show ?case by auto
next
  case (Cons m ms)
  obtain s1 o1 where step: "seal A s m = (s1, o1)" by (cases "seal A s m")
  obtain s2 os where rest: "call_each (seal A) s1 ms = (s2, os)" by (cases "call_each (seal A) s1 ms")
  from Cons.prems step rest have outs: "outs = o1 # os" and s2: "s2 = s'" by auto
  note IH = Cons.IH [OF rest [unfolded s2]]
  show ?case
  proof (cases o1)
    case (Inl e)
    with step have "s1 = s" by (auto dest: seal_Err)
    with IH outs s2 Inl show ?thesis by simp
  next
    case (Inr packet)
    with step obtain n where n: "checked_succ (s_next s) = Some n" and s1: "s1 = s\<lparr>s_next := n\<rparr>"
      and head: "take 13 packet = packet_header (s_direction s) (s_next s)" by (auto simp: seal_Ok)
    from n have "n = s_next s + 1" by (auto simp: checked_succ_def split: if_splits)
    then have "map (\<lambda>i. packet_header (s_direction s) (s_next s + of_nat i)) [0..<Suc k]
        = packet_header (s_direction s) (s_next s) # map (\<lambda>i. packet_header (s_direction s) (n + of_nat i)) [0..<k]" for k
      by (subst upt_conv_Cons) (simp_all add: map_Suc_upt [symmetric] comp_def algebra_simps del: upt_Suc)
    with IH outs s2 Inr head s1 unat_checked_succ [OF n] show ?thesis by simp
  qed
qed

text \<open>
  The messages of the successful calls, in order; the \<open>i\<close>-th of them is what the cipher encrypted,
  under the nonce and header of the \<open>i\<close>-th number, into the \<open>i\<close>-th packet.
\<close>

definition succeeded :: "bytes list \<Rightarrow> bytes result list \<Rightarrow> bytes list" where
  "succeeded ms outs = map fst (filter (\<lambda>(m, r). \<not> is_err r) (zip ms outs))"

lemma succeeded_simps [simp]:
  "succeeded [] outs = []" "succeeded (m # ms) (Inl e # outs) = succeeded ms outs"
  "succeeded (m # ms) (Inr x # outs) = m # succeeded ms outs"
  by (simp_all add: succeeded_def)

lemma seal_each_encrypts:
  "call_each (seal A) s ms = (s', outs) \<Longrightarrow> i < length (oks outs) \<Longrightarrow>
     \<exists>c. aead_encrypt A (s_key s) (packet_nonce (s_direction s) (s_next s + of_nat i))
           (packet_header (s_direction s) (s_next s + of_nat i)) (succeeded ms outs ! i) = Some c
       \<and> oks outs ! i = packet_header (s_direction s) (s_next s + of_nat i) @ c"
proof (induction ms arbitrary: s outs i)
  case Nil
  then show ?case by auto
next
  case (Cons m ms)
  obtain s1 o1 where step: "seal A s m = (s1, o1)" by (cases "seal A s m")
  obtain s2 os where rest: "call_each (seal A) s1 ms = (s2, os)" by (cases "call_each (seal A) s1 ms")
  from Cons.prems(1) step rest have outs: "outs = o1 # os" and s2: "s2 = s'" by auto
  note IH = Cons.IH [OF rest [unfolded s2]]
  show ?case
  proof (cases o1)
    case (Inl e)
    with step have "s1 = s" by (auto dest: seal_Err)
    with IH [of i] outs Inl Cons.prems(2) show ?thesis by simp
  next
    case (Inr packet)
    with step obtain n c where n: "checked_succ (s_next s) = Some n" and s1: "s1 = s\<lparr>s_next := n\<rparr>"
      and enc: "aead_encrypt A (s_key s) (packet_nonce (s_direction s) (s_next s))
        (packet_header (s_direction s) (s_next s)) m = Some c"
      and packet: "packet = packet_header (s_direction s) (s_next s) @ c" by (auto simp: seal_Ok)
    from n have n1: "n = s_next s + 1" by (auto simp: checked_succ_def split: if_splits)
    show ?thesis
    proof (cases i)
      case 0
      then show ?thesis using outs Inr enc packet by simp
    next
      case (Suc j)
      then show ?thesis using IH [of j] outs Inr s1 n1 Cons.prems(2) by (simp add: add.assoc)
    qed
  qed
qed

lemma open_each_numbers:
  "call_each (open_packet A) r ps = (r', outs) \<Longrightarrow>
     unat (r_next r') = unat (r_next r) + length (oks outs)
     \<and> r_key r' = r_key r \<and> r_direction r' = r_direction r"
proof (induction ps arbitrary: r outs)
  case Nil
  then show ?case by auto
next
  case (Cons p ps)
  obtain r1 o1 where step: "open_packet A r p = (r1, o1)" by (cases "open_packet A r p")
  obtain r2 os where rest: "call_each (open_packet A) r1 ps = (r2, os)" by (cases "call_each (open_packet A) r1 ps")
  from Cons.prems step rest have outs: "outs = o1 # os" and r2: "r2 = r'" by auto
  note IH = Cons.IH [OF rest [unfolded r2]]
  show ?case
  proof (cases o1)
    case (Inl e)
    with step have "r1 = r" by (auto dest: open_Err)
    with IH outs r2 Inl show ?thesis by simp
  next
    case (Inr m)
    with step obtain n where "checked_succ (r_next r) = Some n" and "r1 = r\<lparr>r_next := n\<rparr>"
      by (auto simp: open_Ok)
    with IH outs r2 Inr unat_checked_succ show ?thesis by simp
  qed
qed

section \<open>Properties\<close>

text \<open>
  C12.  A stream survives the channel: any sequence of messages within the cipher's limit (fewer
  than \<open>2 ^ 64\<close> of them) is sealed without error from packet number zero, and the receiver with
  the same key and direction opens the packets in order to exactly these messages.
\<close>

theorem packet_stream_round_trip:
  assumes "aead_correct A" and "list_all (\<lambda>m. length m \<le> aead_limit) ms" and "length ms \<le> u64_max"
  shows "\<exists>s' ps r'. call_each (seal A) (new_sender k d) ms = (s', map Ok ps)
     \<and> call_each (open_packet A) (new_receiver k d) ps = (r', map Ok ms)"
proof -
  have "\<forall>m \<in> set ms. length m \<le> aead_limit" using assms(2) by (simp add: list_all_iff)
  then obtain s' ps where sealed: "call_each (seal A) (new_sender k d) ms = (s', map Ok ps)"
    using seal_each_total [OF assms(1), of ms "new_sender k d"] assms(3) by (auto simp: new_sender_def)
  have "synced A (new_sender k d) (new_receiver k d)"
    using assms(1) by (simp add: synced_def new_sender_def new_receiver_def)
  from packets.stream_delivered [OF this sealed] sealed show ?thesis by blast
qed

theorem packet_stream_round_trip_witness:
  "\<exists>s' ps r'. call_each (seal sample_aead) (new_sender [7] ClientToServer) [[1], [2, 3]] = (s', map Ok ps)
     \<and> call_each (open_packet sample_aead) (new_receiver [7] ClientToServer) ps = (r', map Ok [[1], [2, 3]])"
  by (rule packet_stream_round_trip [OF sample_aead_correct]) (simp_all add: aead_limit_def u64_max_def)

text \<open>
  The receiver accepts exactly one form of packet: the header of its direction and next
  number, then a ciphertext of at least the tag's length that authenticates under that header and
  nonce.  Acceptance returns the plaintext and advances the number by one without wrapping.
\<close>

theorem open_accepts_exactly:
  "open_packet A r packet = (r', Ok m) \<longleftrightarrow>
     (\<exists>n ciphertext. packet = packet_header (r_direction r) (r_next r) @ ciphertext
        \<and> AUTHENTICATION_TAG_BYTES \<le> length ciphertext
        \<and> checked_succ (r_next r) = Some n
        \<and> aead_decrypt A (r_key r) (packet_nonce (r_direction r) (r_next r))
            (packet_header (r_direction r) (r_next r)) ciphertext = Some m
        \<and> r' = r\<lparr>r_next := n\<rparr>)"
  by (rule open_Ok)

text \<open>
  C13.  A packet is accepted at most once: after it was opened, no later state of the receiver,
  whatever packets arrive in between, opens it again.
\<close>

theorem replay_rejected:
  assumes "open_packet A r packet = (r1, Ok m)" and "call_each (open_packet A) r1 packets = (r2, outs)"
  shows "\<exists>e. open_packet A r2 packet = (r2, Err e)"
proof -
  from assms(1) obtain n c where n: "checked_succ (r_next r) = Some n" and r1: "r1 = r\<lparr>r_next := n\<rparr>"
    and packet: "packet = packet_header (r_direction r) (r_next r) @ c" by (auto simp: open_Ok)
  have "unat (r_next r) < unat (r_next r2)" "r_direction r2 = r_direction r"
    using open_each_numbers [OF assms(2)] unat_checked_succ [OF n] r1 by simp_all
  then have "packet_header (r_direction r2) (r_next r2) \<noteq> packet_header (r_direction r) (r_next r)" by auto
  then have no: "open_packet A r2 packet \<noteq> (r3, Ok m')" for r3 m'
    by (auto simp: open_Ok packet)
  obtain r3 o3 where out: "open_packet A r2 packet = (r3, o3)" by (cases "open_packet A r2 packet")
  with no obtain e where "o3 = Err e" by (cases o3) auto
  with out open_Err show ?thesis by blast
qed

lemma sample_first_packet:
  "\<exists>s packet r1. seal sample_aead (new_sender [7] ClientToServer) [1] = (s, Ok packet)
     \<and> open_packet sample_aead (new_receiver [7] ClientToServer) packet = (r1, Ok [1])"
proof -
  have sync: "synced sample_aead (new_sender [7] ClientToServer) (new_receiver [7] ClientToServer)"
    by (simp add: synced_def new_sender_def new_receiver_def sample_aead_correct)
  obtain s packet where sealed: "seal sample_aead (new_sender [7] ClientToServer) [1] = (s, Ok packet)"
    using seal_total [OF sample_aead_correct, of "[1]" "new_sender [7] ClientToServer"]
    by (auto simp: aead_limit_def u64_max_def new_sender_def)
  with packets.delivered [OF sync sealed] show ?thesis by blast
qed

theorem replay_rejected_witness:
  "\<exists>r1 packet e. open_packet sample_aead (new_receiver [7] ClientToServer) packet = (r1, Ok [1])
     \<and> open_packet sample_aead r1 packet = (r1, Err e)"
proof -
  obtain packet r1 where first: "open_packet sample_aead (new_receiver [7] ClientToServer) packet = (r1, Ok [1])"
    using sample_first_packet by blast
  have "call_each (open_packet sample_aead) r1 [] = (r1, [])" by simp
  from replay_rejected [OF first this] first show ?thesis by blast
qed

text \<open>
  C14.  A sender numbers its packets 0, 1, 2, \<dots> in the order of its successful calls, whatever
  calls fail in between: the \<open>i\<close>-th packet is the header of number \<open>i\<close> and what the cipher gives
  for the message of that call under the nonce and header of number \<open>i\<close>.  These nonces are all
  different, so the sender's key never encrypts two packets under one nonce.
\<close>

theorem nonces_never_repeat:
  assumes "call_each (seal A) (new_sender k d) ms = (s', outs)"
  shows "(\<forall>i < length (oks outs). \<exists>c.
        aead_encrypt A k (packet_nonce d (of_nat i)) (packet_header d (of_nat i)) (succeeded ms outs ! i) = Some c
        \<and> oks outs ! i = packet_header d (of_nat i) @ c)
     \<and> distinct (map (\<lambda>i. packet_nonce d (of_nat i)) [0..<length (oks outs)])"
proof (intro conjI allI impI)
  fix i assume "i < length (oks outs)"
  from seal_each_encrypts [OF assms this] show "\<exists>c.
      aead_encrypt A k (packet_nonce d (of_nat i)) (packet_header d (of_nat i)) (succeeded ms outs ! i) = Some c
      \<and> oks outs ! i = packet_header d (of_nat i) @ c" by (simp add: new_sender_def)
next
  let ?N = "length (oks outs)"
  have count: "unat (s_next s') = ?N" using seal_each_headers [OF assms] by (simp add: new_sender_def)
  have "?N < 2 ^ 64" using count unsigned_less [of "s_next s'", where 'a = nat] by simp
  then have "inj_on (\<lambda>i. packet_nonce d (of_nat i)) {0..<?N}"
    by (intro inj_onI) (auto simp: of_nat_inverse dest!: arg_cong [where f = unat])
  then show "distinct (map (\<lambda>i. packet_nonce d (of_nat i)) [0..<?N])" by (simp add: distinct_map)
qed

theorem nonces_never_repeat_witness:
  "\<exists>s' ps c. call_each (seal sample_aead) (new_sender [7] ServerToClient) [[1], [2]] = (s', map Ok ps)
     \<and> aead_encrypt sample_aead [7] (packet_nonce ServerToClient 1) (packet_header ServerToClient 1) [2] = Some c
     \<and> ps ! 1 = packet_header ServerToClient 1 @ c"
proof -
  obtain s' ps where sealed: "call_each (seal sample_aead) (new_sender [7] ServerToClient) [[1], [2]] = (s', map Ok ps)"
    using seal_each_total [OF sample_aead_correct, of "[[1], [2]]" "new_sender [7] ServerToClient"]
    by (auto simp: aead_limit_def u64_max_def new_sender_def)
  have oks: "oks (map Ok xs) = xs" for xs :: "bytes list" by (induction xs) simp_all
  have len: "length ps = 2" using call_each_length [of "seal sample_aead" "new_sender [7] ServerToClient" "[[1], [2]]"] sealed
    by simp
  then obtain p q where "ps = [p, q]" by (auto simp: length_Suc_conv numeral_2_eq_2)
  then have "succeeded [[1], [2]] (map Ok ps) ! 1 = [2]" by simp
  with nonces_never_repeat [OF sealed, THEN conjunct1, rule_format, of 1] sealed len show ?thesis
    by (simp add: oks)
qed

text \<open>
  C11.  What is opened is what was sealed: if a ciphertext that decrypts is the encryption of its
  plaintext, then an accepted packet is, byte for byte, the packet a sender with the receiver's
  key, direction and number makes for that plaintext.
\<close>

theorem accepted_packet_was_sealed:
  assumes "aead_tidy A" and "open_packet A r packet = (r', Ok m)"
  shows "\<exists>s'. seal A \<lparr>s_key = r_key r, s_direction = r_direction r, s_next = r_next r\<rparr> m = (s', Ok packet)
     \<and> s_next s' = r_next r'"
  using assms by (auto simp: open_Ok seal_Ok aead_tidy_def)

theorem accepted_packet_was_sealed_witness:
  "\<exists>packet r1 s'. open_packet sample_aead (new_receiver [7] ClientToServer) packet = (r1, Ok [1])
     \<and> seal sample_aead \<lparr>s_key = [7], s_direction = ClientToServer, s_next = 0\<rparr> [1] = (s', Ok packet)"
proof -
  obtain packet r1 where first: "open_packet sample_aead (new_receiver [7] ClientToServer) packet = (r1, Ok [1])"
    using sample_first_packet by blast
  from accepted_packet_was_sealed [OF sample_aead_tidy first] first show ?thesis
    unfolding new_receiver_def by auto
qed

end
