(* ===== verification/Handshake.thy ===== *)
theory Handshake
  imports Handshake_Wire Secure_Packet Sockets
begin

text \<open>
  The roles of \<open>src/handshake.rs\<close>: the secure echo server, the client's session set-up, the
  encrypted exchange and the automatic choice between a direct and a relayed path.  The
  operating system's answers (received datagrams, failures, ephemeral secrets) are inputs; the
  result lists the datagrams sent.  The lemmas characterise when a session is established and
  what a role has checked before it sends.
\<close>

definition HANDSHAKE_DATAGRAM_BYTES :: nat where "HANDSHAKE_DATAGRAM_BYTES = 1024"
definition RESPONSE_TIMEOUT :: duration where "RESPONSE_TIMEOUT = from_secs 2"
definition DIRECT_PATH_TIMEOUT :: duration where "DIRECT_PATH_TIMEOUT = 250 * 1000000"
lemma timeouts_pos [simp]: "0 < RESPONSE_TIMEOUT" "0 < DIRECT_PATH_TIMEOUT"
  and direct_before_response: "DIRECT_PATH_TIMEOUT \<le> RESPONSE_TIMEOUT"
  by (simp_all add: RESPONSE_TIMEOUT_def DIRECT_PATH_TIMEOUT_def from_secs_def nanos_per_sec_def)

definition LEARNING_MESSAGE :: bytes where
  "LEARNING_MESSAGE = as_bytes (''hello from encrypted meshlet'' @ [CHR 0x0A])"

definition as_millis :: "duration \<Rightarrow> nat" where "as_millis d = d div 1000000"

datatype client_attempt_error = Local string | Unreachable string | Rejected string

fun attempt_message :: "client_attempt_error \<Rightarrow> string" where
  "attempt_message (Local m) = m"
| "attempt_message (Unreachable m) = m"
| "attempt_message (Rejected m) = m"

fun permits_fallback :: "client_attempt_error \<Rightarrow> bool" where
  "permits_fallback (Unreachable _) = True"
| "permits_fallback _ = False"

section \<open>Receiving\<close>

definition receive_bytes_from ::
  "string + (bytes \<times> socket_addr) \<Rightarrow> string \<Rightarrow> (bytes \<times> socket_addr) outcome" where
  "receive_bytes_from received description =
     out_bind (or_panic (\<lambda>e. ''failed to receive '' @ description @ '': '' @ e) received)
       (\<lambda>(payload, source).
     let bs = recv_into (HANDSHAKE_DATAGRAM_BYTES + 1) payload in
     if HANDSHAKE_DATAGRAM_BYTES < length bs
     then Panics (description @ '' exceeds '' @ decimal HANDSHAKE_DATAGRAM_BYTES @ ''-byte limit'')
     else Returns (bs, source))"

definition receive_from ::
  "string + (bytes \<times> socket_addr) \<Rightarrow> string \<Rightarrow> (string \<times> socket_addr) outcome" where
  "receive_from received description =
     out_bind (receive_bytes_from received description) (\<lambda>(bs, source).
     out_bind (expect (description @ '' is not UTF-8'') (from_utf8 bs)) (\<lambda>message.
     Returns (message, source)))"

definition try_receive_connected_bytes :: "string + bytes \<Rightarrow> string \<Rightarrow> bytes result" where
  "try_receive_connected_bytes received description =
     and_then (map_err (\<lambda>e. ''failed to receive '' @ description @ '': '' @ e) received) (\<lambda>payload.
     let bs = recv_into (HANDSHAKE_DATAGRAM_BYTES + 1) payload in
     if HANDSHAKE_DATAGRAM_BYTES < length bs
     then Err (description @ '' exceeds '' @ decimal HANDSHAKE_DATAGRAM_BYTES @ ''-byte limit'')
     else Ok bs)"

definition try_receive_connected :: "string + bytes \<Rightarrow> string \<Rightarrow> string result" where
  "try_receive_connected received description =
     and_then (try_receive_connected_bytes received description) (\<lambda>bs.
     ok_or (description @ '' is not UTF-8'') (from_utf8 bs))"

definition receive_connected_bytes :: "string + bytes \<Rightarrow> string \<Rightarrow> bytes outcome" where
  "receive_connected_bytes received description =
     or_panic (\<lambda>e. ''failed to receive '' @ description @ '' within two seconds: '' @ e)
       (try_receive_connected_bytes received description)"

section \<open>The server\<close>

text \<open>From the received hello to the answer and the session keys, before anything is sent.\<close>

definition accept_client ::
  "('vk, 'sig) ed25519 \<Rightarrow> key_exchange \<Rightarrow> identity \<Rightarrow> 'vk authorizations \<Rightarrow> bytes \<Rightarrow> string \<Rightarrow>
     ('sig client_hello \<times> 'sig server_hello \<times> bytes \<times> session_keys) outcome" where
  "accept_client E K identity authorizations secret message =
     out_bind (or_panic (\<lambda>e. ''invalid client hello: '' @ e) (parse_client_hello E message)) (\<lambda>client.
     if cl_responder_id client \<noteq> id_node_id identity
     then Panics (''handshake targets node '' @ quoted (cl_responder_id client)
                  @ '', but this server is '' @ quoted (id_node_id identity))
     else
       out_bind (or_panic (\<lambda>e. ''client authentication failed: '' @ e)
         (verify_signature E authorizations (cl_initiator_id client)
            (client_signing_message (cl_initiator_id client) (cl_responder_id client)
               (cl_exchange_public client))
            (cl_signature client))) (\<lambda>_.
       let server_exchange_public = kx_public K secret;
           server_signature = identity_sign E identity (server_signing_message E client server_exchange_public);
           server = \<lparr>sv_initiator_id = cl_initiator_id client, sv_responder_id = cl_responder_id client,
                     sv_client_exchange_public = cl_exchange_public client,
                     sv_server_exchange_public = server_exchange_public, sv_signature = server_signature\<rparr>;
           shared_secret = kx_shared K secret (cl_exchange_public client);
           transcript = handshake_transcript E client server
       in out_bind (or_panic (\<lambda>e. ''failed to derive session keys: '' @ e)
            (derive_session_keys K shared_secret transcript)) (\<lambda>keys.
          Returns (client, server, transcript, keys))))"

text \<open>Opening the one request and sealing its echo.\<close>

definition echo_packet :: "aead \<Rightarrow> session_keys \<Rightarrow> bytes \<Rightarrow> (bytes \<times> bytes) outcome" where
  "echo_packet C keys encrypted_request =
     (let receiver = new_receiver (client_to_server keys) ClientToServer in
      out_bind (or_panic (\<lambda>e. ''failed to open encrypted request: '' @ e)
        (snd (open_packet C receiver encrypted_request))) (\<lambda>plaintext.
      let sender = new_sender (server_to_client keys) ServerToClient in
      out_bind (or_panic (\<lambda>e. ''failed to seal encrypted response: '' @ e)
        (snd (seal C sender plaintext))) (\<lambda>encrypted_response.
      Returns (plaintext, encrypted_response))))"

record echo_server_io =
  es_bind_error :: "string option"
  es_hello :: "string + (bytes \<times> socket_addr)"
  es_hello_send_error :: "string option"
  es_timeout_error :: "string option"
  es_request :: "string + (bytes \<times> socket_addr)"
  es_echo_send_error :: "string option"

definition run_secure_echo_server ::
  "('vk, 'sig) ed25519 \<Rightarrow> key_exchange \<Rightarrow> aead \<Rightarrow> echo_server_io \<Rightarrow> bytes \<Rightarrow>
     string \<Rightarrow> string + string \<Rightarrow> string \<Rightarrow> string + string \<Rightarrow>
     (bytes \<times> socket_addr) list \<times> bytes outcome" where
  "run_secure_echo_server E K C io secret identity_path identity_file authorization_path authorization_file =
     (case out_bind (or_panic (\<lambda>e. ''failed to load server identity: '' @ e)
                       (load_identity identity_path identity_file)) (\<lambda>identity.
           out_bind (or_panic (\<lambda>e. ''failed to load peer authorizations: '' @ e)
                       (load_authorizations E authorization_path authorization_file)) (\<lambda>authorizations.
           out_bind (expect_sent ''failed to bind peer handshake UDP socket'' (es_bind_error io)) (\<lambda>_.
           out_bind (receive_from (es_hello io) ''client hello'') (\<lambda>(message, source).
           out_bind (accept_client E K identity authorizations secret message) (\<lambda>(client, server, transcript, keys).
           out_bind (expect_sent ''failed to send server hello'' (es_hello_send_error io)) (\<lambda>_.
           Returns (source, server, keys))))))) of
        Panics m \<Rightarrow> ([], Panics m)
      | Returns (source, server, keys) \<Rightarrow>
          let hello_sent = (as_bytes (encode_server_hello E server), source) in
          (case out_bind (expect_sent ''failed to set encrypted-packet timeout'' (es_timeout_error io)) (\<lambda>_.
                out_bind (receive_bytes_from (es_request io) ''encrypted request'')
                  (\<lambda>(encrypted_request, request_source).
                if request_source \<noteq> source
                then Panics (''encrypted request arrived from '' @ show_socket_addr request_source
                             @ '', but handshake came from '' @ show_socket_addr source)
                else
                  out_bind (echo_packet C keys encrypted_request) (\<lambda>(plaintext, encrypted_response).
                  out_bind (expect_sent ''failed to send encrypted echo'' (es_echo_send_error io)) (\<lambda>_.
                  Returns (plaintext, encrypted_response))))) of
             Panics m \<Rightarrow> ([hello_sent], Panics m)
           | Returns (plaintext, encrypted_response) \<Rightarrow>
               ([hello_sent, (encrypted_response, source)], Returns plaintext)))"

section \<open>The client\<close>

record client_session =
  ses_socket :: client_socket
  ses_authenticated_peer :: string
  ses_transcript :: bytes
  ses_keys :: session_keys

text \<open>What the client checks of the server's answer, in order.\<close>

definition check_server_hello ::
  "('vk, 'sig) ed25519 \<Rightarrow> key_exchange \<Rightarrow> 'vk authorizations \<Rightarrow> client_socket \<Rightarrow> bytes \<Rightarrow>
     'sig client_hello \<Rightarrow> string \<Rightarrow> client_attempt_error + client_session" where
  "check_server_hello E K authorizations cs secret client message =
     and_then (map_err (\<lambda>e. Rejected (''invalid server hello: '' @ e)) (parse_server_hello E message)) (\<lambda>server.
     and_then (map_err (\<lambda>e. Rejected (''server hello does not match this handshake: '' @ e))
                 (validate_server_hello server client)) (\<lambda>_.
     and_then (map_err (\<lambda>e. Rejected (''server authentication failed: '' @ e))
                 (verify_signature E authorizations (sv_responder_id server)
                    (server_signing_message E client (sv_server_exchange_public server))
                    (sv_signature server))) (\<lambda>_.
     let shared_secret = kx_shared K secret (sv_server_exchange_public server);
         transcript = handshake_transcript E client server in
     and_then (map_err (\<lambda>e. Rejected (''failed to derive session keys: '' @ e))
                 (derive_session_keys K shared_secret transcript)) (\<lambda>keys.
     Inr \<lparr>ses_socket = cs, ses_authenticated_peer = sv_responder_id server,
          ses_transcript = transcript, ses_keys = keys\<rparr>))))"

definition new_client_hello ::
  "('vk, 'sig) ed25519 \<Rightarrow> key_exchange \<Rightarrow> identity \<Rightarrow> string \<Rightarrow> bytes \<Rightarrow> 'sig client_hello" where
  "new_client_hello E K identity peer_node_id secret =
     (let client_exchange_public = kx_public K secret in
      \<lparr>cl_initiator_id = id_node_id identity, cl_responder_id = peer_node_id,
       cl_exchange_public = client_exchange_public,
       cl_signature = identity_sign E identity
         (client_signing_message (id_node_id identity) peer_node_id client_exchange_public)\<rparr>)"

definition fail_with :: "(string \<Rightarrow> client_attempt_error) \<Rightarrow> string option \<Rightarrow> client_attempt_error + unit" where
  "fail_with f r = (case r of Some e \<Rightarrow> Inl (f e) | None \<Rightarrow> Inr ())"

definition establish_client_session ::
  "('vk, 'sig) ed25519 \<Rightarrow> key_exchange \<Rightarrow> client_socket \<Rightarrow> bytes \<Rightarrow> identity \<Rightarrow> 'vk authorizations \<Rightarrow>
     string \<Rightarrow> string \<Rightarrow> duration \<Rightarrow> bytes list \<times> (client_attempt_error + client_session)" where
  "establish_client_session E K cs secret identity authorizations peer_address peer_node_id timeout =
     (let client = new_client_hello E K identity peer_node_id secret;
          socket = set_read_timeout timeout cs in
      case and_then (fail_with (\<lambda>e. Local (''failed to bind client socket: '' @ e)) (cs_bind_error cs)) (\<lambda>_.
           and_then (fail_with (\<lambda>e. Unreachable (''failed to select '' @ peer_address @ '': '' @ e))
                       (cs_connect_error cs)) (\<lambda>_.
           and_then (fail_with (\<lambda>e. Local (''failed to set handshake timeout: '' @ e)) (cs_timeout_error cs)) (\<lambda>_.
           fail_with (\<lambda>e. Unreachable (''failed to send client hello: '' @ e)) (cs_send_error cs 0)))) of
        Inl e \<Rightarrow> ([], Inl e)
      | Inr _ \<Rightarrow>
          ([as_bytes (encode_client_hello E client)],
           and_then (map_err (\<lambda>e. Unreachable (''no server hello from '' @ peer_address @ '' within ''
                                 @ decimal (as_millis timeout) @ '' ms: '' @ e))
                       (try_receive_connected (cs_received socket 0) ''server hello'')) (\<lambda>message.
           check_server_hello E K authorizations socket secret client message)))"

definition complete_client_exchange :: "aead \<Rightarrow> client_session \<Rightarrow> bytes list \<times> bytes outcome" where
  "complete_client_exchange C session =
     (let cs = ses_socket session; keys = ses_keys session;
          sender = new_sender (client_to_server keys) ClientToServer in
      case out_bind (or_panic (\<lambda>e. ''failed to seal encrypted request: '' @ e)
                       (snd (seal C sender LEARNING_MESSAGE))) (\<lambda>encrypted_request.
           out_bind (expect_sent ''failed to send encrypted request'' (cs_send_error cs 1)) (\<lambda>_.
           Returns encrypted_request)) of
        Panics m \<Rightarrow> ([], Panics m)
      | Returns encrypted_request \<Rightarrow>
          ([encrypted_request],
           out_bind (receive_connected_bytes (cs_received cs 1) ''encrypted echo'') (\<lambda>encrypted_response.
           let receiver = new_receiver (server_to_client keys) ServerToClient in
           out_bind (or_panic (\<lambda>e. ''failed to open encrypted echo: '' @ e)
             (snd (open_packet C receiver encrypted_response))) (\<lambda>plaintext.
           if plaintext \<noteq> LEARNING_MESSAGE
           then Panics ''encrypted echo plaintext did not match the request''
           else Returns plaintext))))"

definition load_client_material ::
  "('vk, 'sig) ed25519 \<Rightarrow> string \<Rightarrow> string + string \<Rightarrow> string \<Rightarrow> string + string \<Rightarrow>
     (identity \<times> 'vk authorizations) outcome" where
  "load_client_material E identity_path identity_file authorization_path authorization_file =
     out_bind (or_panic (\<lambda>e. ''failed to load client identity: '' @ e)
                 (load_identity identity_path identity_file)) (\<lambda>identity.
     out_bind (or_panic (\<lambda>e. ''failed to load peer authorizations: '' @ e)
                 (load_authorizations E authorization_path authorization_file)) (\<lambda>authorizations.
     Returns (identity, authorizations)))"

definition run_secure_echo_client ::
  "('vk, 'sig) ed25519 \<Rightarrow> key_exchange \<Rightarrow> aead \<Rightarrow> client_socket \<Rightarrow> bytes \<Rightarrow> string \<Rightarrow>
     string \<Rightarrow> string + string \<Rightarrow> string \<Rightarrow> string \<Rightarrow> string + string \<Rightarrow> bytes list \<times> bytes outcome" where
  "run_secure_echo_client E K C cs secret server_address identity_path identity_file peer_node_id
       authorization_path authorization_file =
     (case out_bind (load_client_material E identity_path identity_file authorization_path authorization_file)
             (\<lambda>(identity, authorizations).
           out_bind (require_authorized authorizations peer_node_id) (\<lambda>_.
           Returns (identity, authorizations))) of
        Panics m \<Rightarrow> ([], Panics m)
      | Returns (identity, authorizations) \<Rightarrow>
          (case establish_client_session E K cs secret identity authorizations server_address
                  peer_node_id RESPONSE_TIMEOUT of
             (sent, Inl e) \<Rightarrow> (sent, Panics (''secure handshake failed: '' @ attempt_message e))
           | (sent, Inr session) \<Rightarrow>
               (case complete_client_exchange C session of (sent', r) \<Rightarrow> (sent @ sent', r))))"

text \<open>
  Path selection: the datagrams sent directly, those sent to the relay, and the selected path
  with its session.
\<close>

definition select_path ::
  "('vk, 'sig) ed25519 \<Rightarrow> key_exchange \<Rightarrow> client_socket \<Rightarrow> bytes \<Rightarrow> client_socket \<Rightarrow> bytes \<Rightarrow>
     string \<Rightarrow> string \<Rightarrow> identity \<Rightarrow> 'vk authorizations \<Rightarrow> string \<Rightarrow>
     bytes list \<times> bytes list \<times> (string \<times> client_session) outcome" where
  "select_path E K direct_cs direct_secret relay_cs relay_secret direct_address relay_address
       identity authorizations peer_node_id =
     (case establish_client_session E K direct_cs direct_secret identity authorizations direct_address
             peer_node_id DIRECT_PATH_TIMEOUT of
        (sent, Inr session) \<Rightarrow> (sent, [], Returns (''direct'', session))
      | (sent, Inl e) \<Rightarrow>
          if permits_fallback e then
            (case establish_client_session E K relay_cs relay_secret identity authorizations relay_address
                    peer_node_id RESPONSE_TIMEOUT of
               (relayed, Inr session) \<Rightarrow> (sent, relayed, Returns (''relay'', session))
             | (relayed, Inl e') \<Rightarrow>
                 (sent, relayed, Panics (''relay handshake failed: '' @ attempt_message e')))
          else (sent, [], Panics (''direct candidate failed without trying the relay: '' @ attempt_message e)))"

definition run_secure_echo_client_auto ::
  "('vk, 'sig) ed25519 \<Rightarrow> key_exchange \<Rightarrow> aead \<Rightarrow> client_socket \<Rightarrow> bytes \<Rightarrow> client_socket \<Rightarrow> bytes \<Rightarrow>
     string \<Rightarrow> string \<Rightarrow> string \<Rightarrow> string + string \<Rightarrow> string \<Rightarrow> string \<Rightarrow> string + string \<Rightarrow>
     bytes list \<times> bytes list \<times> (string \<times> bytes) outcome" where
  "run_secure_echo_client_auto E K C direct_cs direct_secret relay_cs relay_secret direct_address
       relay_address identity_path identity_file peer_node_id authorization_path authorization_file =
     (case out_bind (load_client_material E identity_path identity_file authorization_path authorization_file)
             (\<lambda>(identity, authorizations).
           out_bind (require_authorized authorizations peer_node_id) (\<lambda>_.
           Returns (identity, authorizations))) of
        Panics m \<Rightarrow> ([], [], Panics m)
      | Returns (identity, authorizations) \<Rightarrow>
          (case select_path E K direct_cs direct_secret relay_cs relay_secret direct_address relay_address
                  identity authorizations peer_node_id of
             (sent, relayed, Panics m) \<Rightarrow> (sent, relayed, Panics m)
           | (sent, relayed, Returns (path, session)) \<Rightarrow>
               (case complete_client_exchange C session of
                  (sent', r) \<Rightarrow>
                    if path = ''direct'' then (sent @ sent', relayed, out_bind r (\<lambda>m. Returns (path, m)))
                    else (sent, relayed @ sent', out_bind r (\<lambda>m. Returns (path, m))))))"

section \<open>Receiving, on every branch\<close>

lemma receive_bytes_from_Returns:
  "receive_bytes_from received d = Returns (bs, source) \<longleftrightarrow>
     received = Inr (bs, source) \<and> length bs \<le> HANDSHAKE_DATAGRAM_BYTES"
proof (cases received)
  case (Inr r)
  obtain payload src where "r = (payload, src)" by (cases r)
  then show ?thesis
    by (auto simp: receive_bytes_from_def Inr Let_def not_less min_def split: if_splits)
qed (simp add: receive_bytes_from_def)

lemma receive_from_Returns:
  "receive_from received d = Returns (message, source) \<longleftrightarrow>
     (\<exists>bs. received = Inr (bs, source) \<and> length bs \<le> HANDSHAKE_DATAGRAM_BYTES \<and> from_utf8 bs = Some message)"
  by (auto simp: receive_from_def receive_bytes_from_Returns)

lemma try_receive_connected_bytes_Ok:
  "try_receive_connected_bytes received d = Ok bs \<longleftrightarrow> received = Inr bs \<and> length bs \<le> HANDSHAKE_DATAGRAM_BYTES"
proof (cases received)
  case (Inr r)
  then show ?thesis
    by (auto simp: try_receive_connected_bytes_def Let_def not_less min_def split: if_splits)
qed (simp add: try_receive_connected_bytes_def)

lemma try_receive_connected_Ok:
  "try_receive_connected received d = Ok message \<longleftrightarrow>
     (\<exists>bs. received = Inr bs \<and> length bs \<le> HANDSHAKE_DATAGRAM_BYTES \<and> from_utf8 bs = Some message)"
  by (auto simp: try_receive_connected_def try_receive_connected_bytes_Ok)

lemma fail_with_Inr [simp]: "fail_with f r = Inr u \<longleftrightarrow> r = None"
  by (simp add: fail_with_def split: option.split)

lemma fail_with_None [simp]: "fail_with f None = Inr ()"
  by simp

section \<open>What the server has checked\<close>

lemma accept_client_Returns:
  "accept_client E K i A secret message = Returns (client, server, transcript, keys) \<longleftrightarrow>
     parse_client_hello E message = Ok client \<and> cl_responder_id client = id_node_id i
     \<and> verify_signature E A (cl_initiator_id client)
         (client_signing_message (cl_initiator_id client) (cl_responder_id client) (cl_exchange_public client))
         (cl_signature client) = Ok ()
     \<and> server = \<lparr>sv_initiator_id = cl_initiator_id client, sv_responder_id = cl_responder_id client,
          sv_client_exchange_public = cl_exchange_public client, sv_server_exchange_public = kx_public K secret,
          sv_signature = identity_sign E i (server_signing_message E client (kx_public K secret))\<rparr>
     \<and> transcript = handshake_transcript E client server
     \<and> derive_session_keys K (kx_shared K secret (cl_exchange_public client)) transcript = Ok keys"
  by (auto simp: accept_client_def Let_def split: if_splits)

text \<open>The hello of an authorized node, signed for this responder.\<close>

definition authentic_client_hello ::
  "('vk, 'sig) ed25519 \<Rightarrow> 'vk authorizations \<Rightarrow> string \<Rightarrow> 'sig client_hello \<Rightarrow> bool" where
  "authentic_client_hello E A responder h \<longleftrightarrow> cl_responder_id h = responder
     \<and> (\<exists>vk. auth_get A (cl_initiator_id h) = Some vk
          \<and> ed_verify_strict E vk
              (client_signing_message (cl_initiator_id h) responder (cl_exchange_public h)) (cl_signature h))"

lemma server_sends_to_authentic:
  assumes run: "run_secure_echo_server E K C io secret ip ifile ap afile = (sent, r)" and sent: "sent \<noteq> []"
  obtains i A message source client server transcript keys where
    "load_identity ip ifile = Ok i" "load_authorizations E ap afile = Ok A"
    "receive_from (es_hello io) ''client hello'' = Returns (message, source)"
    "parse_client_hello E message = Ok client" "authentic_client_hello E A (id_node_id i) client"
    "accept_client E K i A secret message = Returns (client, server, transcript, keys)"
    "hd sent = (as_bytes (encode_server_hello E server), source)" "\<forall>d \<in> set sent. snd d = source"
    "\<forall>m. r = Returns m \<longrightarrow> (\<exists>request echo. receive_bytes_from (es_request io) ''encrypted request'' = Returns (request, source)
        \<and> echo_packet C keys request = Returns (m, echo) \<and> sent = [hd sent, (echo, source)])"
proof -
  from run sent obtain i A message source client server transcript keys where
    i: "load_identity ip ifile = Ok i" and A: "load_authorizations E ap afile = Ok A"
    and msg: "receive_from (es_hello io) ''client hello'' = Returns (message, source)"
    and acc: "accept_client E K i A secret message = Returns (client, server, transcript, keys)"
    and hello: "es_bind_error io = None" "es_hello_send_error io = None"
    by (simp add: run_secure_echo_server_def split: outcome.splits) blast
  have parsed: "parse_client_hello E message = Ok client" and auth: "authentic_client_hello E A (id_node_id i) client"
    using acc by (auto simp: accept_client_Returns verify_signature_Ok authentic_client_hello_def)
  note start = i A msg acc hello
  have hd: "hd sent = (as_bytes (encode_server_hello E server), source)"
    using run start by (simp add: run_secure_echo_server_def Let_def split: outcome.splits prod.splits) auto
  have dests: "\<forall>d \<in> set sent. snd d = source"
    using run start by (simp add: run_secure_echo_server_def Let_def split: outcome.splits prod.splits) auto
  have rest: "\<forall>m. r = Returns m \<longrightarrow> (\<exists>request echo. receive_bytes_from (es_request io) ''encrypted request'' = Returns (request, source)
        \<and> echo_packet C keys request = Returns (m, echo) \<and> sent = [hd sent, (echo, source)])"
    using run start
    by (auto simp: run_secure_echo_server_def Let_def split: outcome.splits prod.splits if_splits)
  show thesis by (rule that [OF i A msg parsed auth acc hd dests rest])
qed

section \<open>What the client has checked\<close>

definition authentic_server_hello ::
  "('vk, 'sig) ed25519 \<Rightarrow> 'vk authorizations \<Rightarrow> 'sig client_hello \<Rightarrow> 'sig server_hello \<Rightarrow> bool" where
  "authentic_server_hello E A client server \<longleftrightarrow>
     sv_initiator_id server = cl_initiator_id client \<and> sv_responder_id server = cl_responder_id client
     \<and> sv_client_exchange_public server = cl_exchange_public client
     \<and> (\<exists>vk. auth_get A (cl_responder_id client) = Some vk
          \<and> ed_verify_strict E vk (server_signing_message E client (sv_server_exchange_public server))
              (sv_signature server))"

lemma check_server_hello_Inr:
  "check_server_hello E K A cs secret client message = Inr session \<longleftrightarrow>
     (\<exists>server keys. parse_server_hello E message = Ok server \<and> authentic_server_hello E A client server
        \<and> derive_session_keys K (kx_shared K secret (sv_server_exchange_public server))
            (handshake_transcript E client server) = Ok keys
        \<and> session = \<lparr>ses_socket = cs, ses_authenticated_peer = cl_responder_id client,
            ses_transcript = handshake_transcript E client server, ses_keys = keys\<rparr>)"
  by (auto simp: check_server_hello_def Let_def validate_server_hello_Ok verify_signature_Ok
      authentic_server_hello_def)

lemma check_server_hello_Inl:
  "check_server_hello E K A cs secret client message = Inl e \<Longrightarrow> \<exists>m. e = Rejected m"
  by (auto simp: check_server_hello_def Let_def and_then_def map_err_def split: sum.splits)

lemma establish_Inr:
  "establish_client_session E K cs secret i A address peer timeout = (sent, Inr session) \<longleftrightarrow>
     cs_bind_error cs = None \<and> cs_connect_error cs = None \<and> cs_timeout_error cs = None
     \<and> cs_send_error cs 0 = None
     \<and> sent = [as_bytes (encode_client_hello E (new_client_hello E K i peer secret))]
     \<and> (\<exists>message. try_receive_connected (cs_received (set_read_timeout timeout cs) 0) ''server hello'' = Ok message
          \<and> check_server_hello E K A (set_read_timeout timeout cs) secret (new_client_hello E K i peer secret) message
              = Inr session)"
  by (auto simp: establish_client_session_def Let_def fail_with_def split: option.splits sum.splits)

lemma new_client_hello_simps [simp]:
  "cl_initiator_id (new_client_hello E K i peer secret) = id_node_id i"
  "cl_responder_id (new_client_hello E K i peer secret) = peer"
  "cl_exchange_public (new_client_hello E K i peer secret) = kx_public K secret"
  "cl_signature (new_client_hello E K i peer secret)
     = ed_sign E (id_signing_key i) (client_signing_message (id_node_id i) peer (kx_public K secret))"
  by (simp_all add: new_client_hello_def identity_sign_def Let_def)

text \<open>A path gives no answer within a time: the socket is bound, and then selecting the address,
  sending the hello or receiving in this time an answer that is UTF-8 text of at most 1024 bytes
  fails.\<close>

definition no_answer :: "duration \<Rightarrow> client_socket \<Rightarrow> bool" where
  "no_answer t cs \<longleftrightarrow> cs_bind_error cs = None
     \<and> (cs_connect_error cs \<noteq> None
        \<or> (cs_timeout_error cs = None
           \<and> (cs_send_error cs 0 \<noteq> None
              \<or> is_err (try_receive_connected (cs_received (set_read_timeout t cs) 0) ''server hello''))))"

text \<open>That is exactly when an attempt counts as unreachable.\<close>

lemma establish_Unreachable:
  "(\<exists>m. snd (establish_client_session E K cs secret i A address peer timeout) = Inl (Unreachable m))
     \<longleftrightarrow> no_answer timeout cs"
proof (cases "cs_bind_error cs = None \<and> cs_connect_error cs = None \<and> cs_timeout_error cs = None
    \<and> cs_send_error cs 0 = None")
  case True
  let ?r = "try_receive_connected (cs_received (set_read_timeout timeout cs) 0) ''server hello''"
  show ?thesis
  proof (cases ?r)
    case (Inl e)
    with True show ?thesis by (simp add: establish_client_session_def Let_def no_answer_def)
  next
    case (Inr message)
    have "check_server_hello E K A cs' secret c message \<noteq> Inl (Unreachable m)" for cs' c m
      using check_server_hello_Inl by blast
    with True Inr show ?thesis by (simp add: establish_client_session_def Let_def no_answer_def)
  qed
next
  case False
  then show ?thesis
    by (auto simp: establish_client_session_def Let_def fail_with_def no_answer_def split: option.splits)
qed

lemma permits_fallback_iff: "permits_fallback e \<longleftrightarrow> (\<exists>m. e = Unreachable m)"
  by (cases e) simp_all

section \<open>The automatic client\<close>

text \<open>The whole exchange with one peer under a read timeout, which stays on the socket for the echo.\<close>

definition echo_within ::
  "('vk, 'sig) ed25519 \<Rightarrow> key_exchange \<Rightarrow> aead \<Rightarrow> client_socket \<Rightarrow> bytes \<Rightarrow> identity \<Rightarrow> 'vk authorizations \<Rightarrow>
     string \<Rightarrow> string \<Rightarrow> duration \<Rightarrow> bytes list \<Rightarrow> bytes \<Rightarrow> bool" where
  "echo_within E K C cs secret i A address peer t sent m \<longleftrightarrow> (\<exists>hello session rest.
     establish_client_session E K cs secret i A address peer t = (hello, Inr session)
     \<and> complete_client_exchange C session = (rest, Returns m) \<and> sent = hello @ rest)"

lemma try_receive_timed:
  "try_receive_connected (cs_received (set_read_timeout t cs) k) d = Ok message \<longleftrightarrow>
     cs_delay cs k < t \<and> try_receive_connected (cs_delivery cs k) d = Ok message"
  by (auto simp: try_receive_connected_Ok)

lemma establish_timed:
  assumes "establish_client_session E K cs secret i A address peer t = (hello, Inr session)"
  shows "cs_delay cs 0 < t" and "ses_socket session = set_read_timeout t cs"
    and "cs_delay cs 0 < t' \<Longrightarrow> establish_client_session E K cs secret i A address' peer t'
          = (hello, Inr (session\<lparr>ses_socket := set_read_timeout t' cs\<rparr>))"
  using assms unfolding establish_Inr try_receive_timed check_server_hello_Inr by auto

lemma receive_timed:
  "receive_connected_bytes (cs_received (set_read_timeout t cs) k) d = Returns bs \<longleftrightarrow>
     cs_delay cs k < t \<and> receive_connected_bytes (cs_delivery cs k) d = Returns bs"
  by (auto simp: receive_connected_bytes_def try_receive_connected_bytes_Ok)

lemma complete_Returns:
  "complete_client_exchange C session = (rest, Returns m) \<longleftrightarrow> (\<exists>q p.
     snd (seal C (new_sender (client_to_server (ses_keys session)) ClientToServer) LEARNING_MESSAGE) = Ok q
     \<and> cs_send_error (ses_socket session) 1 = None \<and> rest = [q]
     \<and> receive_connected_bytes (cs_received (ses_socket session) 1) ''encrypted echo'' = Returns p
     \<and> snd (open_packet C (new_receiver (server_to_client (ses_keys session)) ServerToClient) p) = Ok LEARNING_MESSAGE
     \<and> m = LEARNING_MESSAGE)"
proof (cases "snd (seal C (new_sender (client_to_server (ses_keys session)) ClientToServer) LEARNING_MESSAGE)")
  case (Inr q)
  then show ?thesis
    by (cases "cs_send_error (ses_socket session) 1") (auto simp: complete_client_exchange_def Let_def split: if_splits)
qed (simp add: complete_client_exchange_def Let_def)

lemma complete_timed:
  "complete_client_exchange C (session\<lparr>ses_socket := set_read_timeout t cs\<rparr>) = (rest, Returns m) \<longleftrightarrow>
     cs_delay cs 1 < t \<and> complete_client_exchange C (session\<lparr>ses_socket := cs\<lparr>cs_read_timeout := None\<rparr>\<rparr>) = (rest, Returns m)"
proof -
  have untimed: "cs_received (cs\<lparr>cs_read_timeout := None\<rparr>) k = cs_delivery cs k" for k
    by (simp add: cs_received_def in_time_def)
  show ?thesis unfolding complete_Returns by (simp add: receive_timed untimed) blast
qed

text \<open>A shorter timeout only asks that both answers come within it.\<close>

lemma echo_within_shorter:
  assumes "t \<le> t'"
  shows "echo_within E K C cs secret i A address peer t sent m \<longleftrightarrow>
     cs_delay cs 0 < t \<and> cs_delay cs 1 < t \<and> echo_within E K C cs secret i A address' peer t' sent m"
proof (intro iffI; (elim conjE)?)
  assume "echo_within E K C cs secret i A address peer t sent m"
  then obtain hello session rest where
    est: "establish_client_session E K cs secret i A address peer t = (hello, Inr session)"
    and comp: "complete_client_exchange C session = (rest, Returns m)" and sent: "sent = hello @ rest"
    unfolding echo_within_def by blast
  note d0 = establish_timed(1) [OF est] and sock = establish_timed(2) [OF est]
  have longer: "establish_client_session E K cs secret i A address' peer t'
      = (hello, Inr (session\<lparr>ses_socket := set_read_timeout t' cs\<rparr>))"
    using establish_timed(3) [OF est] d0 assms by simp
  from sock have "session = session\<lparr>ses_socket := set_read_timeout t cs\<rparr>" by simp
  with comp have "complete_client_exchange C (session\<lparr>ses_socket := set_read_timeout t cs\<rparr>) = (rest, Returns m)" by metis
  then have "cs_delay cs 1 < t"
    and "complete_client_exchange C (session\<lparr>ses_socket := set_read_timeout t' cs\<rparr>) = (rest, Returns m)"
    unfolding complete_timed using assms by auto
  with d0 longer sent show "cs_delay cs 0 < t \<and> cs_delay cs 1 < t \<and> echo_within E K C cs secret i A address' peer t' sent m"
    unfolding echo_within_def by blast
next
  assume d: "cs_delay cs 0 < t" "cs_delay cs 1 < t" and "echo_within E K C cs secret i A address' peer t' sent m"
  then obtain hello session rest where
    est: "establish_client_session E K cs secret i A address' peer t' = (hello, Inr session)"
    and comp: "complete_client_exchange C session = (rest, Returns m)" and sent: "sent = hello @ rest"
    unfolding echo_within_def by blast
  note sock = establish_timed(2) [OF est] and shorter = establish_timed(3) [OF est d(1)]
  from sock have "session = session\<lparr>ses_socket := set_read_timeout t' cs\<rparr>" by simp
  with comp have "complete_client_exchange C (session\<lparr>ses_socket := set_read_timeout t' cs\<rparr>) = (rest, Returns m)" by metis
  then have "complete_client_exchange C (session\<lparr>ses_socket := set_read_timeout t cs\<rparr>) = (rest, Returns m)"
    unfolding complete_timed using d(2) by auto
  with shorter sent show "echo_within E K C cs secret i A address peer t sent m"
    unfolding echo_within_def by blast
qed

text \<open>Both clients in these terms.\<close>

lemma run_client_Returns:
  "run_secure_echo_client E K C cs secret address ip ifile peer ap af = (sent, Returns m) \<longleftrightarrow>
     (\<exists>i A. load_client_material E ip ifile ap af = Returns (i, A) \<and> require_authorized A peer = Returns ()
        \<and> echo_within E K C cs secret i A address peer RESPONSE_TIMEOUT sent m)"
  by (auto simp: run_secure_echo_client_def echo_within_def split: outcome.splits prod.splits sum.splits)

lemma auto_direct_Returns:
  "run_secure_echo_client_auto E K C dcs dsec rcs rsec daddr raddr ip ifile peer ap af
       = (sent, relayed, Returns (''direct'', m)) \<longleftrightarrow> relayed = [] \<and>
     (\<exists>i A. load_client_material E ip ifile ap af = Returns (i, A) \<and> require_authorized A peer = Returns ()
        \<and> echo_within E K C dcs dsec i A daddr peer DIRECT_PATH_TIMEOUT sent m)"
  by (auto simp: run_secure_echo_client_auto_def select_path_def echo_within_def
      split: outcome.splits prod.splits sum.splits if_splits)

lemma auto_relay_Returns:
  "(\<exists>tried. run_secure_echo_client_auto E K C dcs dsec rcs rsec daddr raddr ip ifile peer ap af
       = (tried, relayed, Returns (''relay'', m))) \<longleftrightarrow> no_answer DIRECT_PATH_TIMEOUT dcs \<and>
     (\<exists>i A. load_client_material E ip ifile ap af = Returns (i, A) \<and> require_authorized A peer = Returns ()
        \<and> echo_within E K C rcs rsec i A raddr peer RESPONSE_TIMEOUT relayed m)"
proof (cases "\<exists>i A. load_client_material E ip ifile ap af = Returns (i, A) \<and> require_authorized A peer = Returns ()")
  case True
  then obtain i A where load: "load_client_material E ip ifile ap af = Returns (i, A)"
    "require_authorized A peer = Returns ()" by blast
  obtain tried r where direct: "establish_client_session E K dcs dsec i A daddr peer DIRECT_PATH_TIMEOUT = (tried, r)"
    by (metis surj_pair)
  have "no_answer DIRECT_PATH_TIMEOUT dcs \<longleftrightarrow> (\<exists>e. r = Inl (Unreachable e))"
    using establish_Unreachable [of E K dcs dsec i A daddr peer DIRECT_PATH_TIMEOUT] direct by simp
  then show ?thesis using load direct
    by (auto simp: run_secure_echo_client_auto_def select_path_def echo_within_def permits_fallback_iff
        split: outcome.splits prod.splits sum.splits if_splits)
qed (auto simp: run_secure_echo_client_auto_def split: outcome.splits prod.splits)

section \<open>Messages of honest parties\<close>

lemma new_client_hello_ok:
  "signature_scheme_ok E \<Longrightarrow> key_exchange_ok K \<Longrightarrow> valid_node_id (id_node_id i) \<Longrightarrow> valid_node_id peer \<Longrightarrow>
     client_hello_ok E (new_client_hello E K i peer secret)"
  by (simp add: client_hello_ok_def key_exchange_ok_def sign_wire)

lemma accepted_server_hello_ok:
  "signature_scheme_ok E \<Longrightarrow> key_exchange_ok K \<Longrightarrow> client_hello_ok E c \<Longrightarrow>
     server_hello_ok E \<lparr>sv_initiator_id = cl_initiator_id c, sv_responder_id = cl_responder_id c,
       sv_client_exchange_public = cl_exchange_public c, sv_server_exchange_public = kx_public K secret,
       sv_signature = identity_sign E i m\<rparr>"
  by (simp add: server_hello_ok_def client_hello_ok_def key_exchange_ok_def identity_sign_def sign_wire)

lemma client_hello_fits:
  assumes "client_hello_ok E h"
  shows "length (encode_client_hello E h) \<le> HANDSHAKE_DATAGRAM_BYTES" and "ascii_text (encode_client_hello E h)"
proof -
  show "length (encode_client_hello E h) \<le> HANDSHAKE_DATAGRAM_BYTES"
    using assms valid_node_id_length [of "cl_initiator_id h"] valid_node_id_length [of "cl_responder_id h"]
    by (simp add: encode_client_hello_def client_hello_ok_def wire_signature_def HANDSHAKE_DATAGRAM_BYTES_def
        HANDSHAKE_VERSION_def EXCHANGE_KEY_BYTES_def)
  show "ascii_text (encode_client_hello E h)"
    using assms unfolding encode_client_hello_def client_hello_ok_def by (intro unwords_ascii) simp
qed

lemma server_hello_fits:
  assumes "server_hello_ok E h"
  shows "length (encode_server_hello E h) \<le> HANDSHAKE_DATAGRAM_BYTES" and "ascii_text (encode_server_hello E h)"
proof -
  show "length (encode_server_hello E h) \<le> HANDSHAKE_DATAGRAM_BYTES"
    using assms valid_node_id_length [of "sv_initiator_id h"] valid_node_id_length [of "sv_responder_id h"]
    by (simp add: encode_server_hello_def server_hello_ok_def wire_signature_def HANDSHAKE_DATAGRAM_BYTES_def
        HANDSHAKE_VERSION_def EXCHANGE_KEY_BYTES_def)
  show "ascii_text (encode_server_hello E h)"
    using assms unfolding encode_server_hello_def server_hello_ok_def by (intro unwords_ascii) simp
qed

lemma LEARNING_MESSAGE_length: "length LEARNING_MESSAGE = 29"
  by (simp add: LEARNING_MESSAGE_def as_bytes_def)

text \<open>One message and its echo under agreed keys.\<close>

lemma seal_first:
  assumes "aead_correct C" and "length m \<le> aead_limit"
  obtains s q where "seal C (new_sender k d) m = (s, Ok q)" and "length q = length m + 29"
    and "snd (open_packet C (new_receiver k d) q) = Ok m"
proof -
  obtain q n where seal: "seal C (new_sender k d) m = ((new_sender k d)\<lparr>s_next := n\<rparr>, Ok q)"
    using seal_total [OF assms, of "new_sender k d"] by (auto simp: new_sender_def u64_max_def)
  have "synced C (new_sender k d) (new_receiver k d)"
    using assms(1) by (simp add: synced_def new_sender_def new_receiver_def)
  from packets.delivered [OF this seal] have "snd (open_packet C (new_receiver k d) q) = Ok m" by auto
  moreover have "length q = length m + 29"
    using seal assms(1) by (auto simp: seal_Ok aead_correct_def AUTHENTICATION_TAG_BYTES_def)
  ultimately show thesis using that seal by blast
qed

lemma echo_honest:
  assumes "aead_correct C" and "length m \<le> 900"
  obtains s q q' where "seal C (new_sender (client_to_server keys) ClientToServer) m = (s, Ok q)"
    and "echo_packet C keys q = Returns (m, q')"
    and "snd (open_packet C (new_receiver (server_to_client keys) ServerToClient) q') = Ok m"
    and "length q = length m + 29" and "length q' = length m + 29"
proof -
  have m: "length m \<le> aead_limit" using assms(2) by (simp add: aead_limit_def)
  obtain s q where q: "seal C (new_sender (client_to_server keys) ClientToServer) m = (s, Ok q)"
    "length q = length m + 29"
    "snd (open_packet C (new_receiver (client_to_server keys) ClientToServer) q) = Ok m"
    by (rule seal_first [OF assms(1) m])
  obtain s' q' where q': "seal C (new_sender (server_to_client keys) ServerToClient) m = (s', Ok q')"
    "length q' = length m + 29"
    "snd (open_packet C (new_receiver (server_to_client keys) ServerToClient) q') = Ok m"
    by (rule seal_first [OF assms(1) m])
  have "echo_packet C keys q = Returns (m, q')" using q q' by (simp add: echo_packet_def Let_def)
  then show thesis using that q q' by blast
qed

text \<open>The key agreement and both hellos of honest parties.\<close>

lemma handshake_honest:
  fixes csec :: bytes
  assumes E: "signature_scheme_ok E" and K: "key_exchange_ok K"
    and ids: "valid_node_id (id_node_id ci)" "valid_node_id (id_node_id si)"
    and As: "auth_get As (id_node_id ci) = Some (ed_verifying_key E (id_signing_key ci))"
    and Ac: "auth_get Ac (id_node_id si) = Some (ed_verifying_key E (id_signing_key si))"
  defines "client \<equiv> new_client_hello E K ci (id_node_id si) csec"
  obtains server keys where "accept_client E K si As ssec (encode_client_hello E client)
      = Returns (client, server, handshake_transcript E client server, keys)"
    "client_hello_ok E client" "server_hello_ok E server"
    "\<forall>cs. check_server_hello E K Ac cs csec client (encode_server_hello E server)
      = Inr \<lparr>ses_socket = cs, ses_authenticated_peer = id_node_id si,
             ses_transcript = handshake_transcript E client server, ses_keys = keys\<rparr>"
proof -
  define server where "server = \<lparr>sv_initiator_id = cl_initiator_id client, sv_responder_id = cl_responder_id client,
     sv_client_exchange_public = cl_exchange_public client, sv_server_exchange_public = kx_public K ssec,
     sv_signature = identity_sign E si (server_signing_message E client (kx_public K ssec))\<rparr>"
  have client: "client_hello_ok E client"
    unfolding client_def by (rule new_client_hello_ok [OF E K ids])
  have server: "server_hello_ok E server"
    unfolding server_def by (rule accepted_server_hello_ok [OF E K client])
  obtain keys where keys: "derive_session_keys K (kx_shared K ssec (kx_public K csec))
      (handshake_transcript E client server) = Ok keys"
    using derive_session_keys_total [OF K] by blast
  then have keys': "derive_session_keys K (kx_shared K csec (kx_public K ssec))
      (handshake_transcript E client server) = Ok keys"
    by (subst derive_session_keys_agree [OF K])
  have fields: "cl_responder_id client = id_node_id si" "cl_initiator_id client = id_node_id ci"
    "cl_exchange_public client = kx_public K csec" "sv_server_exchange_public server = kx_public K ssec"
    by (simp_all add: client_def server_def)
  have csig: "verify_signature E As (cl_initiator_id client) (client_signing_message (cl_initiator_id client)
      (cl_responder_id client) (cl_exchange_public client)) (cl_signature client) = Ok ()"
    using As by (simp add: verify_signature_Ok client_def sign_verifies [OF E])
  have auth: "authentic_server_hello E Ac client server"
    using Ac fields by (simp add: authentic_server_hello_def server_def identity_sign_def sign_verifies [OF E])
  have acc: "accept_client E K si As ssec (encode_client_hello E client)
      = Returns (client, server, handshake_transcript E client server, keys)"
    unfolding accept_client_Returns
    using parse_client_hello_text [OF client] csig fields keys by (simp add: server_def)
  have chk: "check_server_hello E K Ac cs csec client (encode_server_hello E server)
      = Inr \<lparr>ses_socket = cs, ses_authenticated_peer = id_node_id si,
             ses_transcript = handshake_transcript E client server, ses_keys = keys\<rparr>" for cs
    unfolding check_server_hello_Inr
    using parse_server_hello_text [OF server] auth keys' fields by auto
  then have "\<forall>cs. check_server_hello E K Ac cs csec client (encode_server_hello E server)
      = Inr \<lparr>ses_socket = cs, ses_authenticated_peer = id_node_id si,
             ses_transcript = handshake_transcript E client server, ses_keys = keys\<rparr>" by blast
  then show thesis by (rule that [OF acc client server])
qed

definition delivering :: "bytes \<times> socket_addr \<Rightarrow> bytes \<times> socket_addr \<Rightarrow> echo_server_io" where
  "delivering hello request = \<lparr>es_bind_error = None, es_hello = Inr hello, es_hello_send_error = None,
     es_timeout_error = None, es_request = Inr request, es_echo_send_error = None\<rparr>"

lemma text_arrives:
  "ascii_text t \<Longrightarrow> length t \<le> HANDSHAKE_DATAGRAM_BYTES \<Longrightarrow> try_receive_connected (Inr (as_bytes t)) d = Ok t"
  by (simp add: try_receive_connected_Ok from_utf8_ascii)

lemma echo_run_honest:
  assumes E: "signature_scheme_ok E" and K: "key_exchange_ok K" and C: "aead_correct C"
    and ci: "load_identity cp cf = Ok ci" and si: "load_identity sp sf = Ok si"
    and Ac: "load_authorizations E cap caf = Ok Ac" and As: "load_authorizations E sap saf = Ok As"
    and ckey: "auth_get As (id_node_id ci) = Some (ed_verifying_key E (id_signing_key ci))"
    and skey: "auth_get Ac (id_node_id si) = Some (ed_verifying_key E (id_signing_key si))"
  obtains h1 h2 q1 q2 where
    "run_secure_echo_client E K C (good_socket (\<lambda>k. if k = 0 then h2 else q2)) csec address cp cf
       (id_node_id si) cap caf = ([h1, q1], Returns LEARNING_MESSAGE)"
    "run_secure_echo_server E K C (delivering (h1, source) (q1, source)) ssec sp sf sap saf
       = ([(h2, source), (q2, source)], Returns LEARNING_MESSAGE)"
    "\<forall>d \<in> {h1, h2, q1, q2}. length d \<le> HANDSHAKE_DATAGRAM_BYTES"
proof -
  let ?client = "new_client_hello E K ci (id_node_id si) csec"
  have ids: "valid_node_id (id_node_id ci)" "valid_node_id (id_node_id si)"
    using load_identity_valid [OF ci] load_identity_valid [OF si] by simp_all
  define sock where "sock h2 q2 = good_socket (\<lambda>k :: nat. if k = 0 then h2 else q2)" for h2 q2 :: bytes
  obtain server keys where acc: "accept_client E K si As ssec (encode_client_hello E ?client)
      = Returns (?client, server, handshake_transcript E ?client server, keys)"
    and client_ok: "client_hello_ok E ?client" and server_ok: "server_hello_ok E server"
    and chk: "\<forall>cs. check_server_hello E K Ac cs csec ?client (encode_server_hello E server)
      = Inr \<lparr>ses_socket = cs, ses_authenticated_peer = id_node_id si,
             ses_transcript = handshake_transcript E ?client server, ses_keys = keys\<rparr>"
    by (rule handshake_honest [OF E K ids ckey skey, of ssec csec])
  obtain s q1 q2 where q1: "seal C (new_sender (client_to_server keys) ClientToServer) LEARNING_MESSAGE = (s, Ok q1)"
    and echo: "echo_packet C keys q1 = Returns (LEARNING_MESSAGE, q2)"
    and q2: "snd (open_packet C (new_receiver (server_to_client keys) ServerToClient) q2) = Ok LEARNING_MESSAGE"
    and len: "length q1 = length LEARNING_MESSAGE + 29" "length q2 = length LEARNING_MESSAGE + 29"
    by (rule echo_honest [OF C, of LEARNING_MESSAGE]) (simp_all add: LEARNING_MESSAGE_length)
  let ?h1 = "as_bytes (encode_client_hello E ?client)" and ?h2 = "as_bytes (encode_server_hello E server)"
  have fits: "\<forall>d \<in> {?h1, ?h2, q1, q2}. length d \<le> HANDSHAKE_DATAGRAM_BYTES"
    using client_hello_fits(1) [OF client_ok] server_hello_fits(1) [OF server_ok] len
    by (simp add: LEARNING_MESSAGE_length HANDSHAKE_DATAGRAM_BYTES_def)
  have est: "establish_client_session E K (sock ?h2 q2) csec ci Ac address (id_node_id si) RESPONSE_TIMEOUT
      = ([?h1], Inr \<lparr>ses_socket = set_read_timeout RESPONSE_TIMEOUT (sock ?h2 q2), ses_authenticated_peer = id_node_id si,
             ses_transcript = handshake_transcript E ?client server, ses_keys = keys\<rparr>)"
    unfolding establish_Inr
    using chk text_arrives [OF server_hello_fits(2,1) [OF server_ok]] by (simp add: sock_def)
  have recv: "receive_connected_bytes (Inr q2) d = Returns q2" for d
    using fits by (simp add: receive_connected_bytes_def try_receive_connected_bytes_Ok)
  have comp: "complete_client_exchange C \<lparr>ses_socket = set_read_timeout RESPONSE_TIMEOUT (sock ?h2 q2), ses_authenticated_peer = id_node_id si,
             ses_transcript = handshake_transcript E ?client server, ses_keys = keys\<rparr> = ([q1], Returns LEARNING_MESSAGE)"
    using q1 q2 recv by (simp add: complete_client_exchange_def Let_def sock_def)
  have run_c: "run_secure_echo_client E K C (sock ?h2 q2) csec address cp cf (id_node_id si) cap caf
      = ([?h1, q1], Returns LEARNING_MESSAGE)"
    using ci Ac skey est comp
    by (simp add: run_secure_echo_client_def load_client_material_def require_authorized_def)
  have msg: "receive_from (Inr (?h1, source)) d = Returns (encode_client_hello E ?client, source)" for d
    using client_hello_fits [OF client_ok] by (simp add: receive_from_Returns from_utf8_ascii)
  have req: "receive_bytes_from (Inr (q1, source)) d = Returns (q1, source)" for d
    using fits by (simp add: receive_bytes_from_Returns)
  have run_s: "run_secure_echo_server E K C (delivering (?h1, source) (q1, source)) ssec sp sf sap saf
       = ([(?h2, source), (q2, source)], Returns LEARNING_MESSAGE)"
    using si As acc msg req echo by (simp add: run_secure_echo_server_def delivering_def Let_def)
  show thesis by (rule that [OF run_c [unfolded sock_def] run_s fits])
qed

section \<open>Properties\<close>

definition sample_identity :: identity where
  "sample_identity = \<lparr>id_node_id = ''mesh-a'', id_signing_key = sample_secret\<rparr>"

lemma sample_identity_simps [simp]:
  "id_node_id sample_identity = ''mesh-a''" "id_signing_key sample_identity = sample_secret"
  by (simp_all add: sample_identity_def)

lemma sample_identity_file_loaded: "load_identity path (Inr sample_identity_file) = Ok sample_identity"
  by (simp add: sample_identity_loaded sample_identity_def)

lemma sample_key:
  "auth_get sample_authorizations (id_node_id sample_identity)
     = Some (ed_verifying_key sample_ed25519 (id_signing_key sample_identity))"
  by simp

lemma sample_session:
  "\<exists>cs sent session. establish_client_session sample_ed25519 sample_key_exchange cs [3] sample_identity
     sample_authorizations ''127.0.0.1:7000'' ''mesh-a'' RESPONSE_TIMEOUT = (sent, Inr session)"
proof -
  let ?client = "new_client_hello sample_ed25519 sample_key_exchange sample_identity (id_node_id sample_identity) [3]"
  have ids: "valid_node_id (id_node_id sample_identity)" by (simp add: mesh_a_valid)
  obtain server keys where server: "server_hello_ok sample_ed25519 server"
    and chk: "\<forall>cs. check_server_hello sample_ed25519 sample_key_exchange sample_authorizations cs [3] ?client
        (encode_server_hello sample_ed25519 server)
      = Inr \<lparr>ses_socket = cs, ses_authenticated_peer = id_node_id sample_identity,
             ses_transcript = handshake_transcript sample_ed25519 ?client server, ses_keys = keys\<rparr>"
    by (rule handshake_honest [OF sample_ed25519_ok sample_key_exchange_ok ids ids sample_key sample_key, of "[5]" "[3]"])
  have "try_receive_connected (Inr (as_bytes (encode_server_hello sample_ed25519 server)))
      ''server hello'' = Ok (encode_server_hello sample_ed25519 server)"
    using text_arrives [OF server_hello_fits(2,1) [OF server]] by simp
  with chk have "\<exists>sent session. establish_client_session sample_ed25519 sample_key_exchange
      (good_socket (\<lambda>_. as_bytes (encode_server_hello sample_ed25519 server))) [3] sample_identity
      sample_authorizations ''127.0.0.1:7000'' ''mesh-a'' RESPONSE_TIMEOUT = (sent, Inr session)"
    unfolding establish_Inr by simp
  then show ?thesis by blast
qed

text \<open>
  C5.  A client session is authentic: when a session is established, exactly one datagram, the
  client's hello, has been sent, and the answer received within the timeout is a server hello that echoes the
  client's values and carries a signature by the key authorized for the requested peer over both
  hellos; the session is with that peer and its keys derive from the two exchange keys and the
  transcript.
\<close>

theorem client_session_authentic:
  assumes "establish_client_session E K cs secret i A address peer timeout = (sent, Inr session)"
  defines "client \<equiv> new_client_hello E K i peer secret"
  shows "sent = [as_bytes (encode_client_hello E client)] \<and> ses_authenticated_peer session = peer
     \<and> (\<exists>bs message server vk. cs_delivery cs 0 = Inr bs \<and> cs_delay cs 0 < timeout \<and> from_utf8 bs = Some message
          \<and> parse_server_hello E message = Ok server
          \<and> sv_initiator_id server = id_node_id i \<and> sv_responder_id server = peer
          \<and> sv_client_exchange_public server = kx_public K secret
          \<and> auth_get A peer = Some vk
          \<and> ed_verify_strict E vk (server_signing_message E client (sv_server_exchange_public server))
              (sv_signature server)
          \<and> ses_transcript session = handshake_transcript E client server
          \<and> derive_session_keys K (kx_shared K secret (sv_server_exchange_public server))
              (ses_transcript session) = Ok (ses_keys session))"
  using assms(1) unfolding establish_Inr check_server_hello_Inr try_receive_connected_Ok authentic_server_hello_def
  by (auto simp: client_def)

theorem client_session_authentic_witness:
  "\<exists>cs sent session. establish_client_session sample_ed25519 sample_key_exchange cs [3] sample_identity
     sample_authorizations ''127.0.0.1:7000'' ''mesh-a'' RESPONSE_TIMEOUT = (sent, Inr session)
     \<and> length sent = 1 \<and> ses_authenticated_peer session = ''mesh-a''"
proof -
  obtain cs sent session where est: "establish_client_session sample_ed25519 sample_key_exchange cs [3]
     sample_identity sample_authorizations ''127.0.0.1:7000'' ''mesh-a'' RESPONSE_TIMEOUT = (sent, Inr session)"
    using sample_session by blast
  from client_session_authentic [OF est] have "length sent = 1 \<and> ses_authenticated_peer session = ''mesh-a''"
    by (elim conjE) simp
  with est show ?thesis by blast
qed

text \<open>
  C6.  The echo server sends nothing before it has authenticated the client: whenever it sent a
  datagram, its first received datagram is a client hello addressed to this server's node, with a
  signature by the key authorized for the initiator over both node IDs and the exchange key, and
  everything it sent went to the endpoint that hello came from.
\<close>

theorem server_authenticates_before_sending:
  assumes "run_secure_echo_server E K C io secret ip ifile ap afile = (sent, r)" and "sent \<noteq> []"
  shows "\<exists>i A bs source message client vk. load_identity ip ifile = Ok i \<and> load_authorizations E ap afile = Ok A
     \<and> es_hello io = Inr (bs, source) \<and> from_utf8 bs = Some message \<and> parse_client_hello E message = Ok client
     \<and> cl_responder_id client = id_node_id i \<and> auth_get A (cl_initiator_id client) = Some vk
     \<and> ed_verify_strict E vk (client_signing_message (cl_initiator_id client) (id_node_id i)
         (cl_exchange_public client)) (cl_signature client)
     \<and> (\<forall>d \<in> set sent. snd d = source)"
  by (rule server_sends_to_authentic [OF assms])
    (auto simp: authentic_client_hello_def receive_from_Returns)

theorem server_authenticates_before_sending_witness:
  "\<exists>h1 q1 sent. run_secure_echo_server sample_ed25519 sample_key_exchange sample_aead
       (delivering (h1, SocketV4 (Ipv4 10 0 0 1) 5000) (q1, SocketV4 (Ipv4 10 0 0 1) 5000)) [5]
       ''id'' (Inr sample_identity_file) ''keys'' (Inr sample_authorization_file) = (sent, Returns LEARNING_MESSAGE)
     \<and> sent \<noteq> [] \<and> (\<forall>d \<in> set sent. snd d = SocketV4 (Ipv4 10 0 0 1) 5000)"
proof -
  obtain h1 h2 q1 q2 where run: "run_secure_echo_server sample_ed25519 sample_key_exchange sample_aead
       (delivering (h1, SocketV4 (Ipv4 10 0 0 1) 5000) (q1, SocketV4 (Ipv4 10 0 0 1) 5000)) [5]
       ''id'' (Inr sample_identity_file) ''keys'' (Inr sample_authorization_file)
     = ([(h2, SocketV4 (Ipv4 10 0 0 1) 5000), (q2, SocketV4 (Ipv4 10 0 0 1) 5000)], Returns LEARNING_MESSAGE)"
    by (rule echo_run_honest [OF sample_ed25519_ok sample_key_exchange_ok sample_aead_correct
          sample_identity_file_loaded [of "''id''"] sample_identity_file_loaded [of "''id''"]
          sample_authorization_loaded [of "''keys''"] sample_authorization_loaded [of "''keys''"] sample_key sample_key])
  have "es_hello (delivering x y) = Inr x" for x y by (simp add: delivering_def)
  then have "\<forall>d \<in> set [(h2, SocketV4 (Ipv4 10 0 0 1) 5000), (q2, SocketV4 (Ipv4 10 0 0 1) 5000)].
      snd d = SocketV4 (Ipv4 10 0 0 1) 5000"
    using server_authenticates_before_sending [OF run] by auto
  with run show ?thesis by blast
qed

text \<open>
  C9.  Two honest nodes that authorize each other complete the secure echo: with the datagrams
  of each side delivered to the other without delay, the client prints its own message back and the server
  echoes exactly that message; all four datagrams fit the 1024-byte limit.
\<close>

theorem honest_echo_completes:
  assumes "signature_scheme_ok E" and "key_exchange_ok K" and "aead_correct C"
    and "load_identity cp cf = Ok ci" and "load_identity sp sf = Ok si"
    and "load_authorizations E cap caf = Ok Ac" and "load_authorizations E sap saf = Ok As"
    and "auth_get As (id_node_id ci) = Some (ed_verifying_key E (id_signing_key ci))"
    and "auth_get Ac (id_node_id si) = Some (ed_verifying_key E (id_signing_key si))"
  shows "\<exists>h1 h2 q1 q2.
     run_secure_echo_client E K C (good_socket (\<lambda>k. if k = 0 then h2 else q2)) csec address cp cf
       (id_node_id si) cap caf = ([h1, q1], Returns LEARNING_MESSAGE)
     \<and> run_secure_echo_server E K C (delivering (h1, source) (q1, source)) ssec sp sf sap saf
       = ([(h2, source), (q2, source)], Returns LEARNING_MESSAGE)
     \<and> list_all (\<lambda>d. length d \<le> HANDSHAKE_DATAGRAM_BYTES) [h1, h2, q1, q2]"
  by (rule echo_run_honest [OF assms, of csec address source ssec]) (auto simp: list_all_iff)

theorem honest_echo_completes_witness:
  "\<exists>h1 h2 q1 q2.
     run_secure_echo_client sample_ed25519 sample_key_exchange sample_aead
       (good_socket (\<lambda>k. if k = 0 then h2 else q2)) [3] ''127.0.0.1:7000'' ''id'' (Inr sample_identity_file)
       ''mesh-a'' ''keys'' (Inr sample_authorization_file) = ([h1, q1], Returns LEARNING_MESSAGE)
     \<and> run_secure_echo_server sample_ed25519 sample_key_exchange sample_aead
       (delivering (h1, SocketV4 (Ipv4 10 0 0 1) 5000) (q1, SocketV4 (Ipv4 10 0 0 1) 5000)) [5]
       ''id'' (Inr sample_identity_file) ''keys'' (Inr sample_authorization_file)
       = ([(h2, SocketV4 (Ipv4 10 0 0 1) 5000), (q2, SocketV4 (Ipv4 10 0 0 1) 5000)], Returns LEARNING_MESSAGE)"
  using honest_echo_completes [OF sample_ed25519_ok sample_key_exchange_ok sample_aead_correct
      sample_identity_file_loaded [of "''id''"] sample_identity_file_loaded [of "''id''"]
      sample_authorization_loaded [of "''keys''"] sample_authorization_loaded [of "''keys''"] sample_key sample_key,
      of "[3]" "''127.0.0.1:7000''" "SocketV4 (Ipv4 10 0 0 1) 5000" "[5]"]
  by auto

text \<open>
  C17.  The relay is used only when the direct path gave no answer: a datagram goes to the relay
  only if the direct socket was bound and then selecting the address, sending the hello or
  receiving within 250 ms an answer that is text of at most 1024 bytes failed.  An answer that is received but
  rejected never leads to the relay.
\<close>

theorem fallback_only_without_answer:
  assumes "select_path E K direct_cs direct_secret relay_cs relay_secret direct_address relay_address i A peer
      = (sent, relayed, r)" and "relayed \<noteq> []"
  shows "no_answer DIRECT_PATH_TIMEOUT direct_cs"
proof -
  obtain e where "snd (establish_client_session E K direct_cs direct_secret i A direct_address peer
      DIRECT_PATH_TIMEOUT) = Inl e" and "permits_fallback e"
    using assms by (auto simp: select_path_def split: sum.splits prod.splits if_splits)
  then have "\<exists>m. snd (establish_client_session E K direct_cs direct_secret i A direct_address peer
      DIRECT_PATH_TIMEOUT) = Inl (Unreachable m)" by (auto simp: permits_fallback_iff)
  then show ?thesis unfolding establish_Unreachable .
qed

theorem fallback_only_without_answer_witness:
  "\<exists>sent relayed r. select_path sample_ed25519 sample_key_exchange
       (good_socket (\<lambda>_. [])\<lparr>cs_connect_error := Some ''no route''\<rparr>) [3] (good_socket (\<lambda>_. [])) [4] ''a'' ''b''
       sample_identity sample_authorizations ''mesh-a'' = (sent, relayed, r)
     \<and> relayed \<noteq> [] \<and> no_answer DIRECT_PATH_TIMEOUT (good_socket (\<lambda>_. [])\<lparr>cs_connect_error := Some ''no route''\<rparr>)"
proof -
  obtain sent relayed r where sel: "select_path sample_ed25519 sample_key_exchange
       (good_socket (\<lambda>_. [])\<lparr>cs_connect_error := Some ''no route''\<rparr>) [3] (good_socket (\<lambda>_. [])) [4] ''a'' ''b''
       sample_identity sample_authorizations ''mesh-a'' = (sent, relayed, r)" by (metis prod_cases3)
  have "relayed \<noteq> []"
    using sel by (auto simp: select_path_def establish_client_session_def good_socket_def fail_with_def Let_def
        split: sum.splits prod.splits)
  with sel fallback_only_without_answer [OF sel] show ?thesis by blast
qed

text \<open>
  C18.  The automatic client against the plain client, which waits two seconds for each answer.
  The automatic client finishes on the direct path exactly when the plain client finishes there
  and both the server hello and the echo come within 250 ms; it then sends the same datagrams and
  none to the relay, and gets the same message.  It finishes through the relay exactly when the
  direct path gives no answer within 250 ms and the plain client finishes through the relay; the
  relay is sent the same datagrams and the message is the same.
\<close>

theorem auto_client_follows_plain_client:
  "(run_secure_echo_client_auto E K C dcs dsec rcs rsec daddr raddr ip ifile peer ap af
       = (sent, relayed, Returns (''direct'', m)) \<longleftrightarrow>
     relayed = [] \<and> run_secure_echo_client E K C dcs dsec daddr ip ifile peer ap af = (sent, Returns m)
     \<and> cs_delay dcs 0 < DIRECT_PATH_TIMEOUT \<and> cs_delay dcs 1 < DIRECT_PATH_TIMEOUT)
   \<and> ((\<exists>tried. run_secure_echo_client_auto E K C dcs dsec rcs rsec daddr raddr ip ifile peer ap af
       = (tried, relayed, Returns (''relay'', m))) \<longleftrightarrow>
     no_answer DIRECT_PATH_TIMEOUT dcs
     \<and> run_secure_echo_client E K C rcs rsec raddr ip ifile peer ap af = (relayed, Returns m))"
  unfolding auto_direct_Returns auto_relay_Returns run_client_Returns
    echo_within_shorter [OF direct_before_response, where address = daddr and address' = daddr] by blast

theorem auto_client_follows_plain_client_witness:
  "\<exists>h2 q2 sent tried. run_secure_echo_client_auto sample_ed25519 sample_key_exchange sample_aead
       (good_socket (\<lambda>_. [])\<lparr>cs_connect_error := Some ''no route''\<rparr>) [4]
       (good_socket (\<lambda>k. if k = 0 then h2 else q2)) [3] ''10.0.0.1:7000'' ''10.0.0.2:7100''
       ''id'' (Inr sample_identity_file) ''mesh-a'' ''keys'' (Inr sample_authorization_file)
     = (tried, sent, Returns (''relay'', LEARNING_MESSAGE))"
proof -
  obtain h1 h2 q1 q2 where run: "run_secure_echo_client sample_ed25519 sample_key_exchange sample_aead
       (good_socket (\<lambda>k. if k = 0 then h2 else q2)) [3] ''10.0.0.2:7100''
       ''id'' (Inr sample_identity_file) ''mesh-a'' ''keys'' (Inr sample_authorization_file)
     = ([h1, q1], Returns LEARNING_MESSAGE)"
    by (rule echo_run_honest [OF sample_ed25519_ok sample_key_exchange_ok sample_aead_correct
          sample_identity_file_loaded [of "''id''"] sample_identity_file_loaded [of "''id''"]
          sample_authorization_loaded [of "''keys''"] sample_authorization_loaded [of "''keys''"] sample_key sample_key])
      simp
  have silent: "no_answer DIRECT_PATH_TIMEOUT (good_socket (\<lambda>_. [])\<lparr>cs_connect_error := Some ''no route''\<rparr>)"
    by (simp add: no_answer_def)
  show ?thesis
    using auto_client_follows_plain_client [THEN conjunct2, THEN iffD2, OF conjI, OF silent run] by blast
qed

text \<open>
  A peer that answers the hello within 250 ms and the request later: the plain client, which would
  still be waiting, succeeds, and the automatic client panics, with a text that names two seconds.
\<close>

lemma slow_echo_panics:
  assumes plain: "run_secure_echo_client E K C cs secret address ip ifile peer ap af = (sent, Returns m)"
    and fast: "cs_delay cs 0 < DIRECT_PATH_TIMEOUT" and slow: "DIRECT_PATH_TIMEOUT \<le> cs_delay cs 1"
  shows "run_secure_echo_client_auto E K C cs secret rcs rsec address raddr ip ifile peer ap af
     = (sent, [], Panics (''failed to receive encrypted echo within two seconds: failed to receive encrypted echo: ''
          @ cs_timeout_text cs))"
proof -
  obtain i A hello session rest where load: "load_client_material E ip ifile ap af = Returns (i, A)"
    "require_authorized A peer = Returns ()"
    and est: "establish_client_session E K cs secret i A address peer RESPONSE_TIMEOUT = (hello, Inr session)"
    and comp: "complete_client_exchange C session = (rest, Returns m)" "sent = hello @ rest"
    using plain unfolding run_client_Returns echo_within_def by blast
  from establish_timed(3) [OF est fast]
  have direct: "select_path E K cs secret rcs rsec address raddr i A peer
      = (hello, [], Returns (''direct'', session\<lparr>ses_socket := set_read_timeout DIRECT_PATH_TIMEOUT cs\<rparr>))"
    by (simp add: select_path_def)
  obtain q where "snd (seal C (new_sender (client_to_server (ses_keys session)) ClientToServer) LEARNING_MESSAGE) = Ok q"
    and "cs_send_error cs 1 = None" and "rest = [q]"
    using comp(1) establish_timed(2) [OF est] unfolding complete_Returns by auto
  moreover have "cs_received (set_read_timeout DIRECT_PATH_TIMEOUT cs) 1 = Inl (cs_timeout_text cs)"
    using slow by (simp add: received_in_time)
  ultimately have "complete_client_exchange C (session\<lparr>ses_socket := set_read_timeout DIRECT_PATH_TIMEOUT cs\<rparr>)
      = (rest, Panics (''failed to receive encrypted echo within two seconds: failed to receive encrypted echo: ''
          @ cs_timeout_text cs))"
    by (simp add: complete_client_exchange_def Let_def receive_connected_bytes_def try_receive_connected_bytes_def)
  with direct load comp(2) show ?thesis by (simp add: run_secure_echo_client_auto_def)
qed

end
