(* ===== verification/Agreement.thy ===== *)
theory Agreement
  imports Coordinator_Server Handshake
begin

text \<open>
  Nodes of Meshlet in an open network.  An attacker chooses every byte that is received and the
  order in which things happen; the nodes and the coordinator run the operations of
  \<open>src/handshake.rs\<close> and \<open>src/coordinator.rs\<close> on it.  The trace records what the nodes have
  done.  The one thing the attacker cannot do is forge: a received signature that \<open>verify_strict\<close>
  accepts under a node's key was made with this key earlier in the trace.  Of a signature that does
  not verify nothing is assumed, so what an operation learns of the sender rests on its own check.
\<close>

section \<open>One key, three roles\<close>

lemma registration_opens: "take 10 (registration_signing_message n l c) = as_bytes ''MESHLET-RE''"
  by (simp add: registration_signing_message_def as_bytes_def)

lemma client_opens: "take 10 (client_signing_message i r x) = as_bytes ''MESHLET-HA''"
  by (simp add: client_signing_message_def as_bytes_def)

lemma server_opens: "take 10 (server_signing_message E hello y) = as_bytes ''MESHLET-HA''"
  by (simp add: server_signing_message_def as_bytes_def)

lemma registration_is_no_handshake:
  "registration_signing_message n lease c \<noteq> client_signing_message i r x"
  "registration_signing_message n lease c \<noteq> server_signing_message E hello y"
proof -
  have "registration_signing_message n lease c \<noteq> m" if "take 10 m = as_bytes ''MESHLET-HA''" for m
    using registration_opens [of n lease c] that by auto
  then show "registration_signing_message n lease c \<noteq> client_signing_message i r x"
    "registration_signing_message n lease c \<noteq> server_signing_message E hello y"
    using client_opens server_opens by blast+
qed

lemmas roles_differ = registration_is_no_handshake registration_is_no_handshake [symmetric]
  signing_roles_differ signing_roles_differ [symmetric]

section \<open>Traces\<close>

text \<open>The nodes with the authorizations each has loaded, and those of the coordinator.\<close>

record 'vk setting =
  net_nodes :: "identity set"
  net_trust :: "identity \<Rightarrow> 'vk authorizations"
  net_coordinator :: "'vk authorizations"

definition setting_ok :: "('vk, 'sig) ed25519 \<Rightarrow> 'vk setting \<Rightarrow> bool" where
  "setting_ok E S \<longleftrightarrow> (\<forall>i \<in> net_nodes S. (\<exists>path contents. load_identity path contents = Ok i)
     \<and> (\<exists>path contents. load_authorizations E path contents = Ok (net_trust S i)))"

datatype 'sig net_event =
    HelloSent identity string bytes \<comment> \<open>client, peer, exchange secret\<close>
  | HelloAnswered identity bytes "'sig client_hello" "'sig server_hello" bytes session_keys
      \<comment> \<open>server, exchange secret, both hellos, transcript, keys\<close>
  | SessionOpened identity string bytes client_session
  | RegistrationSigned identity duration bytes \<comment> \<open>node, lease, challenge\<close>
  | NodeEnrolled string duration bytes socket_addr

text \<open>What an event signs: the verification key, the message and the signature.\<close>

definition signed_by :: "('vk, 'sig) ed25519 \<Rightarrow> identity \<Rightarrow> bytes \<Rightarrow> 'vk \<times> bytes \<times> 'sig" where
  "signed_by E i m = (ed_verifying_key E (id_signing_key i), m, identity_sign E i m)"

fun signing :: "('vk, 'sig) ed25519 \<Rightarrow> key_exchange \<Rightarrow> 'sig net_event \<Rightarrow> ('vk \<times> bytes \<times> 'sig) option" where
  "signing E K (HelloSent i peer secret) =
     Some (signed_by E i (client_signing_message (id_node_id i) peer (kx_public K secret)))"
| "signing E K (HelloAnswered i secret client server transcript keys) =
     Some (signed_by E i (server_signing_message E client (kx_public K secret)))"
| "signing E K (RegistrationSigned i lease c) =
     Some (signed_by E i (registration_signing_message (id_node_id i) lease c))"
| "signing E K _ = None"

text \<open>
  Signatures are not forged: wherever the received signature verifies on the message under a
  node's key, the trace contains the event that made it.
\<close>

definition node_key :: "('vk, 'sig) ed25519 \<Rightarrow> 'vk setting \<Rightarrow> 'vk \<Rightarrow> bool" where
  "node_key E S vk \<longleftrightarrow> (\<exists>i \<in> net_nodes S. vk = ed_verifying_key E (id_signing_key i))"

definition genuine ::
  "('vk, 'sig) ed25519 \<Rightarrow> key_exchange \<Rightarrow> 'vk setting \<Rightarrow> 'sig net_event list \<Rightarrow> bytes \<Rightarrow> 'sig \<Rightarrow> bool" where
  "genuine E K S T m sg \<longleftrightarrow>
     (\<forall>vk. node_key E S vk \<and> ed_verify_strict E vk m sg \<longrightarrow> Some (vk, m, sg) \<in> signing E K ` set T)"

inductive network ::
  "('vk, 'sig) ed25519 \<Rightarrow> key_exchange \<Rightarrow> 'vk setting \<Rightarrow> 'sig net_event list \<Rightarrow> bool"
  for E :: "('vk, 'sig) ed25519" and K :: key_exchange and S :: "'vk setting" where
  quiet: "network E K S []"
| hello: "network E K S T \<Longrightarrow> i \<in> net_nodes S \<Longrightarrow> require_authorized (net_trust S i) peer = Returns () \<Longrightarrow>
    network E K S (T @ [HelloSent i peer secret])"
| answer: "network E K S T \<Longrightarrow> i \<in> net_nodes S \<Longrightarrow>
    accept_client E K i (net_trust S i) secret message = Returns (client, server, transcript, keys) \<Longrightarrow>
    genuine E K S T (client_signing_message (cl_initiator_id client) (cl_responder_id client)
      (cl_exchange_public client)) (cl_signature client) \<Longrightarrow>
    network E K S (T @ [HelloAnswered i secret client server transcript keys])"
| session: "network E K S T \<Longrightarrow> i \<in> net_nodes S \<Longrightarrow> HelloSent i peer secret \<in> set T \<Longrightarrow>
    establish_client_session E K cs secret i (net_trust S i) address peer timeout = (sent, Inr session) \<Longrightarrow>
    (\<And>message server. try_receive_connected (cs_delivery cs 0) ''server hello'' = Ok message \<Longrightarrow>
       parse_server_hello E message = Ok server \<Longrightarrow>
       genuine E K S T (server_signing_message E (new_client_hello E K i peer secret)
         (sv_server_exchange_public server)) (sv_signature server)) \<Longrightarrow>
    network E K S (T @ [SessionOpened i peer secret session])"
| register: "network E K S T \<Longrightarrow> i \<in> net_nodes S \<Longrightarrow> parse_lease lease_text = Ok lease \<Longrightarrow>
    parse_challenge_response response (id_node_id i) = Ok c \<Longrightarrow>
    network E K S (T @ [RegistrationSigned i lease c])"
| enrol: "network E K S T \<Longrightarrow> parse_auth_request E datagram = Ok (AuthRegister n lease c sg) \<Longrightarrow>
    co_authorizations co = net_coordinator S \<Longrightarrow>
    register_node E n lease c sg source now co = Returns (co', AuthRegistered n source lease) \<Longrightarrow>
    genuine E K S T (registration_signing_message n lease c) sg \<Longrightarrow>
    network E K S (T @ [NodeEnrolled n lease c source])"

inductive_cases network_snocE: "network E K S (T @ [ev])"

lemma network_prefix: "network E K S (us @ vs) \<Longrightarrow> network E K S us"
  by (induction vs rule: rev_induct) (auto simp: append_assoc [symmetric] simp del: append_assoc elim: network_snocE)

lemma network_event: "network E K S (us @ ev # vs) \<Longrightarrow> network E K S (us @ [ev])"
  using network_prefix [of E K S "us @ [ev]" vs] by simp

text \<open>What an event of a trace says of the run that made it.\<close>

lemma network_at:
  assumes "network E K S T" and "ev \<in> set T"
  obtains us where "network E K S (us @ [ev])"
  using assms by (auto simp: in_set_conv_decomp dest: network_event)

lemma hello_in_network:
  assumes "network E K S T" and "HelloSent i peer secret \<in> set T"
  shows "i \<in> net_nodes S \<and> require_authorized (net_trust S i) peer = Returns ()"
  by (rule network_at [OF assms]) (auto elim: network_snocE)

lemma answer_in_network:
  assumes "network E K S T" and "HelloAnswered i secret client server transcript keys \<in> set T"
  shows "i \<in> net_nodes S
     \<and> (\<exists>message. accept_client E K i (net_trust S i) secret message = Returns (client, server, transcript, keys))"
  by (rule network_at [OF assms]) (auto elim: network_snocE)

lemma registration_in_network:
  assumes "network E K S T" and "RegistrationSigned i lease c \<in> set T"
  shows "i \<in> net_nodes S \<and> lease_ok lease"
  by (rule network_at [OF assms]) (auto elim: network_snocE dest: parse_lease_ok)

lemma node_id_valid: "setting_ok E S \<Longrightarrow> i \<in> net_nodes S \<Longrightarrow> valid_node_id (id_node_id i)"
  by (auto simp: setting_ok_def dest: load_identity_valid)

lemma trusted_id_valid:
  "setting_ok E S \<Longrightarrow> i \<in> net_nodes S \<Longrightarrow> require_authorized (net_trust S i) n = Returns () \<Longrightarrow> valid_node_id n"
  by (auto simp: setting_ok_def require_authorized_def dest: load_authorizations_valid split: if_splits)

section \<open>Which event made a signature\<close>

lemma genuine_event:
  assumes "genuine E K S T m sg" and "node_key E S vk" and "ed_verify_strict E vk m sg"
  obtains ev where "ev \<in> set T" and "signing E K ev = Some (vk, m, sg)"
proof -
  have "Some (vk, m, sg) \<in> signing E K ` set T" using assms by (simp add: genuine_def)
  then obtain ev where "ev \<in> set T" and "Some (vk, m, sg) = signing E K ev" by (rule imageE)
  then show thesis using that by simp
qed

lemma client_signing_event:
  assumes "signing E K ev = Some (vk, client_signing_message n r x, sg)"
  obtains i peer secret where "ev = HelloSent i peer secret"
    and "vk = ed_verifying_key E (id_signing_key i)"
    and "client_signing_message n r x = client_signing_message (id_node_id i) peer (kx_public K secret)"
    and "sg = identity_sign E i (client_signing_message n r x)"
  using assms by (cases ev) (auto simp: signed_by_def roles_differ)

lemma server_signing_event:
  assumes "signing E K ev = Some (vk, server_signing_message E client y, sg)"
  obtains i secret client' server transcript keys where "ev = HelloAnswered i secret client' server transcript keys"
    and "vk = ed_verifying_key E (id_signing_key i)"
    and "server_signing_message E client y = server_signing_message E client' (kx_public K secret)"
    and "sg = identity_sign E i (server_signing_message E client y)"
  using assms by (cases ev) (auto simp: signed_by_def roles_differ)

lemma registration_signing_event:
  assumes "signing E K ev = Some (vk, registration_signing_message n l c, sg)"
  obtains i lease c' where "ev = RegistrationSigned i lease c'"
    and "vk = ed_verifying_key E (id_signing_key i)"
    and "registration_signing_message n l c = registration_signing_message (id_node_id i) lease c'"
  using assms by (cases ev) (auto simp: signed_by_def roles_differ)

section \<open>Agreement\<close>

lemma server_answers_that_client:
  assumes E: "signature_scheme_ok E" and S: "setting_ok E S"
    and run: "network E K S (us @ [HelloAnswered j secret client server transcript keys])"
    and vk: "auth_get (net_trust S j) (cl_initiator_id client) = Some vk" "node_key E S vk"
  obtains i csecret where "HelloSent i (id_node_id j) csecret \<in> set us"
    and "client = new_client_hello E K i (id_node_id j) csecret"
proof -
  let ?m = "client_signing_message (cl_initiator_id client) (cl_responder_id client) (cl_exchange_public client)"
  from run obtain message where before: "network E K S us" and j: "j \<in> net_nodes S"
    and acc: "accept_client E K j (net_trust S j) secret message = Returns (client, server, transcript, keys)"
    and gen: "genuine E K S us ?m (cl_signature client)"
    by (auto elim: network_snocE)
  from acc have parsed: "parse_client_hello E message = Ok client" and to_j: "cl_responder_id client = id_node_id j"
    and verified: "ed_verify_strict E vk ?m (cl_signature client)"
    using vk(1) by (auto simp: accept_client_Returns verify_signature_Ok)
  from genuine_event [OF gen vk(2) verified] obtain ev where ev: "ev \<in> set us"
    "signing E K ev = Some (vk, ?m, cl_signature client)" .
  from client_signing_event [OF ev(2)] obtain i peer csecret where hello: "ev = HelloSent i peer csecret"
    and msg: "?m = client_signing_message (id_node_id i) peer (kx_public K csecret)"
    and sg: "cl_signature client = identity_sign E i ?m" by metis
  have "i \<in> net_nodes S" "require_authorized (net_trust S i) peer = Returns ()"
    using hello_in_network [OF before] ev(1) hello by blast+
  then have ids: "valid_node_id (id_node_id i)" "valid_node_id peer"
    using node_id_valid [OF S] trusted_id_valid [OF S] by blast+
  have "valid_node_id (cl_initiator_id client)" "valid_node_id (cl_responder_id client)"
    using parse_client_hello_ok [OF E parsed] by (simp_all add: client_hello_ok_def)
  from client_signing_message_inject [OF this ids] msg have fields: "cl_initiator_id client = id_node_id i"
    "cl_responder_id client = peer" "cl_exchange_public client = kx_public K csecret" by blast+
  have "client = new_client_hello E K i (id_node_id j) csecret"
    using fields to_j sg by (intro client_hello.equality) (simp_all add: identity_sign_def)
  moreover have "HelloSent i (id_node_id j) csecret \<in> set us" using ev(1) hello fields(2) to_j by simp
  ultimately show thesis by (rule that [rotated])
qed

lemma client_session_has_server:
  assumes E: "signature_scheme_ok E" and K: "key_exchange_ok K" and S: "setting_ok E S"
    and run: "network E K S (us @ [SessionOpened i peer secret session])"
    and vk: "auth_get (net_trust S i) peer = Some vk" "node_key E S vk"
  obtains j ssecret server where "HelloAnswered j ssecret (new_client_hello E K i peer secret) server
      (ses_transcript session) (ses_keys session) \<in> set us"
    and "id_node_id j = peer" and "ed_verifying_key E (id_signing_key j) = vk"
proof -
  let ?client = "new_client_hello E K i peer secret"
  from run obtain cs address timeout sent where before: "network E K S us" and i: "i \<in> net_nodes S"
    and sent: "HelloSent i peer secret \<in> set us"
    and est: "establish_client_session E K cs secret i (net_trust S i) address peer timeout = (sent, Inr session)"
    and gen: "\<And>message server. try_receive_connected (cs_delivery cs 0) ''server hello'' = Ok message \<Longrightarrow>
       parse_server_hello E message = Ok server \<Longrightarrow>
       genuine E K S us (server_signing_message E ?client (sv_server_exchange_public server)) (sv_signature server)"
    by (auto elim!: network_snocE)
  from est obtain message server keys where
    msg: "try_receive_connected (cs_delivery cs 0) ''server hello'' = Ok message"
    and parsed: "parse_server_hello E message = Ok server"
    and verified: "ed_verify_strict E vk (server_signing_message E ?client (sv_server_exchange_public server))
      (sv_signature server)"
    and keys: "derive_session_keys K (kx_shared K secret (sv_server_exchange_public server))
            (handshake_transcript E ?client server) = Ok keys"
    and session: "ses_transcript session = handshake_transcript E ?client server" "ses_keys session = keys"
    using vk(1) unfolding establish_Inr check_server_hello_Inr authentic_server_hello_def try_receive_timed by auto
  from genuine_event [OF gen [OF msg parsed] vk(2) verified] obtain ev where ev: "ev \<in> set us"
    "signing E K ev = Some (vk, server_signing_message E ?client (sv_server_exchange_public server), sv_signature server)" .
  from server_signing_event [OF ev(2)] obtain j ssecret client' server' transcript keys' where
    answered: "ev = HelloAnswered j ssecret client' server' transcript keys'"
    and key: "vk = ed_verifying_key E (id_signing_key j)"
    and same: "server_signing_message E ?client (sv_server_exchange_public server)
        = server_signing_message E client' (kx_public K ssecret)"
    and sg: "sv_signature server
        = identity_sign E j (server_signing_message E ?client (sv_server_exchange_public server))" by metis
  obtain m where acc: "accept_client E K j (net_trust S j) ssecret m = Returns (client', server', transcript, keys')"
    using answer_in_network [OF before] ev(1) answered by blast
  then have c': "parse_client_hello E m = Ok client'" "cl_responder_id client' = id_node_id j"
    and server': "sv_server_exchange_public server' = kx_public K ssecret"
      "sv_signature server' = identity_sign E j (server_signing_message E client' (kx_public K ssecret))"
    and transcript: "transcript = handshake_transcript E client' server'"
    and keys': "derive_session_keys K (kx_shared K ssecret (cl_exchange_public client')) transcript = Ok keys'"
    by (auto simp: accept_client_Returns)
  have "client_hello_ok E ?client"
    using new_client_hello_ok [OF E K] node_id_valid [OF S i] trusted_id_valid [OF S i]
      hello_in_network [OF before sent] by blast
  from server_message_prefix [OF this parse_client_hello_ok [OF E c'(1)], of _ "[]" _ "[]"] same
  have client: "client' = ?client" and y: "sv_server_exchange_public server = kx_public K ssecret" by auto
  have tr: "transcript = ses_transcript session"
    using transcript session(1) client y server' sg by (simp add: handshake_transcript_def Let_def)
  have "derive_session_keys K (kx_shared K ssecret (kx_public K secret)) transcript = Ok (ses_keys session)"
    using keys session tr y by (simp add: derive_session_keys_agree [OF K, of ssecret secret])
  with keys' client have "keys' = ses_keys session" by simp
  with tr client answered ev(1) show thesis
    using that [of j ssecret server'] c'(2) key client by simp
qed

lemma enrolled_node_signed:
  assumes E: "signature_scheme_ok E" and S: "setting_ok E S"
    and run: "network E K S (us @ [NodeEnrolled n lease c source])"
    and vk: "auth_get (net_coordinator S) n = Some vk" "node_key E S vk"
  obtains i where "RegistrationSigned i lease c \<in> set us" and "id_node_id i = n"
    and "ed_verifying_key E (id_signing_key i) = vk"
proof -
  from run obtain datagram sg co now co' where before: "network E K S us"
    and parsed: "parse_auth_request E datagram = Ok (AuthRegister n lease c sg)"
    and co: "co_authorizations co = net_coordinator S"
    and exec: "register_node E n lease c sg source now co = Returns (co', AuthRegistered n source lease)"
    and gen: "genuine E K S us (registration_signing_message n lease c) sg"
    by (auto elim!: network_snocE)
  have "accepts E (co_authorizations co) n lease c sg"
    using exec by (auto simp: register_node_eq Let_def split: option.splits if_splits)
  then have verified: "ed_verify_strict E vk (registration_signing_message n lease c) sg"
    using vk(1) co by (simp add: accepts_def)
  from genuine_event [OF gen vk(2) verified] obtain ev where ev: "ev \<in> set us"
    "signing E K ev = Some (vk, registration_signing_message n lease c, sg)" .
  from registration_signing_event [OF ev(2)] obtain i l d where signed: "ev = RegistrationSigned i l d"
    and key: "vk = ed_verifying_key E (id_signing_key i)"
    and msg: "registration_signing_message n lease c = registration_signing_message (id_node_id i) l d" by metis
  have ok: "valid_node_id n" "lease_ok lease"
    using codec.dec_valid [OF auth_requests_codec [OF E] parsed] by simp_all
  have i: "i \<in> net_nodes S" "lease_ok l" using registration_in_network [OF before] ev(1) signed by blast+
  from registration_signing_message_inject [OF ok(1) node_id_valid [OF S i(1)]] msg
  have "n = id_node_id i" "as_secs lease = as_secs l" "c = d" by blast+
  moreover have "lease = l" using calculation(2) ok(2) i(2) by (auto simp: lease_ok_def)
  ultimately show thesis using that [of i] ev(1) signed key by simp
qed

section \<open>Properties\<close>

text \<open>A setting for the examples: two nodes that trust each other, and a coordinator.\<close>

definition sample_identity_b :: identity where
  "sample_identity_b = \<lparr>id_node_id = ''mesh-b'', id_signing_key = replicate 32 9\<rparr>"

definition sample_trust :: "identity \<Rightarrow> bytes authorizations" where
  "sample_trust i = \<lparr>auth_keys = fmupd (id_node_id i) (ed_verifying_key sample_ed25519 (id_signing_key i)) fmempty\<rparr>"

definition sample_setting :: "bytes setting" where
  "sample_setting = \<lparr>net_nodes = {sample_identity, sample_identity_b},
     net_trust = (\<lambda>i. if i = sample_identity then sample_trust sample_identity_b else sample_trust sample_identity),
     net_coordinator = sample_trust sample_identity\<rparr>"

lemma auth_get_sample_trust [simp]:
  "auth_get (sample_trust i) (id_node_id i) = Some (ed_verifying_key sample_ed25519 (id_signing_key i))"
  by (simp add: sample_trust_def auth_get_def)

lemma sample_ids: "valid_node_id (id_node_id sample_identity)" "valid_node_id (id_node_id sample_identity_b)"
  by (simp_all add: sample_identity_b_def mesh_a_valid valid_node_id_def MAX_NODE_ID_BYTES_def
      is_ascii_alphanumeric_def is_ascii_digit_def)

lemma sample_identities_differ [simp]: "sample_identity_b \<noteq> sample_identity" "sample_identity \<noteq> sample_identity_b"
  by (simp_all add: sample_identity_b_def sample_identity_def)

lemma identity_loads:
  assumes "valid_node_id (id_node_id i)" and "length (id_signing_key i) = 32"
  shows "load_identity path (Inr (identity_line PRIVATE_FILE_VERSION (id_node_id i) (id_signing_key i))) = Ok i"
  using parse_identity_line [OF assms] by (simp add: load_identity_def)

lemma sample_trust_loads:
  "valid_node_id (id_node_id i) \<Longrightarrow> \<exists>path contents. load_authorizations sample_ed25519 path contents = Ok (sample_trust i)"
  using load_authorization_line [OF sample_ed25519_ok, of "id_node_id i"] unfolding sample_trust_def by blast

lemma sample_setting_ok: "setting_ok sample_ed25519 sample_setting"
proof -
  have "\<exists>path contents. load_identity path contents = Ok sample_identity"
    "\<exists>path contents. load_identity path contents = Ok sample_identity_b"
    using identity_loads [of sample_identity] identity_loads [of sample_identity_b] sample_ids
    by (auto simp: sample_identity_b_def sample_secret_def)
  then show ?thesis using sample_trust_loads [OF sample_ids(1)] sample_trust_loads [OF sample_ids(2)]
    by (simp add: setting_ok_def sample_setting_def)
qed

text \<open>A signature of the example scheme verifies under no key but its signer's.\<close>

lemma sample_verify_key:
  assumes "node_key sample_ed25519 S vk"
    and "ed_verify_strict sample_ed25519 vk m (identity_sign sample_ed25519 i m')"
  shows "vk = ed_verifying_key sample_ed25519 (id_signing_key i)"
proof -
  have key: "length (ed_verifying_key sample_ed25519 k) = 32" for k by (simp add: sample_ed25519_def)
  have "identity_sign sample_ed25519 i m' = ed_verifying_key sample_ed25519 (id_signing_key i) @ replicate 32 (sum_list m')"
    by (simp add: sample_ed25519_def identity_sign_def)
  with assms(2) have "take 64 ((ed_verifying_key sample_ed25519 (id_signing_key i) @ replicate 32 (sum_list m'))
      @ replicate 64 0) = vk @ replicate 32 (sum_list m)"
    by (simp add: sample_ed25519_def del: take_append append_assoc)
  then have "ed_verifying_key sample_ed25519 (id_signing_key i) @ replicate 32 (sum_list m') = vk @ replicate 32 (sum_list m)"
    by (simp add: key)
  moreover have "length vk = 32" using assms(1) key by (auto simp: node_key_def)
  ultimately show ?thesis using append_eq_append_conv key by metis
qed

lemma sample_genuine:
  assumes "sg = identity_sign sample_ed25519 i m"
    and "Some (signed_by sample_ed25519 i m) \<in> signing sample_ed25519 K ` set T"
  shows "genuine sample_ed25519 K S T m sg"
  using assms sample_verify_key [of S _ m i m] unfolding genuine_def signed_by_def by auto

text \<open>The traces are possible: an honest handshake, and an honest registration.\<close>

lemma sample_handshake_trace:
  defines "client \<equiv> new_client_hello sample_ed25519 sample_key_exchange sample_identity
     (id_node_id sample_identity_b) [3]"
  shows "\<exists>server transcript keys session. network sample_ed25519 sample_key_exchange sample_setting
     ([HelloSent sample_identity (id_node_id sample_identity_b) [3],
       HelloAnswered sample_identity_b [5] client server transcript keys]
      @ SessionOpened sample_identity (id_node_id sample_identity_b) [3] session # [])"
proof -
  let ?E = sample_ed25519 and ?K = sample_key_exchange and ?S = sample_setting
  let ?a = sample_identity and ?b = sample_identity_b
  have nodes: "?a \<in> net_nodes ?S" "?b \<in> net_nodes ?S" by (simp_all add: sample_setting_def)
  have trust: "net_trust ?S ?a = sample_trust ?b" "net_trust ?S ?b = sample_trust ?a"
    by (simp_all add: sample_setting_def)
  obtain server keys where acc: "accept_client ?E ?K ?b (sample_trust ?a) [5] (encode_client_hello ?E client)
      = Returns (client, server, handshake_transcript ?E client server, keys)"
    and server: "server_hello_ok ?E server"
    and chk: "\<forall>cs. check_server_hello ?E ?K (sample_trust ?b) cs [3] client (encode_server_hello ?E server)
      = Inr \<lparr>ses_socket = cs, ses_authenticated_peer = id_node_id ?b,
             ses_transcript = handshake_transcript ?E client server, ses_keys = keys\<rparr>"
    unfolding client_def
    by (rule handshake_honest [OF sample_ed25519_ok sample_key_exchange_ok sample_ids
        auth_get_sample_trust auth_get_sample_trust])
  let ?cs = "good_socket (\<lambda>_. as_bytes (encode_server_hello ?E server))"
  have arrives: "try_receive_connected (cs_delivery ?cs 0) ''server hello'' = Ok (encode_server_hello ?E server)"
    using text_arrives [OF server_hello_fits(2,1) [OF server]] by (simp add: good_socket_def)
  from chk arrives obtain session where est: "establish_client_session ?E ?K ?cs [3] ?a (net_trust ?S ?a) address
      (id_node_id ?b) RESPONSE_TIMEOUT = ([as_bytes (encode_client_hello ?E client)], Inr session)" for address
    unfolding establish_Inr try_receive_timed trust client_def by (simp add: good_socket_def)
  have start: "network ?E ?K ?S ([] @ [HelloSent ?a (id_node_id ?b) [3]])"
    by (rule network.hello [OF network.quiet nodes(1)]) (simp add: require_authorized_def trust)
  let ?T = "[HelloSent ?a (id_node_id ?b) [3],
      HelloAnswered ?b [5] client server (handshake_transcript ?E client server) keys]"
  have "network ?E ?K ?S ([HelloSent ?a (id_node_id ?b) [3]]
      @ [HelloAnswered ?b [5] client server (handshake_transcript ?E client server) keys])"
  proof (rule network.answer [OF _ nodes(2)])
    show "accept_client ?E ?K ?b (net_trust ?S ?b) [5] (encode_client_hello ?E client)
        = Returns (client, server, handshake_transcript ?E client server, keys)" unfolding trust by (rule acc)
  next
    show "genuine ?E ?K ?S [HelloSent ?a (id_node_id ?b) [3]] (client_signing_message (cl_initiator_id client)
        (cl_responder_id client) (cl_exchange_public client)) (cl_signature client)"
      by (rule sample_genuine) (simp_all add: signed_by_def identity_sign_def client_def del: sample_identity_simps)
  qed (use start in simp)
  then have answered: "network ?E ?K ?S ?T" by simp
  have "network ?E ?K ?S (?T @ [SessionOpened ?a (id_node_id ?b) [3] session])"
  proof (rule network.session [OF answered nodes(1) _ est])
    fix message server'
    assume "try_receive_connected (cs_delivery ?cs 0) ''server hello'' = Ok message"
      and "parse_server_hello ?E message = Ok server'"
    then have "server' = server" using arrives parse_server_hello_text [OF server] by simp
    moreover have "sv_signature server = identity_sign ?E ?b (server_signing_message ?E client (kx_public ?K [5]))"
      "sv_server_exchange_public server = kx_public ?K [5]"
      using acc by (simp_all add: accept_client_Returns)
    ultimately show "genuine ?E ?K ?S ?T (server_signing_message ?E (new_client_hello ?E ?K ?a (id_node_id ?b) [3])
        (sv_server_exchange_public server')) (sv_signature server')"
      by (intro sample_genuine [where i = ?b]) (simp_all add: signed_by_def client_def)
  qed simp
  then show ?thesis by auto
qed

lemma sample_registration_trace:
  "\<exists>c. network sample_ed25519 sample_key_exchange sample_setting
     ([RegistrationSigned sample_identity (from_secs 30) c]
      @ NodeEnrolled (id_node_id sample_identity) (from_secs 30) c sample_source # [])"
proof -
  let ?E = sample_ed25519 and ?K = sample_key_exchange and ?S = sample_setting
  let ?a = sample_identity and ?n = "id_node_id sample_identity" and ?l = "from_secs 30"
  let ?m = "registration_signing_message ?n ?l sample_challenge"
  have lease: "lease_ok ?l" by (auto simp: lease_ok_def MAX_LEASE_SECONDS_def)
  have c: "length sample_challenge = CHALLENGE_BYTES" by (simp add: sample_challenge_def CHALLENGE_BYTES_def)
  have "network ?E ?K ?S ([] @ [RegistrationSigned ?a ?l sample_challenge])"
    by (rule network.register [OF network.quiet _ parse_lease_decimal [OF lease] parse_challenge_reply [OF sample_ids(1) c]])
      (simp add: sample_setting_def)
  then have signed: "network ?E ?K ?S [RegistrationSigned ?a ?l sample_challenge]" by simp
  have parsed: "parse_auth_request ?E (as_bytes (auth_request_text ?E
      (AuthRegister ?n ?l sample_challenge (identity_sign ?E ?a ?m))))
      = Ok (AuthRegister ?n ?l sample_challenge (identity_sign ?E ?a ?m))"
    using sample_ids(1) lease c
    by (intro parse_auth_request_text) (simp add: identity_sign_def sign_wire [OF sample_ed25519_ok])
  let ?co = "ch_put (?n, sample_source) sample_challenge 2 (new_coordinator (sample_trust ?a))"
  have "accepts ?E (sample_trust ?a) ?n ?l sample_challenge (identity_sign ?E ?a ?m)"
    unfolding accepts_def by (simp add: identity_sign_def sign_verifies [OF sample_ed25519_ok]
        del: sample_identity_simps)
  moreover have "1 + ?l < instant_end" by (simp add: from_secs_def instant_end_def nanos_per_sec_def)
  ultimately obtain co' where exec: "register_node ?E ?n ?l sample_challenge (identity_sign ?E ?a ?m) sample_source 1 ?co
      = Returns (co', AuthRegistered ?n sample_source ?l)"
    by (simp add: register_node_eq Let_def ch_get_pruned pending.get_put while_live_Some checked_add_instant_def
        del: sample_identity_simps)
  have "genuine ?E ?K ?S [RegistrationSigned ?a ?l sample_challenge] ?m (identity_sign ?E ?a ?m)"
    by (rule sample_genuine) (simp_all add: signed_by_def del: sample_identity_simps)
  then have "network ?E ?K ?S ([RegistrationSigned ?a ?l sample_challenge] @ [NodeEnrolled ?n ?l sample_challenge sample_source])"
    by (intro network.enrol [OF signed parsed _ exec]) (simp_all add: sample_setting_def)
  then show ?thesis by auto
qed

text \<open>
  C3.  The handshake gives agreement against an attacker who controls the network and can do
  anything but forge a signature that verifies under a node's key.  When a client opens a session with a peer whose authorized key
  belongs to a node, that node has answered exactly this client's hello, with the same transcript
  and the same session keys.  When a server answers a hello whose initiator's authorized key
  belongs to a node, that node has sent exactly this hello, and to this server.
\<close>

theorem handshake_agreement:
  assumes E: "signature_scheme_ok E" and K: "key_exchange_ok K" and S: "setting_ok E S"
    and run: "network E K S (us @ ev # vs)"
  shows "(\<forall>i peer secret session vk. ev = SessionOpened i peer secret session \<longrightarrow>
         auth_get (net_trust S i) peer = Some vk \<longrightarrow> node_key E S vk \<longrightarrow>
         (\<exists>j ssecret server. HelloAnswered j ssecret (new_client_hello E K i peer secret) server
             (ses_transcript session) (ses_keys session) \<in> set us
           \<and> id_node_id j = peer \<and> ed_verifying_key E (id_signing_key j) = vk))
     \<and> (\<forall>j ssecret client server transcript keys vk. ev = HelloAnswered j ssecret client server transcript keys \<longrightarrow>
         auth_get (net_trust S j) (cl_initiator_id client) = Some vk \<longrightarrow> node_key E S vk \<longrightarrow>
         (\<exists>i secret. HelloSent i (id_node_id j) secret \<in> set us
           \<and> client = new_client_hello E K i (id_node_id j) secret))"
proof (intro conjI allI impI)
  fix i peer secret session vk
  assume "ev = SessionOpened i peer secret session" and vk: "auth_get (net_trust S i) peer = Some vk" "node_key E S vk"
  then show "\<exists>j ssecret server. HelloAnswered j ssecret (new_client_hello E K i peer secret) server
             (ses_transcript session) (ses_keys session) \<in> set us
           \<and> id_node_id j = peer \<and> ed_verifying_key E (id_signing_key j) = vk"
    using client_session_has_server [OF E K S _ vk] network_event [OF run] by blast
next
  fix j ssecret client server transcript keys vk
  assume "ev = HelloAnswered j ssecret client server transcript keys"
    and vk: "auth_get (net_trust S j) (cl_initiator_id client) = Some vk" "node_key E S vk"
  then show "\<exists>i secret. HelloSent i (id_node_id j) secret \<in> set us
           \<and> client = new_client_hello E K i (id_node_id j) secret"
    using server_answers_that_client [OF E S _ vk] network_event [OF run] by blast
qed

lemma sample_node_keys: "node_key sample_ed25519 sample_setting (ed_verifying_key sample_ed25519 (id_signing_key sample_identity))"
  "node_key sample_ed25519 sample_setting (ed_verifying_key sample_ed25519 (id_signing_key sample_identity_b))"
  by (auto simp: node_key_def sample_setting_def simp del: sample_identity_simps)

theorem handshake_agreement_witness:
  "\<exists>us session j ssecret server. network sample_ed25519 sample_key_exchange sample_setting
       (us @ SessionOpened sample_identity (id_node_id sample_identity_b) [3] session # [])
     \<and> HelloAnswered j ssecret (new_client_hello sample_ed25519 sample_key_exchange sample_identity
           (id_node_id sample_identity_b) [3]) server (ses_transcript session) (ses_keys session) \<in> set us
     \<and> id_node_id j = id_node_id sample_identity_b"
proof -
  obtain us session where run: "network sample_ed25519 sample_key_exchange sample_setting
      (us @ SessionOpened sample_identity (id_node_id sample_identity_b) [3] session # [])"
    using sample_handshake_trace by blast
  have "auth_get (net_trust sample_setting sample_identity) (id_node_id sample_identity_b)
      = Some (ed_verifying_key sample_ed25519 (id_signing_key sample_identity_b))"
    by (simp add: sample_setting_def)
  from handshake_agreement [OF sample_ed25519_ok sample_key_exchange_ok sample_setting_ok run, THEN conjunct1,
      rule_format, OF refl this sample_node_keys(2)]
  obtain j ssecret server where "HelloAnswered j ssecret (new_client_hello sample_ed25519 sample_key_exchange
      sample_identity (id_node_id sample_identity_b) [3]) server (ses_transcript session) (ses_keys session) \<in> set us"
    and "id_node_id j = id_node_id sample_identity_b" by (elim exE conjE)
  with run show ?thesis by (intro exI conjI)
qed

text \<open>
  C4.  A registration is what the node asked for: when the coordinator confirms a registration of
  a node ID whose authorized key belongs to a node, a node with this ID and this key has signed a
  registration for exactly this lease in answer to exactly this challenge.
\<close>

theorem enrolment_agreement:
  assumes E: "signature_scheme_ok E" and S: "setting_ok E S"
    and run: "network E K S (us @ NodeEnrolled n lease c source # vs)"
    and vk: "auth_get (net_coordinator S) n = Some vk" "node_key E S vk"
  shows "\<exists>i. RegistrationSigned i lease c \<in> set us \<and> id_node_id i = n \<and> ed_verifying_key E (id_signing_key i) = vk"
  using enrolled_node_signed [OF E S network_event [OF run] vk] by blast

theorem enrolment_agreement_witness:
  "\<exists>us c i. network sample_ed25519 sample_key_exchange sample_setting
       (us @ NodeEnrolled (id_node_id sample_identity) (from_secs 30) c sample_source # [])
     \<and> RegistrationSigned i (from_secs 30) c \<in> set us \<and> id_node_id i = ''mesh-a''"
proof -
  obtain us c where run: "network sample_ed25519 sample_key_exchange sample_setting
      (us @ NodeEnrolled (id_node_id sample_identity) (from_secs 30) c sample_source # [])"
    using sample_registration_trace by blast
  have "auth_get (net_coordinator sample_setting) (id_node_id sample_identity)
      = Some (ed_verifying_key sample_ed25519 (id_signing_key sample_identity))"
    by (simp add: sample_setting_def del: sample_identity_simps)
  from enrolment_agreement [OF sample_ed25519_ok sample_setting_ok run this sample_node_keys(1)]
  obtain i where "RegistrationSigned i (from_secs 30) c \<in> set us" "id_node_id i = ''mesh-a''" by auto
  with run show ?thesis by blast
qed

end
