(* ===== verification/Firewall.thy ===== *)
theory Firewall
  imports Std_Net Lease_Store
begin

text \<open>
  \<open>src/firewall.rs\<close>: the userspace model of stateful reply tracking.  An outbound flow
  installs its reverse as an allowed reply until a deadline; an inbound flow is allowed when
  it is exactly a tracked reply.  The lemmas characterise every inbound decision by the
  history of outbound flows.
\<close>

datatype transport_protocol = Tcp | Udp

fun show_protocol :: "transport_protocol \<Rightarrow> string" where
  "show_protocol Tcp = ''TCP''"
| "show_protocol Udp = ''UDP''"

record endpoint =
  ep_address :: ipv4_addr
  ep_port :: u16

definition new_endpoint :: "ipv4_addr \<Rightarrow> u16 \<Rightarrow> endpoint" where
  "new_endpoint address port = \<lparr>ep_address = address, ep_port = port\<rparr>"

definition show_endpoint :: "endpoint \<Rightarrow> string" where
  "show_endpoint e = show_ipv4 (ep_address e) @ CHR '':'' # decimal (unat (ep_port e))"

record flow_key =
  fl_protocol :: transport_protocol
  fl_source :: endpoint
  fl_destination :: endpoint

definition new_flow_key :: "transport_protocol \<Rightarrow> endpoint \<Rightarrow> endpoint \<Rightarrow> flow_key" where
  "new_flow_key protocol source destination =
     \<lparr>fl_protocol = protocol, fl_source = source, fl_destination = destination\<rparr>"

definition reverse_flow :: "flow_key \<Rightarrow> flow_key" where
  "reverse_flow f =
     \<lparr>fl_protocol = fl_protocol f, fl_source = fl_destination f, fl_destination = fl_source f\<rparr>"

definition show_flow :: "flow_key \<Rightarrow> string" where
  "show_flow f = show_protocol (fl_protocol f) @ '' '' @ show_endpoint (fl_source f)
     @ '' -> '' @ show_endpoint (fl_destination f)"

record firewall =
  flow_timeout :: duration
  allowed_replies :: "(flow_key, instant) fmap"

definition new_firewall :: "duration \<Rightarrow> firewall outcome" where
  "new_firewall timeout =
     (if timeout = 0 then Panics ''flow timeout must be nonzero''
      else Returns \<lparr>flow_timeout = timeout, allowed_replies = fmempty\<rparr>)"

definition remove_expired_flows :: "instant \<Rightarrow> firewall \<Rightarrow> firewall" where
  "remove_expired_flows now fw =
     fw\<lparr>allowed_replies := retain (\<lambda>_ expires_at. now < expires_at) (allowed_replies fw)\<rparr>"

definition observe_outbound :: "flow_key \<Rightarrow> instant \<Rightarrow> firewall \<Rightarrow> firewall outcome" where
  "observe_outbound flow now fw =
     (let fw = remove_expired_flows now fw in
      out_bind (expect ''flow expiration is outside Instant's range''
                  (checked_add_instant now (flow_timeout fw)))
        (\<lambda>expires_at. Returns
           (fw\<lparr>allowed_replies := fmupd (reverse_flow flow) expires_at (allowed_replies fw)\<rparr>)))"

definition allow_inbound :: "flow_key \<Rightarrow> instant \<Rightarrow> firewall \<Rightarrow> firewall \<times> bool" where
  "allow_inbound flow now fw =
     (let fw = remove_expired_flows now fw
      in (fw, fmlookup (allowed_replies fw) flow \<noteq> None))"

definition tracked_reply_flows :: "firewall \<Rightarrow> nat" where
  "tracked_reply_flows fw = fcard (fmdom (allowed_replies fw))"

section \<open>The reply table as a lease store\<close>

definition replies_get :: "firewall \<Rightarrow> flow_key \<Rightarrow> (unit \<times> instant) option" where
  "replies_get fw k = map_option (\<lambda>e. ((), e)) (fmlookup (allowed_replies fw) k)"

definition replies_put :: "flow_key \<Rightarrow> unit \<Rightarrow> instant \<Rightarrow> firewall \<Rightarrow> firewall" where
  "replies_put k _ e fw = fw\<lparr>allowed_replies := fmupd k e (allowed_replies fw)\<rparr>"

definition any_firewall :: "firewall \<Rightarrow> bool" where "any_firewall fw = True"

interpretation replies: lease_store replies_get replies_put remove_expired_flows any_firewall
  by unfold_locales
    (auto simp: replies_get_def replies_put_def remove_expired_flows_def any_firewall_def
      split: option.split)

lemma reverse_reverse [simp]: "reverse_flow (reverse_flow f) = f"
  by (simp add: reverse_flow_def)

lemma reverse_flow_eq_iff: "reverse_flow f = g \<longleftrightarrow> f = reverse_flow g"
  by (metis reverse_reverse)

lemma flow_timeout_remove [simp]: "flow_timeout (remove_expired_flows now fw) = flow_timeout fw"
  by (simp add: remove_expired_flows_def)

lemma observe_outbound_eq_put:
  "observe_outbound f now fw = Returns fw' \<longleftrightarrow>
     now + flow_timeout fw < instant_end \<and>
     fw' = replies_put (reverse_flow f) () (now + flow_timeout fw) (remove_expired_flows now fw)"
  by (auto simp: observe_outbound_def Let_def replies_put_def)

lemma allow_inbound_iff_get:
  "snd (allow_inbound f now fw) \<longleftrightarrow> replies_get (remove_expired_flows now fw) f \<noteq> None"
  by (auto simp: allow_inbound_def Let_def replies_get_def)

section \<open>Traffic histories\<close>

datatype traffic = Outbound flow_key instant | Inbound flow_key instant

fun traffic_time :: "traffic \<Rightarrow> instant" where
  "traffic_time (Outbound f t) = t"
| "traffic_time (Inbound f t) = t"

fun firewall_step :: "firewall \<Rightarrow> traffic \<Rightarrow> firewall outcome" where
  "firewall_step fw (Outbound f t) = observe_outbound f t fw"
| "firewall_step fw (Inbound f t) = Returns (fst (allow_inbound f t fw))"

fun firewall_run :: "firewall \<Rightarrow> traffic list \<Rightarrow> firewall outcome" where
  "firewall_run fw [] = Returns fw"
| "firewall_run fw (e # es) = out_bind (firewall_step fw e) (\<lambda>fw. firewall_run fw es)"

text \<open>The history as operations on the reply table of a firewall with a given timeout.\<close>

fun reply_op :: "duration \<Rightarrow> traffic \<Rightarrow> (flow_key, unit) lease_op" where
  "reply_op d (Outbound f t) =
     Insert \<lparr>ins_time = t, ins_key = reverse_flow f, ins_val = (), ins_until = t + d\<rparr>"
| "reply_op d (Inbound f t) = Sweep t"

lemma op_time_reply_op [simp]: "op_time (reply_op d e) = traffic_time e"
  by (cases e) simp_all

lemma insertions_reply_ops:
  "i \<in> set (insertions (map (reply_op d) es)) \<longleftrightarrow> (\<exists>f t. Outbound f t \<in> set es \<and>
     i = \<lparr>ins_time = t, ins_key = reverse_flow f, ins_val = (), ins_until = t + d\<rparr>)"
proof -
  have "Insert i = reply_op d e \<longleftrightarrow> (\<exists>f t. e = Outbound f t \<and>
     i = \<lparr>ins_time = t, ins_key = reverse_flow f, ins_val = (), ins_until = t + d\<rparr>)" for e
    by (cases e) auto
  then show ?thesis by (auto simp: set_insertions image_iff)
qed

lemma any_firewall_True [simp]: "any_firewall fw"
  by (simp add: any_firewall_def)

lemma firewall_step_timeout: "firewall_step fw e = Returns fw' \<Longrightarrow> flow_timeout fw' = flow_timeout fw"
  by (cases e) (auto simp: observe_outbound_eq_put allow_inbound_def Let_def replies_put_def)

lemma firewall_run_ops:
  "firewall_run fw es = Returns fw' \<Longrightarrow>
     fw' = replies.run_ops (map (reply_op (flow_timeout fw)) es) fw"
proof (induction es arbitrary: fw)
  case Nil
  then show ?case by simp
next
  case (Cons e es)
  then obtain fw1 where step: "firewall_step fw e = Returns fw1"
    and run: "firewall_run fw1 es = Returns fw'" by auto
  from Cons.IH [OF run] firewall_step_timeout [OF step] step show ?case
    by (cases e) (auto simp: observe_outbound_eq_put replies.insert_at_def allow_inbound_def Let_def)
qed

text \<open>Chronological traffic within the clock's range never panics.\<close>

lemma firewall_run_total:
  "\<forall>e \<in> set es. traffic_time e + flow_timeout fw < instant_end \<Longrightarrow>
     \<exists>fw'. firewall_run fw es = Returns fw' \<and> flow_timeout fw' = flow_timeout fw"
proof (induction es arbitrary: fw)
  case Nil
  then show ?case by simp
next
  case (Cons e es)
  obtain fw1 where step: "firewall_step fw e = Returns fw1"
    using Cons.prems by (cases e) (auto simp: observe_outbound_eq_put)
  with Cons.IH [of fw1] Cons.prems firewall_step_timeout [OF step] show ?case by auto
qed

section \<open>Properties\<close>

text \<open>
  C29.  The firewall allows an inbound flow exactly while some outbound flow whose reverse it is
  was seen less than the flow timeout ago, for every chronological history of traffic.
\<close>

theorem inbound_iff_live_outbound:
  assumes "new_firewall timeout = Returns fw0" and "firewall_run fw0 es = Returns fw"
    and "sorted (map traffic_time es @ [now])"
  shows "snd (allow_inbound f now fw) \<longleftrightarrow>
     (\<exists>g t. Outbound g t \<in> set es \<and> f = reverse_flow g \<and> now < t + timeout)"
proof -
  have fw0: "flow_timeout fw0 = timeout" "\<And>k t. replies_get (remove_expired_flows t fw0) k = None"
    using assms(1) by (auto simp: new_firewall_def replies_get_def remove_expired_flows_def split: if_splits)
  let ?ops = "map (reply_op timeout) es"
  have fw: "fw = replies.run_ops ?ops fw0" using firewall_run_ops [OF assms(2)] fw0 by simp
  have "sorted (map op_time ?ops @ [now])" using assms(3) by (simp add: comp_def)
  moreover have "\<forall>i \<in> set (insertions ?ops). ins_until i = ins_time i + timeout"
    by (auto simp: insertions_reply_ops)
  ultimately have "replies_get (remove_expired_flows now fw) f \<noteq> None \<longleftrightarrow>
      (\<exists>i \<in> set (insertions ?ops). ins_key i = f \<and> now < ins_until i)"
    unfolding fw by (intro replies.present_iff_live [where d = timeout]) (simp_all add: fw0)
  then show ?thesis unfolding allow_inbound_iff_get by (force simp: insertions_reply_ops)
qed

definition sample_flow :: flow_key where
  "sample_flow = new_flow_key Udp (new_endpoint (Ipv4 10 10 0 2) 50000) (new_endpoint (Ipv4 192 0 2 20) 8000)"

theorem inbound_iff_live_outbound_witness:
  "\<exists>fw0 fw. new_firewall 30 = Returns fw0 \<and> firewall_run fw0 [Outbound sample_flow 5] = Returns fw
     \<and> snd (allow_inbound (reverse_flow sample_flow) 34 fw) \<and> \<not> snd (allow_inbound (reverse_flow sample_flow) 35 fw)"
proof -
  let ?fw0 = "\<lparr>flow_timeout = 30, allowed_replies = fmempty\<rparr>"
  have new: "new_firewall 30 = Returns ?fw0" by (simp add: new_firewall_def)
  obtain fw where run: "firewall_run ?fw0 [Outbound sample_flow 5] = Returns fw"
    using firewall_run_total [of "[Outbound sample_flow 5]" ?fw0] by (auto simp: instant_end_def nanos_per_sec_def)
  from inbound_iff_live_outbound [OF new run, of 34 "reverse_flow sample_flow"]
    inbound_iff_live_outbound [OF new run, of 35 "reverse_flow sample_flow"] new run
  show ?thesis by auto
qed

end
