(* ===== verification/Tun.thy ===== *)
theory Tun
  imports Sockets
begin

text \<open>
  \<open>src/tun.rs\<close>: validation of IPv4 packets, the attachment request for a TUN interface and
  the two workers that move one packet in each direction.  Reads, receives and failures of the
  operating system are inputs.  The lemmas give the exact set of accepted packets, what the
  outbound worker skips and sends, and that the peer's inbound worker accepts what was sent.
\<close>

definition MAX_UDP_PAYLOAD_BYTES :: nat where "MAX_UDP_PAYLOAD_BYTES = 65507"
definition IFF_TUN :: u16 where "IFF_TUN = 0x0001"
definition IFF_NO_PI :: u16 where "IFF_NO_PI = 0x1000"
definition IFNAMSIZ :: nat where "IFNAMSIZ = 16"

record ipv4_summary =
  ip_source :: ipv4_addr
  ip_destination :: ipv4_addr
  ip_protocol :: u8
  ip_total_length :: nat

definition require_transportable_packet :: "bytes \<Rightarrow> unit result" where
  "require_transportable_packet packet =
     (if MAX_UDP_PAYLOAD_BYTES < length packet
      then Err (''packet exceeds UDP'' @ CHR 0x27 # ''s '' @ decimal MAX_UDP_PAYLOAD_BYTES
                @ ''-byte payload limit'')
      else Ok ())"

definition u16_from_be_bytes :: "u8 \<Rightarrow> u8 \<Rightarrow> u16" where
  "u16_from_be_bytes a b = push_bit 8 (ucast a) OR ucast b"

definition parse_ipv4 :: "bytes \<Rightarrow> ipv4_summary result" where
  "parse_ipv4 packet =
     (if length packet < 20 then Err ''packet is shorter than the minimum 20-byte IPv4 header''
      else if drop_bit 4 (packet ! 0) \<noteq> 4 then Err ''packet is not IPv4''
      else
        let header_length = unat (packet ! 0 AND 0x0F) * 4 in
        if header_length < 20 \<or> length packet < header_length then Err ''IPv4 header length is invalid''
        else
          let total_length = unat (u16_from_be_bytes (packet ! 2) (packet ! 3)) in
          if total_length < header_length \<or> total_length \<noteq> length packet
          then Err (''IPv4 total length says '' @ decimal total_length @ '' bytes, but TUN supplied ''
                    @ decimal (length packet))
          else Ok \<lparr>ip_source = Ipv4 (packet ! 12) (packet ! 13) (packet ! 14) (packet ! 15),
                   ip_destination = Ipv4 (packet ! 16) (packet ! 17) (packet ! 18) (packet ! 19),
                   ip_protocol = packet ! 9, ip_total_length = total_length\<rparr>)"

text \<open>
  The request handed to \<open>ioctl\<close>: the name in a zeroed field of \<open>IFNAMSIZ\<close> bytes, and the
  flags.  What opening the device and the call report is an input.
\<close>

definition interface_request :: "string \<Rightarrow> bytes \<times> u16" where
  "interface_request name =
     (take IFNAMSIZ (as_bytes name) @ replicate (IFNAMSIZ - length name) 0, IFF_TUN OR IFF_NO_PI)"

definition open_tun :: "string option \<Rightarrow> (bytes \<times> u16 \<Rightarrow> string option) \<Rightarrow> string \<Rightarrow> unit result" where
  "open_tun open_error ioctl_error name =
     (if name = [] \<or> IFNAMSIZ \<le> length name \<or> \<not> ascii_text name
      then Err (''interface name must contain 1-'' @ decimal (IFNAMSIZ - 1) @ '' ASCII bytes'')
      else case open_error of
        Some e \<Rightarrow> Err e
      | None \<Rightarrow> (case ioctl_error (interface_request name) of Some e \<Rightarrow> Err e | None \<Rightarrow> Ok ()))"

section \<open>The workers\<close>

text \<open>
  The outbound loop.  The buffer is reused between reads; of its earlier contents only the
  first byte can be looked at again, when a read returns no bytes, so that byte is the loop's
  state.  The result \<open>None\<close> means that the loop still waits for a packet.
\<close>

fun outbound_loop :: "u8 \<Rightarrow> (string + bytes) list \<Rightarrow> (bytes \<times> ipv4_summary) outcome option" where
  "outbound_loop stale [] = None"
| "outbound_loop stale (r # rs) =
     (case r of
        Inl e \<Rightarrow> Some (Panics (''failed to read packet from TUN interface: '' @ e))
      | Inr data \<Rightarrow>
          let packet = recv_into (MAX_UDP_PAYLOAD_BYTES + 1) data;
              first = (case packet of [] \<Rightarrow> stale | b # _ \<Rightarrow> b)
          in case require_transportable_packet packet of
               Inl e \<Rightarrow> Some (Panics (''cannot transport TUN packet: '' @ e))
             | Inr _ \<Rightarrow>
                 (case parse_ipv4 packet of
                    Inr summary \<Rightarrow> Some (Returns (packet, summary))
                  | Inl e \<Rightarrow>
                      if drop_bit 4 first \<noteq> 4 then outbound_loop first rs
                      else Some (Panics (''invalid outbound IPv4 packet: '' @ e))))"

definition outbound_worker ::
  "(string + bytes) list \<Rightarrow> string option \<Rightarrow> (bytes \<times> ipv4_summary) outcome option" where
  "outbound_worker reads send_error =
     (case outbound_loop 0 reads of
        None \<Rightarrow> None
      | Some r \<Rightarrow> Some (out_bind r (\<lambda>(packet, summary).
          out_bind (expect_sent ''failed to send TUN packet over UDP'' send_error) (\<lambda>_.
          Returns (packet, summary)))))"

definition inbound_worker :: "string + bytes \<Rightarrow> string option \<Rightarrow> (bytes \<times> ipv4_summary) outcome" where
  "inbound_worker received write_error =
     out_bind (expect_ok ''failed to receive tunneled UDP payload'' received) (\<lambda>data.
     let packet = recv_into (MAX_UDP_PAYLOAD_BYTES + 1) data in
     out_bind (or_panic (\<lambda>e. ''cannot inject tunneled packet: '' @ e) (require_transportable_packet packet))
       (\<lambda>_.
     out_bind (or_panic (\<lambda>e. ''invalid inbound IPv4 packet: '' @ e) (parse_ipv4 packet)) (\<lambda>summary.
     out_bind (expect_sent ''failed to write packet into TUN interface'' write_error) (\<lambda>_.
     Returns (packet, summary)))))"

text \<open>
  \<open>run_one_exchange\<close>: set-up, then the two workers side by side, joined outbound first.  The
  result holds the packet sent over UDP, the packet written to the interface and how the
  process stands.
\<close>

record tun_env =
  te_open_error :: "string option"
  te_ioctl_error :: "bytes \<times> u16 \<Rightarrow> string option"
  te_bind_error :: "string option"
  te_connect_error :: "string option"
  te_clone_tun_error :: "string option"
  te_clone_socket_error :: "string option"
  te_reads :: "(string + bytes) list"
  te_send_error :: "string option"
  te_received :: "(string + bytes) option" \<comment> \<open>\<open>None\<close> while nothing has arrived\<close>
  te_write_error :: "string option"

definition moved :: "(bytes \<times> ipv4_summary) outcome option \<Rightarrow> bytes option" where
  "moved r = (case r of Some (Returns (packet, _)) \<Rightarrow> Some packet | _ \<Rightarrow> None)"

definition run_one_exchange :: "tun_env \<Rightarrow> string \<Rightarrow> bytes option \<times> bytes option \<times> run_status" where
  "run_one_exchange te tun_name =
     (case out_bind (or_panic (\<lambda>e. ''failed to attach to TUN interface '' @ CHR 0x27 # tun_name @ CHR 0x27 # '': '' @ e)
                       (open_tun (te_open_error te) (te_ioctl_error te) tun_name)) (\<lambda>_.
           out_bind (expect_sent ''failed to bind TUN transport UDP socket'' (te_bind_error te)) (\<lambda>_.
           out_bind (expect_sent ''failed to select TUN transport peer'' (te_connect_error te)) (\<lambda>_.
           out_bind (expect_sent ''failed to clone TUN descriptor'' (te_clone_tun_error te)) (\<lambda>_.
           expect_sent ''failed to clone UDP transport socket'' (te_clone_socket_error te))))) of
        Panics m \<Rightarrow> (None, None, Panicked m)
      | Returns _ \<Rightarrow>
          let outbound = outbound_worker (te_reads te) (te_send_error te);
              inbound = (case te_received te of None \<Rightarrow> None
                         | Some received \<Rightarrow> Some (inbound_worker received (te_write_error te)))
          in (moved outbound, moved inbound,
              case outbound of
                None \<Rightarrow> Blocked
              | Some (Panics _) \<Rightarrow> Panicked ''TUN-to-UDP worker panicked''
              | Some (Returns _) \<Rightarrow>
                  (case inbound of
                     None \<Rightarrow> Blocked
                   | Some (Panics _) \<Rightarrow> Panicked ''UDP-to-TUN worker panicked''
                   | Some (Returns _) \<Rightarrow> Finished)))"

section \<open>Accepted packets\<close>

definition well_formed_ipv4 :: "bytes \<Rightarrow> bool" where
  "well_formed_ipv4 p \<longleftrightarrow> 20 \<le> length p \<and> drop_bit 4 (p ! 0) = 4
     \<and> 5 \<le> unat (p ! 0 AND 0x0F) \<and> unat (p ! 0 AND 0x0F) * 4 \<le> length p
     \<and> unat (u16_from_be_bytes (p ! 2) (p ! 3)) = length p"

lemma require_transportable_Ok [simp]:
  "require_transportable_packet p = Ok u \<longleftrightarrow> length p \<le> MAX_UDP_PAYLOAD_BYTES"
  by (simp add: require_transportable_packet_def not_less)

lemma parse_ipv4_Ok:
  "parse_ipv4 p = Ok s \<longleftrightarrow> well_formed_ipv4 p
     \<and> s = \<lparr>ip_source = Ipv4 (p ! 12) (p ! 13) (p ! 14) (p ! 15),
            ip_destination = Ipv4 (p ! 16) (p ! 17) (p ! 18) (p ! 19),
            ip_protocol = p ! 9, ip_total_length = length p\<rparr>"
  by (auto simp: parse_ipv4_def well_formed_ipv4_def Let_def)

lemma parse_ipv4_Err: "(\<exists>e. parse_ipv4 p = Err e) \<longleftrightarrow> \<not> well_formed_ipv4 p"
  by (cases "parse_ipv4 p") (auto simp: parse_ipv4_Ok, auto simp: parse_ipv4_def well_formed_ipv4_def Let_def split: if_splits)

lemma well_formed_first: "well_formed_ipv4 p \<Longrightarrow> p \<noteq> [] \<and> drop_bit 4 (hd p) = 4"
  by (cases p) (auto simp: well_formed_ipv4_def)

section \<open>The outbound loop\<close>

text \<open>A read that is skipped: no bytes, or a first nibble other than 4.\<close>

definition skipped :: "string + bytes \<Rightarrow> bool" where
  "skipped r \<longleftrightarrow> (case r of Inl _ \<Rightarrow> False
     | Inr data \<Rightarrow> length data \<le> MAX_UDP_PAYLOAD_BYTES \<and> (data = [] \<or> drop_bit 4 (hd data) \<noteq> 4))"

lemma outbound_loop_skip:
  assumes "skipped r" and "drop_bit 4 stale \<noteq> 4"
  shows "\<exists>stale'. drop_bit 4 stale' \<noteq> 4 \<and> outbound_loop stale (r # rs) = outbound_loop stale' rs"
proof (cases r)
  case (Inr data)
  with assms(1) have len: "length data \<le> MAX_UDP_PAYLOAD_BYTES"
    and first: "data = [] \<or> drop_bit 4 (hd data) \<noteq> 4" by (simp_all add: skipped_def)
  then have "\<not> well_formed_ipv4 data" using well_formed_first by blast
  then obtain e where "parse_ipv4 data = Err e" using parse_ipv4_Err by blast
  moreover have "drop_bit 4 (case data of [] \<Rightarrow> stale | b # _ \<Rightarrow> b) \<noteq> 4"
    using first assms(2) by (cases data) auto
  ultimately show ?thesis using Inr len
    by (intro exI [of _ "case data of [] \<Rightarrow> stale | b # _ \<Rightarrow> b"])
      (simp add: Let_def require_transportable_packet_def)
qed (use assms in \<open>simp add: skipped_def\<close>)

lemma outbound_loop_skips:
  "list_all skipped xs \<Longrightarrow> drop_bit 4 stale \<noteq> 4 \<Longrightarrow>
     \<exists>stale'. drop_bit 4 stale' \<noteq> 4 \<and> outbound_loop stale (xs @ rs) = outbound_loop stale' rs"
proof (induction xs arbitrary: stale)
  case (Cons x xs)
  from outbound_loop_skip [of x stale "xs @ rs"] Cons.prems obtain st where
    "drop_bit 4 st \<noteq> 4" "outbound_loop stale ((x # xs) @ rs) = outbound_loop st (xs @ rs)" by auto
  with Cons.IH [of st] Cons.prems show ?case by auto
qed auto

lemma outbound_loop_stop:
  assumes "\<not> skipped r"
  shows "outbound_loop stale (r # rs) =
    Some (case r of
       Inl e \<Rightarrow> Panics (''failed to read packet from TUN interface: '' @ e)
     | Inr data \<Rightarrow>
         if MAX_UDP_PAYLOAD_BYTES < length data
         then Panics (''cannot transport TUN packet: packet exceeds UDP'' @ CHR 0x27 # ''s ''
                @ decimal MAX_UDP_PAYLOAD_BYTES @ ''-byte payload limit'')
         else case parse_ipv4 data of
           Inr s \<Rightarrow> Returns (data, s)
         | Inl e \<Rightarrow> Panics (''invalid outbound IPv4 packet: '' @ e))"
proof (cases r)
  case (Inr data)
  show ?thesis
  proof (cases "length data \<le> MAX_UDP_PAYLOAD_BYTES")
    case True
    with assms Inr obtain b bs where "data = b # bs" "drop_bit 4 b = 4"
      by (cases data) (auto simp: skipped_def)
    with True Inr show ?thesis
      by (simp add: Let_def require_transportable_packet_def split: sum.split)
  next
    case False
    with Inr show ?thesis by (simp add: Let_def require_transportable_packet_def)
  qed
qed simp

lemma outbound_loop_Returns:
  assumes "drop_bit 4 stale \<noteq> 4"
  shows "outbound_loop stale rs = Some (Returns (p, s)) \<longleftrightarrow>
     (\<exists>xs ys. rs = xs @ Inr p # ys \<and> list_all skipped xs \<and> length p \<le> MAX_UDP_PAYLOAD_BYTES
        \<and> parse_ipv4 p = Ok s)"
proof
  assume ret: "outbound_loop stale rs = Some (Returns (p, s))"
  define xs where "xs = takeWhile skipped rs"
  have all: "list_all skipped xs" by (auto simp: xs_def list_all_iff dest: set_takeWhileD)
  obtain st where "drop_bit 4 st \<noteq> 4" and run: "outbound_loop stale rs = outbound_loop st (dropWhile skipped rs)"
    using outbound_loop_skips [OF all assms, of "dropWhile skipped rs"] by (auto simp: xs_def)
  with ret obtain r ys where rest: "dropWhile skipped rs = r # ys"
    by (cases "dropWhile skipped rs") auto
  then have "\<not> skipped r" by (metis dropWhile_eq_Cons_conv)
  with ret run rest have "r = Inr p \<and> length p \<le> MAX_UDP_PAYLOAD_BYTES \<and> parse_ipv4 p = Ok s"
    by (auto simp: outbound_loop_stop simp del: outbound_loop.simps split: sum.splits if_splits)
  moreover have "rs = xs @ r # ys" using rest by (metis takeWhile_dropWhile_id xs_def)
  ultimately show "\<exists>xs ys. rs = xs @ Inr p # ys \<and> list_all skipped xs \<and> length p \<le> MAX_UDP_PAYLOAD_BYTES
        \<and> parse_ipv4 p = Ok s" using all by auto
next
  assume "\<exists>xs ys. rs = xs @ Inr p # ys \<and> list_all skipped xs \<and> length p \<le> MAX_UDP_PAYLOAD_BYTES
        \<and> parse_ipv4 p = Ok s"
  then obtain xs ys where rs: "rs = xs @ Inr p # ys" and all: "list_all skipped xs"
    and ok: "length p \<le> MAX_UDP_PAYLOAD_BYTES" "parse_ipv4 p = Ok s" by blast
  obtain st where run: "outbound_loop stale rs = outbound_loop st (Inr p # ys)"
    using outbound_loop_skips [OF all assms, of "Inr p # ys"] rs by auto
  have "\<not> skipped (Inr p)" using ok well_formed_first [of p] by (auto simp: skipped_def parse_ipv4_Ok)
  then show "outbound_loop stale rs = Some (Returns (p, s))" using run ok by (simp add: outbound_loop_stop del: outbound_loop.simps)
qed

text \<open>A packet that was sent is accepted by a peer's inbound worker, with the same summary.\<close>

lemma inbound_accepts:
  "inbound_worker (Inr p) None = Returns (p', s) \<longleftrightarrow>
     p' = p \<and> length p \<le> MAX_UDP_PAYLOAD_BYTES \<and> parse_ipv4 p = Ok s"
proof (cases "length p \<le> MAX_UDP_PAYLOAD_BYTES")
  case True
  then show ?thesis by (auto simp: inbound_worker_def Let_def)
next
  case False
  then show ?thesis by (auto simp: inbound_worker_def Let_def require_transportable_packet_def)
qed

lemma outbound_worker_Returns:
  "outbound_worker reads send_error = Some (Returns (p, s)) \<longleftrightarrow>
     outbound_loop 0 reads = Some (Returns (p, s)) \<and> send_error = None"
  by (cases "outbound_loop 0 reads"; cases send_error)
    (auto simp: outbound_worker_def split: outcome.splits)

lemma interface_request_name:
  "open_tun oe ie name = Ok u \<Longrightarrow>
     interface_request name = (as_bytes name @ replicate (IFNAMSIZ - length name) 0, IFF_TUN OR IFF_NO_PI)
     \<and> length (fst (interface_request name)) = IFNAMSIZ \<and> last (fst (interface_request name)) = 0"
  by (auto simp: open_tun_def interface_request_def split: if_splits option.splits)

section \<open>Bytes of the header\<close>

lemma u16_be: "unat (u16_from_be_bytes a b) = 256 * unat a + unat b"
proof -
  have "push_bit 8 (ucast a :: u16) AND ucast b = 0"
    by (rule bit_word_eqI) (auto simp: bit_simps dest!: bit_imp_le_length)
  then have "u16_from_be_bytes a b = ucast a * 256 + ucast b"
    unfolding u16_from_be_bytes_def by (simp add: disjunctive_add_eq_or [symmetric] push_bit_eq_mult)
  moreover have a: "unat a < 256" "unat b < 256" using unsigned_less [of a] unsigned_less [of b] by simp_all
  moreover have "unat (ucast a :: u16) = unat a" "unat (ucast b :: u16) = unat b"
    by (simp_all add: unsigned_ucast_eq take_bit_nat_eq_self_iff a less_trans [OF a(1)] less_trans [OF a(2)])
  ultimately show ?thesis by (simp add: unat_word_ariths)
qed

lemma high_nibble: "drop_bit 4 (b :: u8) = 4 \<longleftrightarrow> unat b div 16 = 4"
proof -
  have "unat (drop_bit 4 b) = unat b div 16" by (simp add: drop_bit_eq_div unat_div_distrib)
  moreover have "unat (4 :: u8) = 4" by simp
  ultimately show ?thesis by (metis word_unat_eq_iff)
qed

lemma low_nibble: "unat ((b :: u8) AND 0x0F) = unat b mod 16"
proof -
  have "(0x0F :: u8) = mask 4" by (simp add: numeral_eq_Suc mask_Suc_exp)
  then have "b AND 0x0F = take_bit 4 b" by (simp only: take_bit_eq_mask)
  then show ?thesis by (simp only: unsigned_take_bit_eq) (simp add: take_bit_eq_mod)
qed

section \<open>Properties\<close>

text \<open>
  A packet is accepted as IPv4 exactly when its first byte is 64 + n for a header of
  n = 5 to 15 words that fits the packet, and its total-length field is the number of bytes the
  interface supplied; the summary then holds the addresses and the protocol byte of the header.
\<close>

theorem ipv4_accepted_exactly:
  "parse_ipv4 p = Ok s \<longleftrightarrow>
     (\<exists>n. 5 \<le> n \<and> n < 16 \<and> 4 * n \<le> length p \<and> unat (p ! 0) = 64 + n
        \<and> 256 * unat (p ! 2) + unat (p ! 3) = length p)
     \<and> s = \<lparr>ip_source = Ipv4 (p ! 12) (p ! 13) (p ! 14) (p ! 15),
            ip_destination = Ipv4 (p ! 16) (p ! 17) (p ! 18) (p ! 19),
            ip_protocol = p ! 9, ip_total_length = length p\<rparr>"
proof -
  have "well_formed_ipv4 p \<longleftrightarrow> (\<exists>n. 5 \<le> n \<and> n < 16 \<and> 4 * n \<le> length p \<and> unat (p ! 0) = 64 + n
        \<and> 256 * unat (p ! 2) + unat (p ! 3) = length p)" (is "_ \<longleftrightarrow> (\<exists>n. ?header n)")
  proof
    assume ok: "well_formed_ipv4 p"
    have "unat (p ! 0) = 16 * (unat (p ! 0) div 16) + unat (p ! 0) mod 16" by simp
    with ok have "?header (unat (p ! 0) mod 16)"
      by (simp add: well_formed_ipv4_def high_nibble low_nibble u16_be)
    then show "\<exists>n. ?header n" ..
  next
    assume "\<exists>n. ?header n"
    then obtain n where n: "?header n" ..
    then have "(n + 4 * 16) mod 16 = n" by (simp only: mod_mult_self1 mod_less)
    then have "(64 + n) mod 16 = n" by (simp add: add.commute)
    with n show "well_formed_ipv4 p" by (simp add: well_formed_ipv4_def high_nibble low_nibble u16_be)
  qed
  then show ?thesis by (simp add: parse_ipv4_Ok)
qed

text \<open>
  C34.  The outbound worker sends exactly one packet, unchanged: the first read that is a
  transportable well-formed IPv4 packet, provided every earlier read was skipped (no bytes, or
  not IPv4 and small enough) and the send succeeded.  Anything else stops the worker.
\<close>

theorem outbound_sends_first_ipv4:
  "outbound_worker reads send_error = Some (Returns (p, s)) \<longleftrightarrow>
     send_error = None \<and> length p \<le> MAX_UDP_PAYLOAD_BYTES \<and> parse_ipv4 p = Ok s
     \<and> (\<exists>earlier later. reads = earlier @ Inr p # later \<and> list_all skipped earlier)"
  unfolding outbound_worker_Returns by (subst outbound_loop_Returns) auto

definition healthy_tun :: "(string + bytes) list \<Rightarrow> bytes option \<Rightarrow> tun_env" where
  "healthy_tun reads arrived = \<lparr>te_open_error = None, te_ioctl_error = (\<lambda>r. None), te_bind_error = None,
     te_connect_error = None, te_clone_tun_error = None, te_clone_socket_error = None, te_reads = reads,
     te_send_error = None, te_received = map_option Inr arrived, te_write_error = None\<rparr>"

lemma healthy_outbound:
  assumes "list_all skipped xs" and "parse_ipv4 p = Ok s" and "length p \<le> MAX_UDP_PAYLOAD_BYTES"
  shows "outbound_worker (xs @ Inr p # ys) None = Some (Returns (p, s))"
  unfolding outbound_worker_Returns by (subst outbound_loop_Returns) (use assms in auto)

lemma healthy_open:
  "name \<noteq> [] \<Longrightarrow> length name < IFNAMSIZ \<Longrightarrow> ascii_text name \<Longrightarrow> open_tun None (\<lambda>r. None) name = Ok ()"
  by (simp add: open_tun_def)

lemma one_direction_each:
  assumes "name \<noteq> []" and "length name < IFNAMSIZ" and "ascii_text name"
    and "list_all skipped xs" and "parse_ipv4 p = Ok s" and "length p \<le> MAX_UDP_PAYLOAD_BYTES"
    and "parse_ipv4 q = Ok t" and "length q \<le> MAX_UDP_PAYLOAD_BYTES"
  shows "run_one_exchange (healthy_tun (xs @ Inr p # ys) (Some q)) name = (Some p, Some q, Finished)"
proof -
  have "inbound_worker (Inr q) None = Returns (q, t)" using assms by (simp add: inbound_accepts)
  then show ?thesis
    using healthy_outbound [OF assms(4-6), of ys] healthy_open [OF assms(1-3)]
    by (simp add: run_one_exchange_def healthy_tun_def moved_def Let_def)
qed

text \<open>
  C33.  Two processes joined by the tunnel exchange one packet: if set-up succeeds on both ends,
  each end reads an IPv4 packet after frames that are skipped, and each end receives the datagram
  the other sent, then both finish, and each interface is handed the other's packet unchanged.
\<close>

theorem exchange_completes:
  assumes "name_a \<noteq> []" "length name_a < 16" "ascii_text name_a"
    and "name_b \<noteq> []" "length name_b < 16" "ascii_text name_b"
    and "list_all skipped xs" "parse_ipv4 p = Ok s" "length p \<le> 65507"
    and "list_all skipped zs" "parse_ipv4 q = Ok t" "length q \<le> 65507"
  shows "run_one_exchange (healthy_tun (xs @ Inr p # ys) (Some q)) name_a = (Some p, Some q, Finished)
     \<and> run_one_exchange (healthy_tun (zs @ Inr q # ws) (Some p)) name_b = (Some q, Some p, Finished)"
  using one_direction_each [of name_a xs p s q t ys] one_direction_each [of name_b zs q t p s ws] assms
  by (simp add: IFNAMSIZ_def MAX_UDP_PAYLOAD_BYTES_def)

definition sample_packet :: "u8 \<Rightarrow> bytes" where
  "sample_packet x = [0x45, 0, 0, 20, 0, 0, 0, 0, 64, 17, 0, 0, 10, 20, 0, x, 10, 30, 0, 2]"

lemma sample_packet_parses: "\<exists>s. parse_ipv4 (sample_packet x) = Ok s"
  by (simp add: parse_ipv4_Ok well_formed_ipv4_def high_nibble low_nibble u16_be sample_packet_def)

theorem exchange_completes_witness:
  "run_one_exchange (healthy_tun [Inr [0x60], Inr (sample_packet 1)] (Some (sample_packet 2))) ''mesh0''
     = (Some (sample_packet 1), Some (sample_packet 2), Finished)
   \<and> run_one_exchange (healthy_tun [Inr (sample_packet 2)] (Some (sample_packet 1))) ''mesh1''
     = (Some (sample_packet 2), Some (sample_packet 1), Finished)"
proof -
  obtain s t where parses: "parse_ipv4 (sample_packet 1) = Ok s" "parse_ipv4 (sample_packet 2) = Ok t"
    using sample_packet_parses by metis
  have skip: "list_all skipped [Inr [0x60]]"
    by (simp add: skipped_def high_nibble MAX_UDP_PAYLOAD_BYTES_def)
  have len: "length (sample_packet x) \<le> 65507" for x by (simp add: sample_packet_def)
  have names: "ascii_text ''mesh0''" "ascii_text ''mesh1''" by (simp_all add: ascii_text_def)
  from exchange_completes [OF _ _ names(1) _ _ names(2) skip parses(1) len _ parses(2) len, of "[]" "[]" "[]"]
  show ?thesis by simp
qed

end
