(* ===== verification/Relay.thy ===== *)
theory Relay
  imports Sockets
begin

text \<open>
  \<open>src/relay.rs\<close>: the one-session relay.  Its state learns the first client; every
  datagram is forwarded, bytes unchanged, to the opposite end of that one session, and the
  process forwards the four datagrams of one secure echo.
\<close>

definition relay_max_datagram_bytes :: nat where "relay_max_datagram_bytes = 2048"
definition datagrams_in_one_secure_echo :: nat where "datagrams_in_one_secure_echo = 4"

record relay_state =
  upstream :: socket_addr
  client :: "socket_addr option"

definition new_relay :: "socket_addr \<Rightarrow> relay_state" where
  "new_relay up = \<lparr>upstream = up, client = None\<rparr>"

definition destination_for :: "socket_addr \<Rightarrow> relay_state \<Rightarrow> relay_state \<times> socket_addr result" where
  "destination_for source st =
     (if source = upstream st then
        (st, ok_or ''upstream sent data before a client appeared'' (client st))
      else case client st of
        None \<Rightarrow> (st\<lparr>client := Some source\<rparr>, Ok (upstream st))
      | Some c \<Rightarrow>
          if source = c then (st, Ok (upstream st))
          else (st, Err (''one-session relay already serves '' @ show_socket_addr c
                         @ ''; rejected '' @ show_socket_addr source)))"

text \<open>One turn of the loop of \<open>run\<close>: the bytes and the endpoint handed to \<open>send_to\<close>.\<close>

definition relay_step :: "relay_state \<Rightarrow> net_step \<Rightarrow> (relay_state \<times> bytes \<times> socket_addr) outcome" where
  "relay_step st n =
     out_bind (expect_ok ''failed to receive relayed UDP datagram'' (ns_received n))
       (\<lambda>(payload, source).
     let received = recv_into (relay_max_datagram_bytes + 1) payload in
     if relay_max_datagram_bytes < length received
     then Panics (''relayed datagram exceeds '' @ decimal relay_max_datagram_bytes @ ''-byte limit'')
     else
       let (st, routed) = destination_for source st in
       out_bind (or_panic (\<lambda>e. ''cannot route relayed datagram: '' @ e) routed) (\<lambda>destination.
       out_bind (expect_sent ''failed to forward UDP datagram'' (ns_send_error n)) (\<lambda>_.
       Returns (st, received, destination))))"

text \<open>
  \<open>run\<close>, given the outcome of binding the socket, of parsing the upstream address (both
  done by the standard library) and the successive steps of the network.
\<close>

definition run_relay ::
  "string option \<Rightarrow> string + socket_addr \<Rightarrow> net_step list \<Rightarrow> (bytes \<times> socket_addr) list \<times> run_status" where
  "run_relay bind_error upstream_address steps =
     (case out_bind (expect_sent ''failed to bind UDP relay socket'' bind_error)
             (\<lambda>_. expect_ok ''relay upstream must be an IP address and port'' upstream_address) of
        Panics m \<Rightarrow> ([], Panicked m)
      | Returns up \<Rightarrow>
          (case serve relay_step (new_relay up) (take datagrams_in_one_secure_echo steps) of
             (_, sent, Some m) \<Rightarrow> (sent, Panicked m)
           | (_, sent, None) \<Rightarrow>
               (sent, if length sent = datagrams_in_one_secure_echo then Finished else Blocked)))"

section \<open>The session invariant\<close>

definition relay_inv :: "socket_addr \<Rightarrow> relay_state \<Rightarrow> bool" where
  "relay_inv up st \<longleftrightarrow> upstream st = up \<and> client st \<noteq> Some up"

text \<open>A forwarded datagram: the received bytes, from one end to the other, within the limit.\<close>

definition forwarded :: "socket_addr \<Rightarrow> net_step \<Rightarrow> bytes \<times> socket_addr \<Rightarrow> bool" where
  "forwarded up n out \<longleftrightarrow> (\<exists>payload source. ns_received n = Inr (payload, source)
     \<and> fst out = payload \<and> length payload \<le> relay_max_datagram_bytes
     \<and> (snd out = up \<longleftrightarrow> source \<noteq> up))"

lemma relay_step_Returns:
  "relay_step st n = Returns (st', out) \<longleftrightarrow>
     (\<exists>payload source destination. ns_received n = Inr (payload, source)
        \<and> length payload \<le> relay_max_datagram_bytes \<and> ns_send_error n = None
        \<and> destination_for source st = (st', Ok destination) \<and> out = (payload, destination))"
proof (cases "ns_received n")
  case (Inr r)
  obtain payload source where "r = (payload, source)" by (cases r)
  then show ?thesis
    by (auto simp: relay_step_def Inr Let_def not_less min_def split: prod.splits if_splits)
qed (simp add: relay_step_def)

lemma destination_for_inv:
  "relay_inv up st \<Longrightarrow> destination_for source st = (st', r) \<Longrightarrow> relay_inv up st'"
  by (auto simp: destination_for_def relay_inv_def split: if_splits option.splits)

lemma destination_for_Ok:
  "relay_inv up st \<Longrightarrow> destination_for source st = (st', Ok d) \<Longrightarrow> d = up \<longleftrightarrow> source \<noteq> up"
  by (auto simp: destination_for_def relay_inv_def split: if_splits option.splits)

interpretation relay: service relay_step "relay_inv up" "forwarded up" for up
proof
  fix st st' :: relay_state and n out
  assume inv: "relay_inv up st" and step: "relay_step st n = Returns (st', out)"
  then show "relay_inv up st'" by (auto simp: relay_step_Returns intro: destination_for_inv)
  show "forwarded up n out"
    using inv step by (auto simp: relay_step_Returns forwarded_def dest: destination_for_Ok)
qed

lemma relay_inv_new [simp]: "relay_inv up (new_relay up)"
  by (simp add: relay_inv_def new_relay_def)

text \<open>A learned client is never replaced.\<close>

lemma client_kept: "client st = Some c \<Longrightarrow> destination_for source st = (st', r) \<Longrightarrow> client st' = Some c"
  by (auto simp: destination_for_def split: if_splits)

lemma serve_client_kept:
  "client st = Some c \<Longrightarrow> serve relay_step st ns = (st', outs, p) \<Longrightarrow> client st' = Some c"
  by (induction ns arbitrary: st outs)
    (auto simp: relay_step_Returns split: outcome.splits prod.splits dest: client_kept)

text \<open>Each forwarded datagram connects the upstream with the client known afterwards.\<close>

definition session_pair ::
  "socket_addr \<Rightarrow> socket_addr \<Rightarrow> net_step \<Rightarrow> bytes \<times> socket_addr \<Rightarrow> bool" where
  "session_pair up c n out \<longleftrightarrow> (\<exists>payload source. ns_received n = Inr (payload, source)
     \<and> fst out = payload \<and> ((source = c \<and> snd out = up) \<or> (source = up \<and> snd out = c)))"

lemma step_session_pair:
  assumes "relay_inv up st" and "relay_step st n = Returns (st', out)"
  shows "\<exists>c. client st' = Some c \<and> session_pair up c n out"
  using assms
  by (auto simp: relay_step_Returns relay_inv_def session_pair_def destination_for_def
      split: if_splits option.splits)

lemma serve_session_pairs:
  assumes "relay_inv up st" and "serve relay_step st ns = (st', outs, p)" and "client st' = Some c"
  shows "list_all2 (session_pair up c) (take (length outs) ns) outs"
  using assms
proof (induction ns arbitrary: st outs)
  case (Cons n ns)
  show ?case
  proof (cases "relay_step st n")
    case (Returns r)
    obtain st1 out where r: "r = (st1, out)" by (cases r)
    from Cons.prems(2) Returns r obtain outs' where rest: "serve relay_step st1 ns = (st', outs', p)"
      and outs: "outs = out # outs'" by (auto split: prod.splits)
    from step_session_pair [OF Cons.prems(1)] Returns r obtain d where d: "client st1 = Some d"
      and pair: "session_pair up d n out" by blast
    have "d = c" using serve_client_kept [OF d rest] Cons.prems(3) by simp
    moreover have "relay_inv up st1" using relay.step_inv [OF Cons.prems(1)] Returns r by blast
    ultimately show ?thesis using Cons.IH [OF _ rest Cons.prems(3)] pair outs by simp
  qed (use Cons.prems in simp)
qed simp

section \<open>Properties\<close>

text \<open>
  C28.  The relay serves one session: all datagrams it forwards, bytes unchanged, go between the
  upstream and one single client, each to the opposite end of where it came from, however many
  other endpoints send to it.
\<close>

theorem relay_serves_one_session:
  assumes "serve relay_step (new_relay up) ns = (st, outs, p)" and "outs \<noteq> []"
  shows "\<exists>c. client st = Some c \<and> c \<noteq> up \<and> list_all2 (session_pair up c) (take (length outs) ns) outs"
proof -
  obtain n ns' where ns: "ns = n # ns'" using assms by (cases ns) auto
  obtain st1 out where step: "relay_step (new_relay up) n = Returns (st1, out)"
    using assms ns by (auto split: outcome.splits)
  then obtain outs' where rest: "serve relay_step st1 ns' = (st, outs', p)"
    using assms ns by (auto split: prod.splits)
  obtain c where "client st1 = Some c" using step_session_pair [OF relay_inv_new step] by blast
  from serve_client_kept [OF this rest] have c: "client st = Some c" .
  moreover have "c \<noteq> up" using relay.serve_inv [OF relay_inv_new assms(1)] c by (auto simp: relay_inv_def)
  ultimately show ?thesis using serve_session_pairs [OF relay_inv_new assms(1) c] by blast
qed

definition sample_up :: socket_addr where "sample_up = SocketV4 (Ipv4 10 0 0 1) 7000"
definition sample_peer :: socket_addr where "sample_peer = SocketV4 (Ipv4 10 0 0 2) 5000"

definition relayed :: "bytes \<Rightarrow> socket_addr \<Rightarrow> net_step" where
  "relayed payload source = \<lparr>ns_received = Inr (payload, source), ns_now = 0, ns_send_error = None\<rparr>"

theorem relay_serves_one_session_witness:
  "\<exists>st outs p c. serve relay_step (new_relay sample_up) [relayed [1] sample_peer, relayed [2] sample_up] = (st, outs, p)
     \<and> client st = Some c \<and> outs = [([1], sample_up), ([2], c)]"
proof -
  have run: "serve relay_step (new_relay sample_up) [relayed [1] sample_peer, relayed [2] sample_up]
      = (\<lparr>upstream = sample_up, client = Some sample_peer\<rparr>, [([1], sample_up), ([2], sample_peer)], None)"
    by (simp add: relay_step_def relayed_def new_relay_def destination_for_def sample_up_def sample_peer_def
        Let_def relay_max_datagram_bytes_def recv_into_def)
  from relay_serves_one_session [OF run] run show ?thesis by auto
qed

end
