(* ===== verification/Cli.thy ===== *)
theory Cli
  imports Firewall Tun Sockets Coordinator_Server Handshake Relay
begin

text \<open>
  \<open>src/main.rs\<close>: argument defaults and dispatch, the socket demonstrations, the latency
  benchmark with its percentiles and the firewall demonstration.  Latencies are printed through
  floating point, which is not modelled; the durations printed are.
\<close>

section \<open>Echo demonstrations\<close>

definition echo_buffer_bytes :: nat where "echo_buffer_bytes = 1024"
definition bench_buffer_bytes :: nat where "bench_buffer_bytes = 2048"

text \<open>One read of a TCP stream returns some bytes of it, at most the buffer.\<close>

definition tcp_server :: "string option \<Rightarrow> string option \<Rightarrow> string + bytes \<Rightarrow> string option \<Rightarrow> bytes outcome" where
  "tcp_server bind_error accept_error readable write_error =
     out_bind (expect_sent ''failed to bind TCP listener'' bind_error) (\<lambda>_.
     out_bind (expect_sent ''failed to accept connection'' accept_error) (\<lambda>_.
     out_bind (expect_ok ''failed to read from TCP stream'' readable) (\<lambda>data.
     let received = recv_into echo_buffer_bytes data in
     out_bind (expect_sent ''failed to echo TCP bytes'' write_error) (\<lambda>_. Returns received))))"

definition tcp_client :: "string option \<Rightarrow> string option \<Rightarrow> string + bytes \<Rightarrow> (bytes \<times> bytes) outcome" where
  "tcp_client connect_error write_error response =
     out_bind (expect_sent ''failed to connect to TCP server'' connect_error) (\<lambda>_.
     let message = as_bytes (''hello from tcp client'' @ [CHR 0x0A]) in
     out_bind (expect_sent ''failed to send TCP bytes'' write_error) (\<lambda>_.
     out_bind (expect_ok ''failed to read TCP response'' response) (\<lambda>bs. Returns (message, bs))))"

definition udp_server :: "string option \<Rightarrow> net_step \<Rightarrow> (bytes \<times> socket_addr) outcome" where
  "udp_server bind_error n =
     out_bind (expect_sent ''failed to bind UDP socket'' bind_error) (\<lambda>_.
     out_bind (expect_ok ''failed to receive UDP datagram'' (ns_received n)) (\<lambda>(payload, remote).
     let received = recv_into echo_buffer_bytes payload in
     out_bind (expect_sent ''failed to echo UDP datagram'' (ns_send_error n)) (\<lambda>_.
     Returns (received, remote))))"

definition udp_client :: "string option \<Rightarrow> string option \<Rightarrow> string + (bytes \<times> socket_addr) \<Rightarrow>
    (bytes \<times> bytes \<times> socket_addr) outcome" where
  "udp_client bind_error send_error response =
     out_bind (expect_sent ''failed to bind UDP socket'' bind_error) (\<lambda>_.
     let message = as_bytes (''hello from udp client'' @ [CHR 0x0A]) in
     out_bind (expect_sent ''failed to send UDP datagram'' send_error) (\<lambda>_.
     out_bind (expect_ok ''failed to receive UDP response'' response) (\<lambda>(payload, remote).
     Returns (message, recv_into echo_buffer_bytes payload, remote))))"

definition bench_step :: "unit \<Rightarrow> net_step \<Rightarrow> (unit \<times> bytes \<times> socket_addr) outcome" where
  "bench_step st n =
     out_bind (expect_ok ''failed to receive UDP benchmark datagram'' (ns_received n)) (\<lambda>(payload, remote).
     let received = recv_into bench_buffer_bytes payload in
     out_bind (expect_sent ''failed to echo UDP benchmark datagram'' (ns_send_error n)) (\<lambda>_.
     Returns (st, received, remote)))"

definition udp_bench_server :: "string option \<Rightarrow> net_step list \<Rightarrow> (bytes \<times> socket_addr) list \<times> run_status" where
  "udp_bench_server bind_error steps =
     (case bind_error of
        Some e \<Rightarrow> ([], Panicked (''failed to bind UDP benchmark socket: '' @ e))
      | None \<Rightarrow>
          (case serve bench_step () steps of
             (_, sent, Some m) \<Rightarrow> (sent, Panicked m)
           | (_, sent, None) \<Rightarrow> (sent, Blocked)))"

section \<open>Latencies\<close>

definition DEFAULT_RTT_SAMPLES :: nat where "DEFAULT_RTT_SAMPLES = 10000"
definition RTT_WARMUP_SAMPLES :: nat where "RTT_WARMUP_SAMPLES = 100"

definition saturating_mul :: "nat \<Rightarrow> nat \<Rightarrow> nat" where
  "saturating_mul a b = min (a * b) u64_max"

definition div_ceil :: "nat \<Rightarrow> nat \<Rightarrow> nat" where
  "div_ceil a b = (if a mod b = 0 then a div b else a div b + 1)"

definition percentile :: "duration list \<Rightarrow> nat \<Rightarrow> duration outcome" where
  "percentile sorted_samples p =
     (if sorted_samples = [] then Panics ''cannot select a percentile from no samples''
      else if \<not> p \<le> 100 then Panics ''percentile must be between 0 and 100''
      else let rank = div_ceil (saturating_mul (length sorted_samples) p) 100
           in Returns (sorted_samples ! (rank - 1)))"

text \<open>
  One round trip: failure of the send, what \<open>recv\<close> delivers, and the time measured.  The
  8-byte response buffer truncates longer datagrams.
\<close>

record round_trip =
  rt_send_error :: "string option"
  rt_received :: "string + bytes"
  rt_elapsed :: duration

text \<open>The loop over the sequence numbers; \<open>None\<close> while replies are missing.\<close>

fun rtt_loop :: "nat \<Rightarrow> nat \<Rightarrow> duration list \<Rightarrow> round_trip list \<Rightarrow> duration list outcome option" where
  "rtt_loop s 0 latencies trips = Some (Returns latencies)"
| "rtt_loop s (Suc k) latencies [] = None"
| "rtt_loop s (Suc k) latencies (t # trips) =
     (let request = to_be_bytes (of_nat s) in
      case out_bind (expect_sent ''failed to send UDP RTT request'' (rt_send_error t)) (\<lambda>_.
           out_bind (expect_ok ''failed to receive UDP RTT response within one second'' (rt_received t)) (\<lambda>payload.
           let response = recv_into 8 payload in
           if length response \<noteq> length request then Panics ''unexpected RTT response size''
           else if response \<noteq> request then Panics ''RTT response did not match its request''
           else Returns ())) of
        Panics m \<Rightarrow> Some (Panics m)
      | Returns _ \<Rightarrow>
          rtt_loop (Suc s) k (if RTT_WARMUP_SAMPLES \<le> s then latencies @ [rt_elapsed t] else latencies) trips)"

text \<open>
  \<open>Vec::with_capacity\<close> panics when the requested bytes exceed \<open>isize::MAX\<close>; a \<open>Duration\<close> takes
  16 bytes (64-bit target).
\<close>

definition duration_bytes :: nat where "duration_bytes = 16"
definition max_allocation_bytes :: nat where "max_allocation_bytes = 2 ^ 63 - 1"

text \<open>The result: minimum, median, 99th percentile and maximum.\<close>

definition udp_rtt_client ::
  "string option \<Rightarrow> string option \<Rightarrow> string option \<Rightarrow> nat \<Rightarrow> round_trip list \<Rightarrow>
     (duration \<times> duration \<times> duration \<times> duration) outcome option" where
  "udp_rtt_client bind_error connect_error timeout_error samples trips =
     (case out_bind (if 0 < samples then Returns () else Panics ''SAMPLES must be greater than zero'') (\<lambda>_.
           out_bind (expect_sent ''failed to bind UDP RTT socket'' bind_error) (\<lambda>_.
           out_bind (expect_sent ''failed to select UDP RTT peer'' connect_error) (\<lambda>_.
           out_bind (expect_sent ''failed to set UDP RTT receive timeout'' timeout_error) (\<lambda>_.
           out_bind (expect ''sample count is too large''
             (if RTT_WARMUP_SAMPLES + samples \<le> u64_max then Some (RTT_WARMUP_SAMPLES + samples) else None)) (\<lambda>total.
           if samples * duration_bytes \<le> max_allocation_bytes then Returns total
           else Panics ''capacity overflow''))))) of
        Panics m \<Rightarrow> Some (Panics m)
      | Returns total_samples \<Rightarrow>
          (case rtt_loop 0 total_samples [] trips of
             None \<Rightarrow> None
           | Some r \<Rightarrow> Some (out_bind r (\<lambda>latencies.
               let latencies = sort latencies in
               out_bind (percentile latencies 50) (\<lambda>p50.
               out_bind (percentile latencies 99) (\<lambda>p99.
               Returns (latencies ! 0, p50, p99, latencies ! (length latencies - 1))))))))"

section \<open>The firewall demonstration\<close>

definition verdict :: "bool \<Rightarrow> string" where
  "verdict allowed = (if allowed then ''ALLOW'' else ''DENY'')"

text \<open>The printed lines, in order.\<close>

definition firewall_demo :: "instant \<Rightarrow> string list outcome" where
  "firewall_demo now =
     (let timeout = from_secs 30;
          client = new_endpoint (Ipv4 10 10 0 2) 50000;
          server = new_endpoint (Ipv4 192 0 2 20) 8000;
          outbound = new_flow_key Udp client server;
          matching_reply = reverse_flow outbound;
          wrong_port_reply = new_flow_key Udp (new_endpoint (Ipv4 192 0 2 20) 8001) client;
          tcp_reply = new_flow_key Tcp server client
      in out_bind (new_firewall timeout) (\<lambda>fw.
         let (fw, d1) = allow_inbound matching_reply now fw in
         out_bind (observe_outbound outbound now fw) (\<lambda>fw.
         let tracked = tracked_reply_flows fw;
             (fw, d3) = allow_inbound matching_reply now fw;
             (fw, d4) = allow_inbound wrong_port_reply now fw;
             (fw, d5) = allow_inbound tcp_reply now fw in
         out_bind (expect ''overflow when adding duration to instant'' (checked_add_instant now timeout)) (\<lambda>later.
         let (fw, d6) = allow_inbound matching_reply later fw in
         Returns
           [''simplified stateful firewall demo'',
            ''flow timeout: '' @ decimal (as_secs timeout) @ '' seconds'', [],
            ''1. unsolicited inbound reply-shaped packet'',
            ''   flow: '' @ show_flow matching_reply,
            ''   decision: '' @ verdict d1 @ '' (no matching state exists)'', [],
            ''2. private client initiates an outbound flow'',
            ''   flow: '' @ show_flow outbound,
            ''   decision: ALLOW'',
            ''   state installed for reply: '' @ show_flow matching_reply @ '' ('' @ decimal tracked @ '' tracked flow)'', [],
            ''3. exact reply arrives'',
            ''   flow: '' @ show_flow matching_reply,
            ''   decision: '' @ verdict d3 @ '' (matches recorded reply state)'', [],
            ''4. reply comes from a different UDP source port'',
            ''   flow: '' @ show_flow wrong_port_reply,
            ''   decision: '' @ verdict d4 @ '' (five-tuple differs)'', [],
            ''5. addresses and ports match, but the protocol is TCP'',
            ''   flow: '' @ show_flow tcp_reply,
            ''   decision: '' @ verdict d5 @ '' (TCP and UDP are separate flows)'', [],
            ''6. exact UDP reply arrives at the 30-second expiration boundary'',
            ''   flow: '' @ show_flow matching_reply,
            ''   decision: '' @ verdict d6 @ '' (recorded state has expired)'',
            ''   tracked flows: '' @ decimal (tracked_reply_flows fw)]))))"

section \<open>Command line\<close>

text \<open>The call each command makes, with its arguments after defaults.\<close>

datatype command =
    TcpServer string
  | TcpClient string
  | UdpServer string
  | UdpClient string string
  | UdpBenchServer string
  | UdpRttClient string string nat
  | FirewallDemo
  | IdentityGenerate string string string
  | CoordinatorServer string
  | CoordinatorRegister string string string nat
  | CoordinatorLookup string string string
  | CoordinatorServerAuth string string
  | CoordinatorRegisterAuth string string string nat string
  | CoordinatorLookupAuth string string string
  | CoordinatorAdvertiseRoute string string string string nat
  | CoordinatorRouteLookup string string string
  | SecureEchoServer string string string
  | SecureEchoClient string string string string string
  | SecureEchoClientAuto string string string string string string
  | UdpRelay string string
  | TunUdpOne string string string
  | Usage

text \<open>\<open>args.next().unwrap_or(default)\<close> for the argument at a position after the mode.\<close>

definition arg :: "nat \<Rightarrow> string \<Rightarrow> string list \<Rightarrow> string" where
  "arg i fallback args = (if i < length args then args ! i else fallback)"

definition number_arg :: "nat \<Rightarrow> nat \<Rightarrow> string \<Rightarrow> string list \<Rightarrow> nat outcome" where
  "number_arg i fallback message args =
     (if i < length args then expect message (parse_unsigned u64_max (args ! i)) else Returns fallback)"

definition key_path :: "string \<Rightarrow> string \<Rightarrow> string" where
  "key_path node_id suffix = ''.meshlet/keys/'' @ node_id @ suffix"

text \<open>The arms of the match on the mode, in three groups; \<open>None\<close> when none of a group applies.\<close>

definition demo_command :: "string \<Rightarrow> string list \<Rightarrow> command outcome option" where
  "demo_command mode args =
     (if mode = ''tcp-server'' then Some (Returns (TcpServer (arg 0 ''127.0.0.1:8000'' args)))
      else if mode = ''tcp-client'' then Some (Returns (TcpClient (arg 0 ''127.0.0.1:8000'' args)))
      else if mode = ''udp-server'' then Some (Returns (UdpServer (arg 0 ''127.0.0.1:8000'' args)))
      else if mode = ''udp-client'' then Some (
        Returns (UdpClient (arg 0 ''127.0.0.1:0'' args) (arg 1 ''127.0.0.1:8000'' args)))
      else if mode = ''udp-bench-server'' then Some (Returns (UdpBenchServer (arg 0 ''127.0.0.1:8000'' args)))
      else if mode = ''udp-rtt-client'' then Some (
        out_bind (number_arg 2 DEFAULT_RTT_SAMPLES ''SAMPLES must be a positive integer'' args) (\<lambda>samples.
        Returns (UdpRttClient (arg 0 ''127.0.0.1:0'' args) (arg 1 ''127.0.0.1:8000'' args) samples)))
      else if mode = ''firewall-demo'' then Some (Returns FirewallDemo)
      else if mode = ''identity-generate'' then Some (
        (let node_id = arg 0 ''mesh-a'' args in
         Returns (IdentityGenerate node_id (arg 1 (key_path node_id ''.identity'') args)
                    (arg 2 (key_path node_id ''.authorization'') args))))
      else None)"

definition coordinator_command :: "string \<Rightarrow> string list \<Rightarrow> command outcome option" where
  "coordinator_command mode args =
     (if mode = ''coordinator-server'' then Some (Returns (CoordinatorServer (arg 0 ''127.0.0.1:9000'' args)))
      else if mode = ''coordinator-register'' then Some (
        out_bind (number_arg 3 30 ''LEASE_SECONDS must be a positive integer'' args) (\<lambda>lease.
        Returns (CoordinatorRegister (arg 0 ''127.0.0.1:0'' args) (arg 1 ''127.0.0.1:9000'' args)
                   (arg 2 ''mesh-a'' args) lease)))
      else if mode = ''coordinator-lookup'' then Some (
        Returns (CoordinatorLookup (arg 0 ''127.0.0.1:0'' args) (arg 1 ''127.0.0.1:9000'' args)
                   (arg 2 ''mesh-a'' args)))
      else if mode = ''coordinator-server-auth'' then Some (
        Returns (CoordinatorServerAuth (arg 0 ''127.0.0.1:9000'' args)
                   (arg 1 ''.meshlet/keys/authorized-nodes'' args)))
      else if mode = ''coordinator-route-server'' then Some (
        Returns (CoordinatorServer (arg 0 ''127.0.0.1:9000'' args)))
      else if mode = ''coordinator-register-auth'' then Some (
        out_bind (number_arg 3 30 ''LEASE_SECONDS must be a positive integer'' args) (\<lambda>lease.
        let node_id = arg 2 ''mesh-a'' args in
        Returns (CoordinatorRegisterAuth (arg 0 ''127.0.0.1:0'' args) (arg 1 ''127.0.0.1:9000'' args)
                   node_id lease (arg 4 (key_path node_id ''.identity'') args))))
      else if mode = ''coordinator-lookup-auth'' then Some (
        Returns (CoordinatorLookupAuth (arg 0 ''127.0.0.1:0'' args) (arg 1 ''127.0.0.1:9000'' args)
                   (arg 2 ''mesh-a'' args)))
      else if mode = ''coordinator-advertise-route'' then Some (
        out_bind (number_arg 4 120 ''LEASE_SECONDS must be a positive integer'' args) (\<lambda>lease.
        Returns (CoordinatorAdvertiseRoute (arg 0 ''127.0.0.1:0'' args) (arg 1 ''127.0.0.1:9000'' args)
                   (arg 2 ''mesh-b'' args) (arg 3 ''10.30.0.0/24'' args) lease)))
      else if mode = ''coordinator-route-lookup'' then Some (
        Returns (CoordinatorRouteLookup (arg 0 ''127.0.0.1:0'' args) (arg 1 ''127.0.0.1:9000'' args)
                   (arg 2 ''10.30.0.2'' args)))
      else None)"

definition path_command :: "string \<Rightarrow> string list \<Rightarrow> command outcome option" where
  "path_command mode args =
     (if mode = ''secure-echo-server'' then Some (
        Returns (SecureEchoServer (arg 0 ''127.0.0.1:7000'' args)
                   (arg 1 ''.meshlet/keys/mesh-b.identity'' args)
                   (arg 2 ''.meshlet/keys/authorized-nodes'' args)))
      else if mode = ''secure-echo-client'' then Some (
        Returns (SecureEchoClient (arg 0 ''127.0.0.1:0'' args) (arg 1 ''127.0.0.1:7000'' args)
                   (arg 2 ''.meshlet/keys/mesh-a.identity'' args) (arg 3 ''mesh-b'' args)
                   (arg 4 ''.meshlet/keys/mesh-b.authorization'' args)))
      else if mode = ''secure-echo-client-auto'' then Some (
        Returns (SecureEchoClientAuto (arg 0 ''127.0.0.1:0'' args) (arg 1 ''127.0.0.1:7000'' args)
                   (arg 2 ''127.0.0.1:7100'' args) (arg 3 ''.meshlet/keys/mesh-a.identity'' args)
                   (arg 4 ''mesh-b'' args) (arg 5 ''.meshlet/keys/mesh-b.authorization'' args)))
      else if mode = ''udp-relay'' then Some (
        Returns (UdpRelay (arg 0 ''127.0.0.1:7100'' args) (arg 1 ''127.0.0.1:7000'' args)))
      else if mode = ''tun-udp-one'' then Some (
        Returns (TunUdpOne (arg 0 ''meshlet0'' args) (arg 1 ''127.0.0.1:7200'' args)
                   (arg 2 ''127.0.0.1:7201'' args)))
      else None)"

definition dispatch_mode :: "string \<Rightarrow> string list \<Rightarrow> command outcome" where
  "dispatch_mode mode args =
     (case demo_command mode args of
        Some r \<Rightarrow> r
      | None \<Rightarrow> (case coordinator_command mode args of
          Some r \<Rightarrow> r
        | None \<Rightarrow> (case path_command mode args of
            Some r \<Rightarrow> r
          | None \<Rightarrow> Returns Usage)))"

definition dispatch :: "string list \<Rightarrow> command outcome" where
  "dispatch args = (case args of [] \<Rightarrow> Returns Usage | mode # rest \<Rightarrow> dispatch_mode mode rest)"

text \<open>The lines \<open>print_usage\<close> prints after its heading.\<close>

definition usage_lines :: "string list" where
  "usage_lines =
  [''meshlet tcp-server [BIND_ADDRESS]'',
   ''meshlet tcp-client [SERVER_ADDRESS]'',
   ''meshlet udp-server [BIND_ADDRESS]'',
   ''meshlet udp-client [BIND_ADDRESS] [SERVER_ADDRESS]'',
   ''meshlet udp-bench-server [BIND_ADDRESS]'',
   ''meshlet udp-rtt-client [BIND_ADDRESS] [SERVER_ADDRESS] [SAMPLES]'',
   ''meshlet firewall-demo'',
   ''meshlet identity-generate [NODE_ID] [PRIVATE_PATH] [AUTHORIZATION_PATH]'',
   ''meshlet coordinator-server [BIND_ADDRESS]'',
   ''meshlet coordinator-register [BIND_ADDRESS] [SERVER_ADDRESS] [NODE_ID] [LEASE_SECONDS]'',
   ''meshlet coordinator-lookup [BIND_ADDRESS] [SERVER_ADDRESS] [NODE_ID]'',
   ''meshlet coordinator-server-auth [BIND_ADDRESS] [AUTHORIZATION_PATH]'',
   ''meshlet coordinator-route-server [BIND_ADDRESS]'',
   ''meshlet coordinator-register-auth [BIND_ADDRESS] [SERVER_ADDRESS] [NODE_ID] [LEASE_SECONDS] [IDENTITY_PATH]'',
   ''meshlet coordinator-lookup-auth [BIND_ADDRESS] [SERVER_ADDRESS] [NODE_ID]'',
   ''meshlet coordinator-advertise-route [BIND_ADDRESS] [SERVER_ADDRESS] [NODE_ID] [PREFIX] [LEASE_SECONDS]'',
   ''meshlet coordinator-route-lookup [BIND_ADDRESS] [SERVER_ADDRESS] [DESTINATION]'',
   ''meshlet secure-echo-server [BIND_ADDRESS] [IDENTITY_PATH] [AUTHORIZATION_PATH]'',
   ''meshlet secure-echo-client [BIND_ADDRESS] [SERVER_ADDRESS] [IDENTITY_PATH] [PEER_NODE_ID] [AUTHORIZATION_PATH]'',
   ''meshlet secure-echo-client-auto [BIND_ADDRESS] [DIRECT_ADDRESS] [RELAY_ADDRESS] [IDENTITY_PATH] [PEER_NODE_ID] [AUTHORIZATION_PATH]'',
   ''meshlet udp-relay [BIND_ADDRESS] [UPSTREAM_ADDRESS]'',
   ''meshlet tun-udp-one [TUN_NAME] [BIND_ADDRESS] [PEER_ADDRESS]'']"

text \<open>The second word of each line, after \<open>meshlet\<close> and a space.\<close>

definition usage_modes :: "string list" where
  "usage_modes = map (\<lambda>l. takeWhile (\<lambda>c. c \<noteq> CHR '' '') (drop (length ''meshlet '') l)) usage_lines"

section \<open>Nearest rank\<close>

lemma div_ceil_bounds: "n \<le> 100 * div_ceil n 100" "0 < n \<Longrightarrow> 100 * (div_ceil n 100 - 1) < n"
proof -
  have n: "100 * (n div 100) + n mod 100 = n" by simp
  have m: "n mod 100 < 100" by simp
  have c: "div_ceil n 100 = n div 100 \<and> n mod 100 = 0 \<or> div_ceil n 100 = n div 100 + 1 \<and> n mod 100 \<noteq> 0"
    by (simp add: div_ceil_def)
  show "n \<le> 100 * div_ceil n 100" using n m c by (elim disjE conjE) linarith+
  show "0 < n \<Longrightarrow> 100 * (div_ceil n 100 - 1) < n" using n m c by (elim disjE conjE) linarith+
qed

lemma sorted_filter_le:
  fixes xs :: "'a::linorder list"
  assumes "sorted xs" and "i < length xs"
  shows "i + 1 \<le> length (filter (\<lambda>x. x \<le> xs ! i) xs)" and "length (filter (\<lambda>x. x < xs ! i) xs) \<le> i"
proof -
  have "\<forall>x \<in> set (take (i + 1) xs). x \<le> xs ! i"
    using assms by (auto simp: in_set_conv_nth less_Suc_eq_le intro!: sorted_nth_mono)
  then have "filter (\<lambda>x. x \<le> xs ! i) (take (i + 1) xs) = take (i + 1) xs" by (simp add: filter_id_conv)
  then have "i + 1 \<le> length (filter (\<lambda>x. x \<le> xs ! i) (take (i + 1) xs @ drop (i + 1) xs))"
    using assms(2) by (simp only: filter_append) simp
  then show "i + 1 \<le> length (filter (\<lambda>x. x \<le> xs ! i) xs)" by simp
  have "\<forall>x \<in> set (drop i xs). \<not> x < xs ! i"
    using assms by (auto simp: in_set_conv_nth not_less intro!: sorted_nth_mono)
  then have "filter (\<lambda>x. x < xs ! i) (drop i xs) = []" by (simp add: filter_empty_conv)
  then have "length (filter (\<lambda>x. x < xs ! i) (take i xs @ drop i xs)) \<le> i"
    using length_filter_le [of "\<lambda>x. x < xs ! i" "take i xs"] assms(2) by (simp only: filter_append) simp
  then show "length (filter (\<lambda>x. x < xs ! i) xs) \<le> i" by simp
qed

lemma percentile_rank:
  assumes "xs \<noteq> []" and "sorted xs" and "p \<le> 100" and "length xs * p \<le> u64_max"
  shows "\<exists>v. percentile xs p = Returns v \<and> v \<in> set xs
     \<and> length xs * p \<le> 100 * length (filter (\<lambda>x. x \<le> v) xs)
     \<and> (0 < p \<longrightarrow> 100 * length (filter (\<lambda>x. x < v) xs) < length xs * p)"
proof -
  define r where "r = div_ceil (length xs * p) 100"
  have low: "length xs * p \<le> 100 * r" and up: "0 < length xs * p \<Longrightarrow> 100 * (r - 1) < length xs * p"
    unfolding r_def by (rule div_ceil_bounds)+
  have "length xs * p \<le> length xs * 100" using assms(3) by simp
  then have r: "r - 1 < length xs"
  proof (cases "length xs * p = 0")
    case True
    then have "r = 0" unfolding r_def True by (simp add: div_ceil_def)
    then show ?thesis using assms(1) by simp
  next
    case False
    then have "100 * (r - 1) < length xs * p" using up by blast
    then show ?thesis using \<open>length xs * p \<le> length xs * 100\<close> by linarith
  qed
  have "percentile xs p = Returns (xs ! (r - 1))"
    using assms by (simp add: percentile_def saturating_mul_def r_def min_def Let_def)
  moreover have "r \<le> length (filter (\<lambda>x. x \<le> xs ! (r - 1)) xs)"
    using sorted_filter_le(1) [OF assms(2) r] by simp
  then have "length xs * p \<le> 100 * length (filter (\<lambda>x. x \<le> xs ! (r - 1)) xs)" using low by linarith
  moreover have "100 * length (filter (\<lambda>x. x < xs ! (r - 1)) xs) < length xs * p" if "0 < p"
    using sorted_filter_le(2) [OF assms(2) r] up that assms(1) by (simp add: less_le_trans)
  ultimately show ?thesis using r by auto
qed

section \<open>The benchmark loop\<close>

text \<open>A trip is answered when the first eight bytes received are the sequence number sent.\<close>

definition answered :: "nat \<Rightarrow> round_trip \<Rightarrow> bool" where
  "answered n t \<longleftrightarrow> rt_send_error t = None
     \<and> (\<exists>payload. rt_received t = Inr payload \<and> take 8 payload = to_be_bytes (of_nat n))"

lemma rtt_loop_Suc:
  "rtt_loop s (Suc k) ls (t # trips) = Some (Returns l) \<longleftrightarrow> answered s t
     \<and> rtt_loop (Suc s) k (if RTT_WARMUP_SAMPLES \<le> s then ls @ [rt_elapsed t] else ls) trips = Some (Returns l)"
proof (cases "rt_send_error t")
  case None
  show ?thesis
  proof (cases "rt_received t")
    case (Inr payload)
    have "length (take 8 payload) = 8" if "take 8 payload = to_be_bytes (of_nat s)" using that by simp
    with None Inr show ?thesis by (auto simp: Let_def answered_def recv_into_def)
  qed (use None in \<open>simp add: Let_def answered_def\<close>)
qed (simp add: Let_def answered_def)

lemma rtt_loop_Returns:
  "rtt_loop s k ls trips = Some (Returns l) \<longleftrightarrow>
     k \<le> length trips \<and> (\<forall>i<k. answered (s + i) (trips ! i))
     \<and> l = ls @ map rt_elapsed (drop (RTT_WARMUP_SAMPLES - s) (take k trips))"
proof (induction k arbitrary: s ls trips)
  case 0
  then show ?case by auto
next
  case (Suc k)
  show ?case
  proof (cases trips)
    case (Cons t ts)
    have first: "(\<forall>i<Suc k. answered (s + i) ((t # ts) ! i))
        \<longleftrightarrow> answered s t \<and> (\<forall>i<k. answered (Suc s + i) (ts ! i))"
      by (auto simp: less_Suc_eq_0_disj)
    show ?thesis
    proof (cases "RTT_WARMUP_SAMPLES \<le> s")
      case True
      then show ?thesis unfolding Cons rtt_loop_Suc Suc.IH first by auto
    next
      case False
      then have "RTT_WARMUP_SAMPLES - s = Suc (RTT_WARMUP_SAMPLES - Suc s)" by simp
      with False show ?thesis unfolding Cons rtt_loop_Suc Suc.IH first by auto
    qed
  qed simp
qed

section \<open>Usage and dispatch\<close>

lemma usage_modes_list: "usage_modes =
  [''tcp-server'', ''tcp-client'', ''udp-server'', ''udp-client'', ''udp-bench-server'',
   ''udp-rtt-client'', ''firewall-demo'', ''identity-generate'', ''coordinator-server'',
   ''coordinator-register'', ''coordinator-lookup'', ''coordinator-server-auth'',
   ''coordinator-route-server'', ''coordinator-register-auth'', ''coordinator-lookup-auth'',
   ''coordinator-advertise-route'', ''coordinator-route-lookup'', ''secure-echo-server'',
   ''secure-echo-client'', ''secure-echo-client-auto'', ''udp-relay'', ''tun-udp-one'']"
  by (simp add: usage_modes_def usage_lines_def)

lemma number_arg_not_usage:
  "out_bind (number_arg i d m args) (\<lambda>n. Returns (c n)) \<noteq> Returns Usage \<longleftrightarrow>
     (\<forall>n. number_arg i d m args = Returns n \<longrightarrow> c n \<noteq> Usage)"
  by auto

section \<open>Properties\<close>

lemma retain_none: "(\<And>k v. fmlookup m k = Some v \<Longrightarrow> \<not> P k v) \<Longrightarrow> retain P m = fmempty"
  by (rule fmap_ext) (auto split: option.split)

lemma retain_upd_empty:
  "retain P (fmupd k v fmempty) = (if P k v then fmupd k v fmempty else fmempty)"
  by (rule fmap_ext) (auto split: option.split)

text \<open>
  The firewall demonstration prints the decisions it announces, whenever it is run: the
  unsolicited packet is denied, the outbound flow allowed with one tracked reply, the exact reply
  allowed, a reply from another port or over TCP denied, and the exact reply denied at the
  30-second boundary, where no flow is tracked any more.
\<close>

theorem firewall_demo_verdicts:
  assumes "now + from_secs 30 < instant_end"
  shows "\<exists>lines. firewall_demo now = Returns lines
     \<and> filter (\<lambda>l. take 12 l = ''   decision:'') lines =
        [''   decision: DENY (no matching state exists)'', ''   decision: ALLOW'',
         ''   decision: ALLOW (matches recorded reply state)'', ''   decision: DENY (five-tuple differs)'',
         ''   decision: DENY (TCP and UDP are separate flows)'', ''   decision: DENY (recorded state has expired)'']
     \<and> last lines = ''   tracked flows: '' @ decimal 0"
  using assms
  by (simp add: firewall_demo_def Let_def new_firewall_def from_secs_def nanos_per_sec_def allow_inbound_def
      observe_outbound_def remove_expired_flows_def verdict_def reverse_flow_def new_flow_key_def
      new_endpoint_def tracked_reply_flows_def retain_upd_empty retain_none)

theorem firewall_demo_verdicts_witness:
  "\<exists>lines. firewall_demo 0 = Returns lines \<and> last lines = ''   tracked flows: '' @ decimal 0"
  using firewall_demo_verdicts [of 0] by (auto simp: from_secs_def instant_end_def nanos_per_sec_def)

text \<open>\<open>v\<close> is the nearest-rank \<open>p\<close>-th percentile: at least \<open>p\<close> percent of the samples are at most
  \<open>v\<close>, and fewer than \<open>p\<close> percent lie below it.\<close>

definition nearest_rank :: "duration list \<Rightarrow> nat \<Rightarrow> duration \<Rightarrow> bool" where
  "nearest_rank xs p v \<longleftrightarrow> v \<in> set xs
     \<and> length xs * p \<le> 100 * length (filter (\<lambda>x. x \<le> v) xs)
     \<and> 100 * length (filter (\<lambda>x. x < v) xs) < length xs * p"

lemma length_filter_sort [simp]: "length (filter P (sort xs)) = length (filter P xs)"
  by (simp add: filter_sort)

lemma percentile_sort:
  assumes "percentile (sort xs) p = Returns v" and "0 < p" and "length xs * p \<le> u64_max"
  shows "nearest_rank xs p v"
proof -
  have "xs \<noteq> []" "p \<le> 100" using assms(1) by (auto simp: percentile_def split: if_splits)
  then have "sort xs \<noteq> []" by (metis length_0_conv length_sort)
  from percentile_rank [OF this sorted_sort \<open>p \<le> 100\<close>] assms show ?thesis
    by (auto simp: nearest_rank_def)
qed

lemma udp_rtt_client_Returns:
  assumes "udp_rtt_client be ce te samples trips = Some (Returns (least, p50, p99, greatest))"
  shows "\<exists>ls. 0 < samples \<and> rtt_loop 0 (RTT_WARMUP_SAMPLES + samples) [] trips = Some (Returns ls)
     \<and> percentile (sort ls) 50 = Returns p50 \<and> percentile (sort ls) 99 = Returns p99
     \<and> least = sort ls ! 0 \<and> greatest = sort ls ! (length ls - 1)"
  using assms
  by (auto simp: udp_rtt_client_def Let_def split: outcome.splits option.splits if_splits)

text \<open>
  C39.  A latency report is the order statistics of the measured round trips: it is printed only
  when each of the 100 warm-up and the requested trips was answered with its own sequence number,
  and it shows the least, the nearest-rank median and 99th percentile and the greatest of exactly
  the trips after the warm-up.
\<close>

theorem rtt_report_is_order_statistics:
  assumes "udp_rtt_client be ce te samples trips = Some (Returns (least, p50, p99, greatest))"
    and "samples * 99 \<le> u64_max"
  shows "(\<forall>i<100 + samples. answered i (trips ! i))
     \<and> (let ls = map rt_elapsed (take samples (drop 100 trips)) in
          length ls = samples \<and> nearest_rank ls 50 p50 \<and> nearest_rank ls 99 p99
          \<and> least \<in> set ls \<and> greatest \<in> set ls \<and> (\<forall>x \<in> set ls. least \<le> x \<and> x \<le> greatest))"
proof -
  let ?ls = "map rt_elapsed (take samples (drop 100 trips))"
  obtain ls where samples: "0 < samples"
    and loop: "rtt_loop 0 (RTT_WARMUP_SAMPLES + samples) [] trips = Some (Returns ls)"
    and p: "percentile (sort ls) 50 = Returns p50" "percentile (sort ls) 99 = Returns p99"
    and ends: "least = sort ls ! 0" "greatest = sort ls ! (length ls - 1)"
    using udp_rtt_client_Returns [OF assms(1)] by blast
  from loop have answered: "\<forall>i<100 + samples. answered i (trips ! i)" and ls: "ls = ?ls"
    and len: "length ls = samples"
    by (auto simp: rtt_loop_Returns RTT_WARMUP_SAMPLES_def drop_take)
  have ranks: "nearest_rank ls 50 p50" "nearest_rank ls 99 p99"
    using percentile_sort [OF p(1)] percentile_sort [OF p(2)] assms(2) len by simp_all
  have least: "least \<in> set ls" and greatest: "greatest \<in> set ls"
    using nth_mem [of 0 "sort ls"] nth_mem [of "length ls - 1" "sort ls"] ends samples len by simp_all
  have "least \<le> x \<and> x \<le> greatest" if "x \<in> set ls" for x
  proof -
    have "x \<in> set (sort ls)" using that by simp
    then obtain i where i: "i < length (sort ls)" "x = sort ls ! i" unfolding in_set_conv_nth by blast
    have "sort ls ! 0 \<le> sort ls ! i" by (rule sorted_nth_mono) (use i(1) in simp_all)
    moreover have "sort ls ! i \<le> sort ls ! (length ls - 1)" by (rule sorted_nth_mono) (use i(1) in simp_all)
    ultimately show ?thesis by (simp only: ends i(2))
  qed
  then show ?thesis using answered len ranks least greatest unfolding Let_def ls by blast
qed

definition sample_trips :: "round_trip list" where
  "sample_trips = map (\<lambda>i. \<lparr>rt_send_error = None, rt_received = Inr (to_be_bytes (of_nat i)), rt_elapsed = i\<rparr>)
     [0..<Suc RTT_WARMUP_SAMPLES]"

lemma sample_trips_nth: "i < 101 \<Longrightarrow> sample_trips ! i
    = \<lparr>rt_send_error = None, rt_received = Inr (to_be_bytes (of_nat i)), rt_elapsed = i\<rparr>"
  "length sample_trips = 101"
  unfolding sample_trips_def by (simp_all add: RTT_WARMUP_SAMPLES_def nth_map_upt del: upt_Suc)

lemma sample_trips_tail: "map rt_elapsed (take 1 (drop 100 sample_trips)) = [100]"
proof -
  have "sample_trips ! 100 # drop (Suc 100) sample_trips = drop 100 sample_trips"
    by (rule Cons_nth_drop_Suc) (simp add: sample_trips_nth)
  then have "drop 100 sample_trips = [sample_trips ! 100]" by (simp add: sample_trips_nth)
  then show ?thesis by (simp add: sample_trips_nth)
qed

theorem rtt_report_is_order_statistics_witness:
  "\<exists>least p50 p99 greatest.
     udp_rtt_client None None None 1 sample_trips = Some (Returns (least, p50, p99, greatest))
     \<and> least = 100 \<and> p50 = 100 \<and> p99 = 100 \<and> greatest = 100"
proof -
  have "drop 100 (take 101 sample_trips) = take 1 (drop 100 sample_trips)" by (simp add: drop_take)
  then have "rtt_loop 0 (RTT_WARMUP_SAMPLES + 1) [] sample_trips = Some (Returns [100])"
    unfolding rtt_loop_Returns using sample_trips_tail
    by (simp add: sample_trips_nth RTT_WARMUP_SAMPLES_def answered_def)
  then obtain a b c d where run: "udp_rtt_client None None None 1 sample_trips = Some (Returns (a, b, c, d))"
    by (auto simp: udp_rtt_client_def Let_def percentile_def RTT_WARMUP_SAMPLES_def u64_max_def
        duration_bytes_def max_allocation_bytes_def)
  have "(1::nat) * 99 \<le> u64_max" by (simp add: u64_max_def)
  from rtt_report_is_order_statistics [OF run this, unfolded sample_trips_tail] run show ?thesis
    by (simp add: nearest_rank_def)
qed

text \<open>
  C40.  The usage text and the dispatcher agree: the program falls back to printing its usage
  exactly when no command is given or the command is not one of those the usage lists.
\<close>

theorem usage_lists_the_commands:
  "dispatch args \<noteq> Returns Usage \<longleftrightarrow> (\<exists>mode rest. args = mode # rest \<and> mode \<in> set usage_modes)"
proof (cases args)
  case (Cons mode rest)
  have "dispatch_mode mode rest = Returns Usage \<longleftrightarrow> mode \<notin> set usage_modes"
    unfolding usage_modes_list
    by (simp add: dispatch_mode_def demo_command_def coordinator_command_def path_command_def Let_def)
  then show ?thesis by (simp add: Cons dispatch_def)
qed (simp add: dispatch_def)

end
