(* ===== verification/Component_Tests.thy ===== *)
theory Component_Tests
  imports Cli
begin

text \<open>
  The unit tests of \<open>routing.rs\<close>, \<open>relay.rs\<close>, \<open>firewall.rs\<close>, \<open>identity.rs\<close>, \<open>secure_packet.rs\<close>,
  \<open>tun.rs\<close> and \<open>main.rs\<close>, translated like the code they test, with a proof that each passes on
  the model.  \<open>Instant::now()\<close> is the parameter \<open>now\<close>; a test passes when it returns.
\<close>

section \<open>Assertions\<close>

definition assert_that :: "bool \<Rightarrow> unit outcome" where
  "assert_that b = (if b then Returns () else Panics ''assertion failed'')"

definition unwrap :: "'a result \<Rightarrow> 'a outcome" where
  "unwrap r = or_panic (\<lambda>e. e) r"

text \<open>\<open>Instant + Duration\<close> panics on overflow.\<close>

definition instant_plus :: "instant \<Rightarrow> duration \<Rightarrow> instant outcome" where
  "instant_plus t d = expect ''overflow when adding duration to instant'' (checked_add_instant t d)"

definition passes :: "unit outcome \<Rightarrow> bool" where
  "passes t \<longleftrightarrow> t = Returns ()"

lemma assert_that_Returns [simp]: "assert_that b = Returns u \<longleftrightarrow> b"
  by (simp add: assert_that_def)

lemma assert_that_True [simp]: "assert_that True = Returns ()"
  by simp

lemma unwrap_Ok [simp]: "unwrap (Ok x) = Returns x"
  by (simp add: unwrap_def)

lemma instant_plus_Returns [simp]: "t + d < instant_end \<Longrightarrow> instant_plus t d = Returns (t + d)"
  by (simp add: instant_plus_def checked_add_instant_ok)

lemma clock_in_range_secs: "clock_in_range now \<Longrightarrow> n \<le> MAX_LEASE_SECONDS \<Longrightarrow> now + from_secs n < instant_end"
proof -
  assume "clock_in_range now" "n \<le> MAX_LEASE_SECONDS"
  moreover from this(2) have "from_secs n \<le> from_secs MAX_LEASE_SECONDS" by (simp add: from_secs_def)
  ultimately show ?thesis by (simp add: clock_in_range_def)
qed

section \<open>\<open>routing.rs\<close>\<close>

definition prefix_rejects_noncanonical_host_bits :: "unit outcome" where
  "prefix_rejects_noncanonical_host_bits =
     assert_that (parse_prefix ''10.30.0.7/24'' = Err ''prefix has host bits set; use 10.30.0.0/24'')"

definition longest_matching_prefix_selects_the_most_specific_peer :: "instant \<Rightarrow> unit outcome" where
  "longest_matching_prefix_selects_the_most_specific_peer now =
     out_bind (unwrap (parse_prefix ''10.0.0.0/8'')) (\<lambda>broad.
     out_bind (unwrap (parse_prefix ''10.30.0.0/24'')) (\<lambda>specific.
     let registry = empty_routes in
     out_bind (advertise ''mesh-c'' broad (from_secs 30) now registry) (\<lambda>registry.
     out_bind (advertise ''mesh-b'' specific (from_secs 30) now registry) (\<lambda>registry.
     assert_that (snd (lookup_route (Ipv4 10 30 0 2) now registry)
       = Some \<lparr>sr_prefix = specific, sr_node_id = ''mesh-b''\<rparr>)))))"

definition expired_advertisement_is_not_selected :: "instant \<Rightarrow> unit outcome" where
  "expired_advertisement_is_not_selected now =
     out_bind (unwrap (parse_prefix ''10.30.0.0/24'')) (\<lambda>prefix.
     let registry = empty_routes in
     out_bind (advertise ''mesh-b'' prefix (from_secs 30) now registry) (\<lambda>registry.
     out_bind (instant_plus now (from_secs 30)) (\<lambda>later.
     assert_that (snd (lookup_route (Ipv4 10 30 0 2) later registry) = None))))"

section \<open>\<open>relay.rs\<close>\<close>

definition first_client_and_upstream_are_routed_to_each_other :: "unit outcome" where
  "first_client_and_upstream_are_routed_to_each_other =
     (let peer = SocketV4 (Ipv4 203 0 113 1) 50000;
          up = SocketV4 (Ipv4 192 0 2 20) 7000;
          relay = new_relay up;
          (relay, first) = destination_for peer relay;
          (relay, second) = destination_for up relay;
          (relay, third) = destination_for peer relay
      in out_bind (assert_that (first = Ok up)) (\<lambda>_.
         out_bind (assert_that (second = Ok peer)) (\<lambda>_.
         assert_that (third = Ok up))))"

definition one_session_relay_rejects_a_second_client :: "unit outcome" where
  "one_session_relay_rejects_a_second_client =
     (let peer = SocketV4 (Ipv4 203 0 113 1) 50000;
          other_peer = SocketV4 (Ipv4 203 0 113 2) 50001;
          up = SocketV4 (Ipv4 192 0 2 20) 7000;
          relay = new_relay up;
          (relay, first) = destination_for peer relay;
          (relay, second) = destination_for other_peer relay
      in out_bind (assert_that (first = Ok up)) (\<lambda>_.
         assert_that (is_err second)))"

section \<open>\<open>firewall.rs\<close>\<close>

definition CLIENT :: endpoint where
  "CLIENT = \<lparr>ep_address = Ipv4 10 10 0 2, ep_port = 50000\<rparr>"

definition SERVER :: endpoint where
  "SERVER = \<lparr>ep_address = Ipv4 192 0 2 20, ep_port = 8000\<rparr>"

definition outbound_udp :: flow_key where
  "outbound_udp = new_flow_key Udp CLIENT SERVER"

definition unsolicited_inbound_flow_is_denied :: "instant \<Rightarrow> unit outcome" where
  "unsolicited_inbound_flow_is_denied now =
     out_bind (new_firewall (from_secs 30)) (\<lambda>firewall.
     assert_that (\<not> snd (allow_inbound (reverse_flow outbound_udp) now firewall)))"

definition outbound_flow_allows_its_exact_reply :: "instant \<Rightarrow> unit outcome" where
  "outbound_flow_allows_its_exact_reply now =
     out_bind (new_firewall (from_secs 30)) (\<lambda>firewall.
     let outbound = outbound_udp in
     out_bind (observe_outbound outbound now firewall) (\<lambda>firewall.
     assert_that (snd (allow_inbound (reverse_flow outbound) now firewall))))"

definition different_source_port_is_denied :: "instant \<Rightarrow> unit outcome" where
  "different_source_port_is_denied now =
     out_bind (new_firewall (from_secs 30)) (\<lambda>firewall.
     let outbound = outbound_udp;
         wrong_server = new_endpoint (ep_address SERVER) 8001;
         wrong_reply = new_flow_key Udp wrong_server CLIENT in
     out_bind (observe_outbound outbound now firewall) (\<lambda>firewall.
     assert_that (\<not> snd (allow_inbound wrong_reply now firewall))))"

definition tcp_and_udp_flows_are_distinct :: "instant \<Rightarrow> unit outcome" where
  "tcp_and_udp_flows_are_distinct now =
     out_bind (new_firewall (from_secs 30)) (\<lambda>firewall.
     let outbound = outbound_udp;
         tcp_reply = new_flow_key Tcp SERVER CLIENT in
     out_bind (observe_outbound outbound now firewall) (\<lambda>firewall.
     assert_that (\<not> snd (allow_inbound tcp_reply now firewall))))"

definition one_outbound_flow_does_not_authorize_another_flow :: "instant \<Rightarrow> unit outcome" where
  "one_outbound_flow_does_not_authorize_another_flow now =
     out_bind (new_firewall (from_secs 30)) (\<lambda>firewall.
     let outbound = outbound_udp;
         other_client = new_endpoint (ep_address CLIENT) 50001;
         other_reply = new_flow_key Udp SERVER other_client in
     out_bind (observe_outbound outbound now firewall) (\<lambda>firewall.
     assert_that (\<not> snd (allow_inbound other_reply now firewall))))"

definition flow_is_denied_at_its_expiration_time :: "instant \<Rightarrow> unit outcome" where
  "flow_is_denied_at_its_expiration_time now =
     (let timeout = from_secs 30 in
      out_bind (new_firewall timeout) (\<lambda>firewall.
      let outbound = outbound_udp in
      out_bind (observe_outbound outbound now firewall) (\<lambda>firewall.
      out_bind (instant_plus now timeout) (\<lambda>later.
      let (firewall, allowed) = allow_inbound (reverse_flow outbound) later firewall in
      out_bind (assert_that (\<not> allowed)) (\<lambda>_.
      assert_that (tracked_reply_flows firewall = 0))))))"

section \<open>\<open>identity.rs\<close>\<close>

definition hex_round_trip :: "unit outcome" where
  "hex_round_trip =
     (let bs = [0x00, 0x12, 0xAB, 0xFF] in
      out_bind (assert_that (encode_hex bs = ''0012abff'')) (\<lambda>_.
      assert_that (decode_hex_array 4 ''0012ABff'' = Ok bs)))"

definition identity_signs_with_corresponding_public_key :: "('vk, 'sig) ed25519 \<Rightarrow> unit outcome" where
  "identity_signs_with_corresponding_public_key E =
     (let identity = from_secret_bytes ''mesh-a'' (replicate 32 7);
          message = as_bytes ''meshlet authentication test'';
          signature = identity_sign E identity message
      in out_bind (assert_that (ed_verify_strict E (ed_verifying_key E (id_signing_key identity)) message signature))
           (\<lambda>_.
         assert_that (\<not> ed_verify_strict E (ed_verifying_key E (id_signing_key identity))
           (as_bytes ''tampered'') signature)))"

section \<open>\<open>secure_packet.rs\<close>\<close>

definition flip_last :: "bytes \<Rightarrow> bytes" where
  "flip_last packet = butlast packet @ [last packet XOR 1]"

definition encrypted_packet_round_trips_and_replay_is_rejected :: "aead \<Rightarrow> unit outcome" where
  "encrypted_packet_round_trips_and_replay_is_rejected C =
     (let key = replicate 32 7;
          sender = new_sender key ClientToServer;
          receiver = new_receiver key ClientToServer
      in out_bind (unwrap (snd (seal C sender (as_bytes ''secret payload'')))) (\<lambda>packet.
         let (receiver, first) = open_packet C receiver packet;
             (receiver, second) = open_packet C receiver packet
         in out_bind (unwrap first) (\<lambda>opened.
            out_bind (assert_that (opened = as_bytes ''secret payload'')) (\<lambda>_.
            assert_that (is_err second)))))"

definition modified_ciphertext_is_rejected_without_advancing_receiver :: "aead \<Rightarrow> unit outcome" where
  "modified_ciphertext_is_rejected_without_advancing_receiver C =
     (let key = replicate 32 9;
          sender = new_sender key ServerToClient;
          receiver = new_receiver key ServerToClient
      in out_bind (unwrap (snd (seal C sender (as_bytes ''secret payload'')))) (\<lambda>packet.
         let modified = flip_last packet;
             (receiver, first) = open_packet C receiver modified;
             (receiver, second) = open_packet C receiver packet
         in out_bind (assert_that (is_err first)) (\<lambda>_.
            out_bind (unwrap second) (\<lambda>opened.
            assert_that (opened = as_bytes ''secret payload'')))))"

section \<open>\<open>tun.rs\<close>\<close>

definition parses_the_fields_needed_to_observe_an_ipv4_packet :: "unit outcome" where
  "parses_the_fields_needed_to_observe_an_ipv4_packet =
     (let packet = (replicate 28 0)[0 := 0x45, 2 := 0, 3 := 28, 9 := 1,
            12 := 100, 13 := 64, 14 := 0, 15 := 1, 16 := 100, 17 := 64, 18 := 0, 19 := 2]
      in assert_that (parse_ipv4 packet = Ok \<lparr>ip_source = Ipv4 100 64 0 1, ip_destination = Ipv4 100 64 0 2,
           ip_protocol = 1, ip_total_length = 28\<rparr>))"

definition rejects_a_non_ipv4_packet :: "unit outcome" where
  "rejects_a_non_ipv4_packet =
     assert_that (parse_ipv4 ((replicate 40 0)[0 := 0x60]) = Err ''packet is not IPv4'')"

section \<open>\<open>main.rs\<close>\<close>

definition percentile_uses_nearest_rank :: "unit outcome" where
  "percentile_uses_nearest_rank =
     (let samples = [1..<101] in
      out_bind (percentile samples 0) (\<lambda>p. out_bind (assert_that (p = 1)) (\<lambda>_.
      out_bind (percentile samples 50) (\<lambda>p. out_bind (assert_that (p = 50)) (\<lambda>_.
      out_bind (percentile samples 99) (\<lambda>p. out_bind (assert_that (p = 99)) (\<lambda>_.
      out_bind (percentile samples 100) (\<lambda>p. assert_that (p = 100)))))))))"

section \<open>The tests pass\<close>

lemma prefix_literals:
  "parse_prefix ''10.30.0.7/24'' = Err ''prefix has host bits set; use 10.30.0.0/24''"
  "parse_prefix ''10.0.0.0/8'' = Ok \<lparr>pfx_network = Ipv4 10 0 0 0, pfx_length = 8\<rparr>"
  "parse_prefix ''10.30.0.0/24'' = Ok \<lparr>pfx_network = Ipv4 10 30 0 0, pfx_length = 24\<rparr>"
  by code_simp+

lemma prefix_members:
  "prefix_contains \<lparr>pfx_network = Ipv4 10 0 0 0, pfx_length = 8\<rparr> (Ipv4 10 30 0 2)"
  "prefix_contains \<lparr>pfx_network = Ipv4 10 30 0 0, pfx_length = 24\<rparr> (Ipv4 10 30 0 2)"
  by code_simp+

lemma routing_tests:
  assumes "clock_in_range now"
  shows "passes prefix_rejects_noncanonical_host_bits"
    and "passes (longest_matching_prefix_selects_the_most_specific_peer now)"
    and "passes (expired_advertisement_is_not_selected now)"
proof -
  have late: "now + from_secs 30 < instant_end"
    using clock_in_range_secs [OF assms, of 30] by (simp add: MAX_LEASE_SECONDS_def)
  have live: "0 < from_secs 30" by (simp add: from_secs_def nanos_per_sec_def)
  show "passes prefix_rejects_noncanonical_host_bits"
    by (simp add: passes_def prefix_rejects_noncanonical_host_bits_def prefix_literals)
  show "passes (longest_matching_prefix_selects_the_most_specific_peer now)"
    using late live
    by (simp add: passes_def longest_matching_prefix_selects_the_most_specific_peer_def prefix_literals Let_def
        advertise_def empty_routes_def remove_expired_routes_def lookup_route_def checked_add_instant_ok prefix_members)
  show "passes (expired_advertisement_is_not_selected now)"
    using late live
    by (simp add: passes_def expired_advertisement_is_not_selected_def prefix_literals Let_def
        advertise_def empty_routes_def remove_expired_routes_def lookup_route_def checked_add_instant_ok)
qed

lemma relay_tests:
  "passes first_client_and_upstream_are_routed_to_each_other"
  "passes one_session_relay_rejects_a_second_client"
  by (simp_all add: passes_def first_client_and_upstream_are_routed_to_each_other_def
      one_session_relay_rejects_a_second_client_def destination_for_def new_relay_def Let_def)

lemma firewall_tests:
  assumes "clock_in_range now"
  shows "passes (unsolicited_inbound_flow_is_denied now)"
    and "passes (outbound_flow_allows_its_exact_reply now)"
    and "passes (different_source_port_is_denied now)"
    and "passes (tcp_and_udp_flows_are_distinct now)"
    and "passes (one_outbound_flow_does_not_authorize_another_flow now)"
    and "passes (flow_is_denied_at_its_expiration_time now)"
proof -
  have late: "now + from_secs 30 < instant_end"
    using clock_in_range_secs [OF assms, of 30] by (simp add: MAX_LEASE_SECONDS_def)
  have live: "0 < from_secs 30" by (simp add: from_secs_def nanos_per_sec_def)
  note defs = passes_def new_firewall_def observe_outbound_def allow_inbound_def remove_expired_flows_def Let_def
    checked_add_instant_ok outbound_udp_def new_flow_key_def reverse_flow_def CLIENT_def SERVER_def new_endpoint_def
  show "passes (unsolicited_inbound_flow_is_denied now)"
    using live by (simp add: unsolicited_inbound_flow_is_denied_def defs)
  show "passes (outbound_flow_allows_its_exact_reply now)"
    using live late by (simp add: outbound_flow_allows_its_exact_reply_def defs)
  show "passes (different_source_port_is_denied now)"
    using live late by (simp add: different_source_port_is_denied_def defs)
  show "passes (tcp_and_udp_flows_are_distinct now)"
    using live late by (simp add: tcp_and_udp_flows_are_distinct_def defs)
  show "passes (one_outbound_flow_does_not_authorize_another_flow now)"
    using live late by (simp add: one_outbound_flow_does_not_authorize_another_flow_def defs)
  have "retain (\<lambda>k e. now + from_secs 30 < e) (fmupd f (now + from_secs 30) fmempty) = fmempty" for f :: flow_key
    by (rule fmap_ext) simp
  then show "passes (flow_is_denied_at_its_expiration_time now)"
    using live late by (simp add: flow_is_denied_at_its_expiration_time_def defs tracked_reply_flows_def)
qed

text \<open>What the signature tests rely on: a signature made with one of the keys for one of the
  messages verifies strictly under no other of these keys or messages.\<close>

definition no_confusion :: "('vk, 'sig) ed25519 \<Rightarrow> bytes list \<Rightarrow> bytes list \<Rightarrow> bool" where
  "no_confusion E secrets messages \<longleftrightarrow>
     (\<forall>s \<in> set secrets. \<forall>t \<in> set secrets. \<forall>m \<in> set messages. \<forall>n \<in> set messages.
        (s, m) \<noteq> (t, n) \<longrightarrow> \<not> ed_verify_strict E (ed_verifying_key E s) m (ed_sign E t n))"

lemma no_confusionD:
  "no_confusion E secrets messages \<Longrightarrow> s \<in> set secrets \<Longrightarrow> t \<in> set secrets \<Longrightarrow> m \<in> set messages \<Longrightarrow>
     n \<in> set messages \<Longrightarrow> (s, m) \<noteq> (t, n) \<Longrightarrow> \<not> ed_verify_strict E (ed_verifying_key E s) m (ed_sign E t n)"
  by (simp add: no_confusion_def)

definition identity_messages :: "bytes list" where
  "identity_messages = [as_bytes ''meshlet authentication test'', as_bytes ''tampered'']"

lemma hex_test: "passes hex_round_trip"
  unfolding passes_def by code_simp

lemma signature_test:
  assumes "signature_scheme_ok E" and "no_confusion E [replicate 32 7] identity_messages"
  shows "passes (identity_signs_with_corresponding_public_key E)"
proof -
  have "as_bytes ''tampered'' \<noteq> as_bytes ''meshlet authentication test''" by (simp add: as_bytes_def)
  then have "\<not> ed_verify_strict E (ed_verifying_key E (replicate 32 7)) (as_bytes ''tampered'')
      (ed_sign E (replicate 32 7) (as_bytes ''meshlet authentication test''))"
    by (intro no_confusionD [OF assms(2)]) (simp_all add: identity_messages_def)
  then show ?thesis
    by (simp add: passes_def identity_signs_with_corresponding_public_key_def Let_def from_secret_bytes_def
        identity_sign_def sign_verifies [OF assms(1)])
qed

lemma tun_tests:
  "passes parses_the_fields_needed_to_observe_an_ipv4_packet"
  "passes rejects_a_non_ipv4_packet"
  unfolding passes_def by code_simp+

lemma main_test: "passes percentile_uses_nearest_rank"
  by (simp add: passes_def percentile_uses_nearest_rank_def percentile_def saturating_mul_def u64_max_def
      div_ceil_def Let_def del: upt_Suc upt_rec_numeral)

lemma first_packet_opens:
  assumes "aead_correct C" and "length m \<le> aead_limit"
  obtains s packet r where "seal C (new_sender k d) m = (s, Ok packet)"
    and "open_packet C (new_receiver k d) packet = (r, Ok m)"
    and "is_err (snd (open_packet C r packet))"
proof -
  obtain packet n where seal: "seal C (new_sender k d) m = ((new_sender k d)\<lparr>s_next := n\<rparr>, Ok packet)"
    using seal_total [OF assms, of "new_sender k d"] by (auto simp: new_sender_def u64_max_def)
  have "synced C (new_sender k d) (new_receiver k d)"
    using assms(1) by (simp add: synced_def new_sender_def new_receiver_def)
  from packets.delivered [OF this seal] obtain r where opened: "open_packet C (new_receiver k d) packet = (r, Ok m)"
    by blast
  then obtain n c where n: "checked_succ 0 = Some n" and packet: "packet = packet_header d 0 @ c"
    and r: "r_next r = n" "r_direction r = d"
    by (auto simp: open_Ok new_receiver_def)
  from unat_checked_succ [OF n] have "n \<noteq> 0" by auto
  then have "open_packet C r packet \<noteq> (r', Ok m')" for r' m'
    using packet r by (auto simp: open_Ok)
  then have "is_err (snd (open_packet C r packet))"
    by (cases "open_packet C r packet"; cases "snd (open_packet C r packet)") auto
  with seal opened show thesis by (rule that)
qed

lemma payload_fits: "length (as_bytes ''secret payload'') \<le> aead_limit"
  by (simp add: aead_limit_def)

text \<open>What the second packet test relies on: the cipher refuses the ciphertext with a flipped bit.\<close>

definition refuses_flip :: "aead \<Rightarrow> bytes \<Rightarrow> direction \<Rightarrow> bytes \<Rightarrow> bool" where
  "refuses_flip C k d m \<longleftrightarrow>
     (case aead_encrypt C k (packet_nonce d 0) (packet_header d 0) m of
        None \<Rightarrow> True
      | Some c \<Rightarrow> aead_decrypt C k (packet_nonce d 0) (packet_header d 0) (flip_last c) = None)"

lemma modified_packet_fails:
  assumes "aead_correct C" and "refuses_flip C k d m" and seal: "seal C (new_sender k d) m = (s, Ok packet)"
  obtains e where "open_packet C (new_receiver k d) (flip_last packet) = (new_receiver k d, Err e)"
proof -
  from seal obtain c where c: "aead_encrypt C k (packet_nonce d 0) (packet_header d 0) m = Some c"
    and packet: "packet = packet_header d 0 @ c" by (auto simp: seal_Ok new_sender_def)
  from c assms(1) have "length c = length m + 16" unfolding aead_correct_def AUTHENTICATION_TAG_BYTES_def by blast
  then have "c \<noteq> []" by auto
  then have flip: "flip_last packet = packet_header d 0 @ flip_last c"
    using packet by (simp add: flip_last_def butlast_append)
  have "aead_decrypt C k (packet_nonce d 0) (packet_header d 0) (flip_last c) = None"
    using assms(2) c by (simp add: refuses_flip_def)
  then have no: "open_packet C (new_receiver k d) (flip_last packet) \<noteq> (r', Ok m')" for r' m'
    unfolding flip by (auto simp: open_Ok new_receiver_def)
  obtain r' o' where out: "open_packet C (new_receiver k d) (flip_last packet) = (r', o')"
    by (cases "open_packet C (new_receiver k d) (flip_last packet)")
  with no obtain e where "o' = Err e" by (cases o') auto
  with out open_Err show thesis using that by blast
qed

lemma packet_tests:
  assumes "aead_correct C"
  shows "passes (encrypted_packet_round_trips_and_replay_is_rejected C)"
    and "refuses_flip C (replicate 32 9) ServerToClient (as_bytes ''secret payload'') \<Longrightarrow>
      passes (modified_ciphertext_is_rejected_without_advancing_receiver C)"
proof -
  obtain s packet r where "seal C (new_sender (replicate 32 7) ClientToServer) (as_bytes ''secret payload'') = (s, Ok packet)"
    "open_packet C (new_receiver (replicate 32 7) ClientToServer) packet = (r, Ok (as_bytes ''secret payload''))"
    "is_err (snd (open_packet C r packet))"
    by (rule first_packet_opens [OF assms payload_fits])
  then show "passes (encrypted_packet_round_trips_and_replay_is_rejected C)"
    by (simp add: passes_def encrypted_packet_round_trips_and_replay_is_rejected_def Let_def split_beta)
  assume flip: "refuses_flip C (replicate 32 9) ServerToClient (as_bytes ''secret payload'')"
  obtain s packet r where sealed: "seal C (new_sender (replicate 32 9) ServerToClient) (as_bytes ''secret payload'') = (s, Ok packet)"
    and opened: "open_packet C (new_receiver (replicate 32 9) ServerToClient) packet = (r, Ok (as_bytes ''secret payload''))"
    by (rule first_packet_opens [OF assms payload_fits])
  obtain e where "open_packet C (new_receiver (replicate 32 9) ServerToClient) (flip_last packet)
      = (new_receiver (replicate 32 9) ServerToClient, Err e)"
    by (rule modified_packet_fails [OF assms flip sealed])
  with sealed opened show "passes (modified_ciphertext_is_rejected_without_advancing_receiver C)"
    by (simp add: passes_def modified_ciphertext_is_rejected_without_advancing_receiver_def Let_def)
qed

end
