(* ===== verification/Protocol_Tests.thy ===== *)
theory Protocol_Tests
  imports Component_Tests
begin

text \<open>
  The unit tests of \<open>coordinator.rs\<close> and \<open>handshake.rs\<close>, translated like the code they test,
  with a proof that each passes on the model, and the property that all the tests of the
  repository do.  The random exchange secrets of a test are parameters.
\<close>

section \<open>\<open>coordinator.rs\<close>: the learning coordinator\<close>

definition ENDPOINT_A :: socket_addr where "ENDPOINT_A = SocketV4 (Ipv4 127 0 0 1) 40000"
definition ENDPOINT_B :: socket_addr where "ENDPOINT_B = SocketV4 (Ipv4 127 0 0 1) 40001"

definition advertised_route_is_selected_for_its_destination :: "instant \<Rightarrow> unit outcome" where
  "advertised_route_is_selected_for_its_destination now =
     out_bind (unwrap (parse_prefix ''10.30.0.0/24'')) (\<lambda>prefix.
     let lease = from_secs 30; registry = default_registry in
     out_bind (handle (AdvertiseRoute ''mesh-b'' prefix lease) ENDPOINT_B now registry) (\<lambda>(registry, response).
     out_bind (assert_that (response = RouteAdvertised ''mesh-b'' prefix lease)) (\<lambda>_.
     out_bind (handle (RouteLookup (Ipv4 10 30 0 2)) ENDPOINT_A now registry) (\<lambda>(registry, response).
     assert_that (response = RouteFound (Ipv4 10 30 0 2) prefix ''mesh-b'')))))"

definition parses_versioned_register_request :: "unit outcome" where
  "parses_versioned_register_request =
     assert_that (parse_request (as_bytes ''MESHLET/1 REGISTER mesh-a 30'') = Ok (Register ''mesh-a'' (from_secs 30)))"

definition register_records_observed_source_endpoint :: "instant \<Rightarrow> unit outcome" where
  "register_records_observed_source_endpoint now =
     (let registry = default_registry in
     out_bind (handle (Register ''mesh-a'' (from_secs 30)) ENDPOINT_A now registry) (\<lambda>(registry, response).
     out_bind (assert_that (response = Registered ''mesh-a'' ENDPOINT_A (from_secs 30))) (\<lambda>_.
     out_bind (handle (Lookup ''mesh-a'') ENDPOINT_B now registry) (\<lambda>(registry, response).
     assert_that (response = Found ''mesh-a'' ENDPOINT_A)))))"

definition registration_is_absent_at_expiration_boundary :: "instant \<Rightarrow> unit outcome" where
  "registration_is_absent_at_expiration_boundary now =
     (let lease = from_secs 30; registry = default_registry in
     out_bind (handle (Register ''mesh-a'' lease) ENDPOINT_A now registry) (\<lambda>(registry, _).
     out_bind (instant_plus now lease) (\<lambda>later.
     out_bind (handle (Lookup ''mesh-a'') ENDPOINT_B later registry) (\<lambda>(registry, response).
     assert_that (response = NotFound ''mesh-a'')))))"

definition repeated_registration_refreshes_location_and_deadline :: "instant \<Rightarrow> unit outcome" where
  "repeated_registration_refreshes_location_and_deadline now =
     (let lease = from_secs 30; registry = default_registry in
     out_bind (handle (Register ''mesh-a'' lease) ENDPOINT_A now registry) (\<lambda>(registry, _).
     out_bind (instant_plus now (from_secs 20)) (\<lambda>later.
     out_bind (handle (Register ''mesh-a'' lease) ENDPOINT_B later registry) (\<lambda>(registry, _).
     out_bind (instant_plus now (from_secs 45)) (\<lambda>latest.
     out_bind (handle (Lookup ''mesh-a'') ENDPOINT_A latest registry) (\<lambda>(registry, response).
     assert_that (response = Found ''mesh-a'' ENDPOINT_B)))))))"

definition rejects_invalid_node_id_and_lease :: "unit outcome" where
  "rejects_invalid_node_id_and_lease =
     out_bind (assert_that (is_err (parse_request (as_bytes ''MESHLET/1 REGISTER mesh/a 30'')))) (\<lambda>_.
     out_bind (assert_that (is_err (parse_request (as_bytes ''MESHLET/1 REGISTER mesh-a 0'')))) (\<lambda>_.
     assert_that (is_err (parse_request (as_bytes ''MESHLET/1 REGISTER mesh-a 301'')))))"

definition rejects_unknown_protocol_version :: "unit outcome" where
  "rejects_unknown_protocol_version =
     assert_that (parse_request (as_bytes ''MESHLET/2 LOOKUP mesh-a'')
       = Err (''unsupported protocol version '' @ [CHR 0x27] @ ''MESHLET/2'' @ [CHR 0x27]))"

section \<open>\<open>coordinator.rs\<close>: the authenticated coordinator\<close>

definition authenticated_coordinator :: "('vk, 'sig) ed25519 \<Rightarrow> identity \<times> 'vk coordinator" where
  "authenticated_coordinator E =
     (let identity = from_secret_bytes ''mesh-a'' (replicate 32 7);
          authorizations = from_key ''mesh-a'' (identity_verifying_key E identity)
      in (identity, new_coordinator authorizations))"

definition no_challenge_error :: string where
  "no_challenge_error = ''no unexpired challenge exists for this node and source endpoint''"

definition valid_challenge_signature_registers_observed_endpoint :: "('vk, 'sig) ed25519 \<Rightarrow> instant \<Rightarrow> unit outcome" where
  "valid_challenge_signature_registers_observed_endpoint E now =
     (let lease = from_secs 30; challenge = replicate CHALLENGE_BYTES 9;
          (identity, coordinator) = authenticated_coordinator E in
     out_bind (issue_challenge ''mesh-a'' ENDPOINT_A now challenge coordinator) (\<lambda>(coordinator, response).
     out_bind (assert_that (response = AuthChallengeIssued ''mesh-a'' challenge)) (\<lambda>_.
     let signed_message = registration_signing_message ''mesh-a'' lease challenge;
         signature = identity_sign E identity signed_message in
     out_bind (register_node E ''mesh-a'' lease challenge signature ENDPOINT_A now coordinator) (\<lambda>(coordinator, response).
     out_bind (assert_that (response = AuthRegistered ''mesh-a'' ENDPOINT_A lease)) (\<lambda>_.
     assert_that (snd (lookup_node ''mesh-a'' now coordinator) = AuthFound ''mesh-a'' ENDPOINT_A))))))"

definition signed_registration_cannot_be_replayed :: "('vk, 'sig) ed25519 \<Rightarrow> instant \<Rightarrow> unit outcome" where
  "signed_registration_cannot_be_replayed E now =
     (let lease = from_secs 30; challenge = replicate CHALLENGE_BYTES 10;
          (identity, coordinator) = authenticated_coordinator E in
     out_bind (issue_challenge ''mesh-a'' ENDPOINT_A now challenge coordinator) (\<lambda>(coordinator, _).
     let signed_message = registration_signing_message ''mesh-a'' lease challenge in
     out_bind (register_node E ''mesh-a'' lease challenge (identity_sign E identity signed_message) ENDPOINT_A now
                 coordinator) (\<lambda>(coordinator, response).
     out_bind (assert_that (case response of AuthRegistered _ _ _ \<Rightarrow> True | _ \<Rightarrow> False)) (\<lambda>_.
     out_bind (register_node E ''mesh-a'' lease challenge (identity_sign E identity signed_message) ENDPOINT_A now
                 coordinator) (\<lambda>(coordinator, response).
     assert_that (response = AuthError no_challenge_error))))))"

definition challenge_is_bound_to_observed_source_endpoint :: "('vk, 'sig) ed25519 \<Rightarrow> instant \<Rightarrow> unit outcome" where
  "challenge_is_bound_to_observed_source_endpoint E now =
     (let lease = from_secs 30; challenge = replicate CHALLENGE_BYTES 11;
          (identity, coordinator) = authenticated_coordinator E in
     out_bind (issue_challenge ''mesh-a'' ENDPOINT_A now challenge coordinator) (\<lambda>(coordinator, _).
     let signed_message = registration_signing_message ''mesh-a'' lease challenge in
     out_bind (register_node E ''mesh-a'' lease challenge (identity_sign E identity signed_message) ENDPOINT_B now
                 coordinator) (\<lambda>(coordinator, response).
     assert_that (response = AuthError no_challenge_error))))"

definition signature_covers_lease_and_challenge :: "('vk, 'sig) ed25519 \<Rightarrow> instant \<Rightarrow> unit outcome" where
  "signature_covers_lease_and_challenge E now =
     (let signed_lease = from_secs 30; changed_lease = from_secs 300; challenge = replicate CHALLENGE_BYTES 12;
          (identity, coordinator) = authenticated_coordinator E in
     out_bind (issue_challenge ''mesh-a'' ENDPOINT_A now challenge coordinator) (\<lambda>(coordinator, _).
     let signed_message = registration_signing_message ''mesh-a'' signed_lease challenge in
     out_bind (register_node E ''mesh-a'' changed_lease challenge (identity_sign E identity signed_message) ENDPOINT_A now
                 coordinator) (\<lambda>(coordinator, response).
     assert_that (response = AuthError ''signature verification failed''))))"

definition different_private_key_cannot_claim_authorized_node_id :: "('vk, 'sig) ed25519 \<Rightarrow> instant \<Rightarrow> unit outcome" where
  "different_private_key_cannot_claim_authorized_node_id E now =
     (let lease = from_secs 30; challenge = replicate CHALLENGE_BYTES 14;
          (_, coordinator) = authenticated_coordinator E;
          attacker_identity = from_secret_bytes ''mesh-a'' (replicate 32 8) in
     out_bind (issue_challenge ''mesh-a'' ENDPOINT_A now challenge coordinator) (\<lambda>(coordinator, _).
     let signed_message = registration_signing_message ''mesh-a'' lease challenge in
     out_bind (register_node E ''mesh-a'' lease challenge (identity_sign E attacker_identity signed_message) ENDPOINT_A
                 now coordinator) (\<lambda>(coordinator, response).
     assert_that (response = AuthError ''signature verification failed''))))"

definition expired_challenge_cannot_authorize_registration :: "('vk, 'sig) ed25519 \<Rightarrow> instant \<Rightarrow> unit outcome" where
  "expired_challenge_cannot_authorize_registration E now =
     (let lease = from_secs 30; challenge = replicate CHALLENGE_BYTES 13;
          (identity, coordinator) = authenticated_coordinator E in
     out_bind (issue_challenge ''mesh-a'' ENDPOINT_A now challenge coordinator) (\<lambda>(coordinator, _).
     let signed_message = registration_signing_message ''mesh-a'' lease challenge in
     out_bind (instant_plus now CHALLENGE_LIFETIME) (\<lambda>later.
     out_bind (register_node E ''mesh-a'' lease challenge (identity_sign E identity signed_message) ENDPOINT_A later
                 coordinator) (\<lambda>(coordinator, response).
     assert_that (response = AuthError no_challenge_error)))))"

section \<open>\<open>handshake.rs\<close>\<close>

definition fallback_is_only_allowed_for_reachability_failures :: "unit outcome" where
  "fallback_is_only_allowed_for_reachability_failures =
     (let unreachable = Unreachable ''timed out''; local_error = Local ''cannot bind'';
          rejected = Rejected ''invalid signature'' in
     out_bind (assert_that (permits_fallback unreachable)) (\<lambda>_.
     out_bind (assert_that (\<not> permits_fallback local_error)) (\<lambda>_.
     assert_that (\<not> permits_fallback rejected))))"

definition both_peers_derive_the_same_directional_keys :: "key_exchange \<Rightarrow> bytes \<Rightarrow> bytes \<Rightarrow> unit outcome" where
  "both_peers_derive_the_same_directional_keys K client_secret server_secret =
     (let client_public = kx_public K client_secret; server_public = kx_public K server_secret;
          client_shared = kx_shared K client_secret server_public;
          server_shared = kx_shared K server_secret client_public;
          transcript = as_bytes ''one exact authenticated Meshlet handshake'' in
     out_bind (unwrap (derive_session_keys K client_shared transcript)) (\<lambda>client_keys.
     out_bind (unwrap (derive_session_keys K server_shared transcript)) (\<lambda>server_keys.
     out_bind (assert_that (client_keys = server_keys)) (\<lambda>_.
     assert_that (client_to_server client_keys \<noteq> server_to_client client_keys)))))"

definition complete_authenticated_handshake_derives_matching_keys ::
  "('vk, 'sig) ed25519 \<Rightarrow> key_exchange \<Rightarrow> bytes \<Rightarrow> bytes \<Rightarrow> unit outcome" where
  "complete_authenticated_handshake_derives_matching_keys E K client_secret server_secret =
     (let client_identity = from_secret_bytes ''mesh-a'' (replicate 32 7);
          server_identity = from_secret_bytes ''mesh-b'' (replicate 32 9);
          server_authorizations = from_key ''mesh-a'' (identity_verifying_key E client_identity);
          client_authorizations = from_key ''mesh-b'' (identity_verifying_key E server_identity);
          client_public = kx_public K client_secret;
          client_signature = identity_sign E client_identity
            (client_signing_message ''mesh-a'' ''mesh-b'' client_public);
          sent_client = \<lparr>cl_initiator_id = ''mesh-a'', cl_responder_id = ''mesh-b'',
            cl_exchange_public = client_public, cl_signature = client_signature\<rparr> in
     out_bind (unwrap (parse_client_hello E (encode_client_hello E sent_client))) (\<lambda>received_client.
     out_bind (unwrap (verify_signature E server_authorizations (cl_initiator_id received_client)
       (client_signing_message (cl_initiator_id received_client) (cl_responder_id received_client)
          (cl_exchange_public received_client)) (cl_signature received_client))) (\<lambda>_.
     let server_public = kx_public K server_secret;
         server_signature = identity_sign E server_identity (server_signing_message E received_client server_public);
         sent_server = \<lparr>sv_initiator_id = cl_initiator_id received_client,
           sv_responder_id = cl_responder_id received_client,
           sv_client_exchange_public = cl_exchange_public received_client,
           sv_server_exchange_public = server_public, sv_signature = server_signature\<rparr> in
     out_bind (unwrap (parse_server_hello E (encode_server_hello E sent_server))) (\<lambda>received_server.
     out_bind (unwrap (validate_server_hello received_server sent_client)) (\<lambda>_.
     out_bind (unwrap (verify_signature E client_authorizations (sv_responder_id received_server)
       (server_signing_message E sent_client (sv_server_exchange_public received_server))
       (sv_signature received_server))) (\<lambda>_.
     let client_shared = kx_shared K client_secret (sv_server_exchange_public received_server);
         server_shared = kx_shared K server_secret (cl_exchange_public received_client);
         client_transcript = handshake_transcript E sent_client received_server;
         server_transcript = handshake_transcript E received_client sent_server in
     out_bind (unwrap (derive_session_keys K client_shared client_transcript)) (\<lambda>client_keys.
     out_bind (unwrap (derive_session_keys K server_shared server_transcript)) (\<lambda>server_keys.
     out_bind (assert_that (client_transcript = server_transcript)) (\<lambda>_.
     assert_that (client_keys = server_keys))))))))))"

section \<open>The tests pass\<close>

lemma secs_in_range:
  assumes "clock_in_range now"
  shows "now + from_secs 20 < instant_end" "now + from_secs 30 < instant_end" "now + from_secs 45 < instant_end"
    "now + (from_secs 20 + from_secs 30) < instant_end" "now + from_secs 300 < instant_end"
    "now + CHALLENGE_LIFETIME < instant_end"
proof -
  have sum: "from_secs 20 + from_secs 30 = from_secs 50" by (simp add: from_secs_def)
  note range = clock_in_range_secs [OF assms]
  show "now + from_secs 20 < instant_end" "now + from_secs 30 < instant_end" "now + from_secs 45 < instant_end"
    "now + (from_secs 20 + from_secs 30) < instant_end" "now + from_secs 300 < instant_end"
    "now + CHALLENGE_LIFETIME < instant_end"
    using range [of 20] range [of 30] range [of 45] range [of 50] range [of 300] challenge_in_range [OF assms]
    by (simp_all add: sum MAX_LEASE_SECONDS_def)
qed

lemma test_durations:
  "0 < from_secs 30" "from_secs 20 < from_secs 30" "from_secs 45 < from_secs 20 + from_secs 30" "0 < CHALLENGE_LIFETIME"
  by (simp_all add: from_secs_def nanos_per_sec_def CHALLENGE_LIFETIME_def)

lemma endpoints_differ [simp]: "ENDPOINT_A \<noteq> ENDPOINT_B" "ENDPOINT_B \<noteq> ENDPOINT_A"
  by (simp_all add: ENDPOINT_A_def ENDPOINT_B_def)

lemma parse_words:
  assumes "list_all plain_word ws" and "list_all ascii_text ws" and "request = unwords ws"
  shows "parse_request (as_bytes request) = parse_request_fields ws"
  unfolding assms(3) by (rule parse_request_words [OF assms(1,2)])

lemma test_literals:
  "parse_lease ''30'' = Ok (from_secs 30)" "is_err (parse_lease ''0'')" "is_err (parse_lease ''301'')"
  "valid_node_id ''mesh-a''" "valid_node_id ''mesh-b''" "\<not> valid_node_id ''mesh/a''"
proof -
  have literals: "decimal 30 = ''30''" "decimal 0 = ''0''" "decimal 301 = ''301''" by code_simp+
  have bound: "30 \<le> u64_max" "0 \<le> u64_max" "301 \<le> u64_max" by (simp_all add: u64_max_def)
  note parsed = bound [THEN parse_unsigned_decimal, unfolded literals]
  show "parse_lease ''30'' = Ok (from_secs 30)" "is_err (parse_lease ''0'')" "is_err (parse_lease ''301'')"
    by (simp_all add: parse_lease_def parsed MAX_LEASE_SECONDS_def)
  show "valid_node_id ''mesh-a''" "valid_node_id ''mesh-b''" "\<not> valid_node_id ''mesh/a''"
    by (simp_all add: valid_node_id_def MAX_NODE_ID_BYTES_def is_ascii_alphanumeric_def is_ascii_digit_def)
qed

lemma parser_tests:
  "passes parses_versioned_register_request"
  "passes rejects_invalid_node_id_and_lease"
  "passes rejects_unknown_protocol_version"
proof -
  have register: "parse_request (as_bytes (''MESHLET/1 REGISTER '' @ n @ '' '' @ l))
      = parse_request_fields [''MESHLET/1'', ''REGISTER'', n, l]"
    if "plain_word n" "ascii_text n" "plain_word l" "ascii_text l" for n l
    using that by (intro parse_words) (simp_all add: plain_word_def is_ascii_whitespace_def)
  have words: "plain_word ''mesh-a''" "ascii_text ''mesh-a''" "plain_word ''mesh/a''" "ascii_text ''mesh/a''"
    "plain_word ''30''" "ascii_text ''30''" "plain_word ''0''" "ascii_text ''0''" "plain_word ''301''" "ascii_text ''301''"
    by (simp_all add: plain_word_def is_ascii_whitespace_def)
  have version: "PROTOCOL_VERSION = ''MESHLET/1''" by (simp add: PROTOCOL_VERSION_def)
  show "passes parses_versioned_register_request"
    using register [of "''mesh-a''" "''30''"] words
    by (simp add: passes_def parses_versioned_register_request_def parse_request_fields_def version test_literals)
  show "passes rejects_invalid_node_id_and_lease"
    using register [of "''mesh/a''" "''30''"] register [of "''mesh-a''" "''0''"] register [of "''mesh-a''" "''301''"]
      words test_literals
    by (auto simp: passes_def rejects_invalid_node_id_and_lease_def parse_request_fields_def version
        validate_node_id_def)
  show "passes rejects_unknown_protocol_version"
    by (simp add: passes_def rejects_unknown_protocol_version_def parse_words
        [of "[''MESHLET/2'', ''LOOKUP'', ''mesh-a'']"] parse_request_fields_def version quoted_def
        plain_word_def is_ascii_whitespace_def)
qed

lemma registry_tests:
  assumes "clock_in_range now"
  shows "passes (advertised_route_is_selected_for_its_destination now)"
    and "passes (register_records_observed_source_endpoint now)"
    and "passes (registration_is_absent_at_expiration_boundary now)"
    and "passes (repeated_registration_refreshes_location_and_deadline now)"
proof -
  note range = secs_in_range [OF assms]
  show "passes (advertised_route_is_selected_for_its_destination now)"
    using range test_durations
    by (simp add: passes_def advertised_route_is_selected_for_its_destination_def prefix_literals Let_def
        handle_AdvertiseRoute handle_RouteLookup advertise_def default_registry_def empty_routes_def
        remove_expired_routes_def lookup_route_def checked_add_instant_ok prefix_members)
  show "passes (register_records_observed_source_endpoint now)"
    using range test_durations
    by (simp add: passes_def register_records_observed_source_endpoint_def Let_def handle_Register handle_Lookup
        checked_add_instant_ok leases.get_put leases.get_prune)
  show "passes (registration_is_absent_at_expiration_boundary now)"
    using range test_durations
    by (simp add: passes_def registration_is_absent_at_expiration_boundary_def Let_def handle_Register handle_Lookup
        checked_add_instant_ok leases.get_put leases.get_prune)
  show "passes (repeated_registration_refreshes_location_and_deadline now)"
    using range test_durations
    by (simp add: passes_def repeated_registration_refreshes_location_and_deadline_def Let_def handle_Register
        handle_Lookup checked_add_instant_ok leases.get_put leases.get_prune add.assoc)
qed

definition registration_messages :: "bytes list" where
  "registration_messages =
     [registration_signing_message ''mesh-a'' (from_secs 30) (replicate CHALLENGE_BYTES 12),
      registration_signing_message ''mesh-a'' (from_secs 300) (replicate CHALLENGE_BYTES 12),
      registration_signing_message ''mesh-a'' (from_secs 30) (replicate CHALLENGE_BYTES 14)]"

lemma authenticated_coordinator_eq:
  "authenticated_coordinator E = (from_secret_bytes ''mesh-a'' (replicate 32 7),
     new_coordinator (from_key ''mesh-a'' (ed_verifying_key E (replicate 32 7))))"
  by (simp add: authenticated_coordinator_def Let_def identity_verifying_key_def from_secret_bytes_def)

lemma auth_get_from_key [simp]: "auth_get (from_key n vk) n = Some vk"
  by (simp add: auth_get_def from_key_def)

lemma coordinator_tests:
  assumes E: "signature_scheme_ok E" and now: "clock_in_range now"
  shows "passes (valid_challenge_signature_registers_observed_endpoint E now)"
    and "passes (signed_registration_cannot_be_replayed E now)"
    and "passes (challenge_is_bound_to_observed_source_endpoint E now)"
    and "passes (expired_challenge_cannot_authorize_registration E now)"
proof -
  note range = secs_in_range [OF now]
  note defs = passes_def Let_def authenticated_coordinator_eq issue_challenge_eq register_node_eq lookup_node_eq
    checked_add_instant_ok ch_get_pruned pending.get_put pending.get_remove while_live_Some accepts_def
    identity_sign_def from_secret_bytes_def sign_verifies [OF E] members.get_put members.get_prune no_challenge_error_def
  show "passes (valid_challenge_signature_registers_observed_endpoint E now)"
    using range test_durations by (simp add: valid_challenge_signature_registers_observed_endpoint_def defs)
  show "passes (signed_registration_cannot_be_replayed E now)"
    using range test_durations by (simp add: signed_registration_cannot_be_replayed_def defs)
  show "passes (challenge_is_bound_to_observed_source_endpoint E now)"
    using range test_durations by (simp add: challenge_is_bound_to_observed_source_endpoint_def defs)
  show "passes (expired_challenge_cannot_authorize_registration E now)"
    using range test_durations by (simp add: expired_challenge_cannot_authorize_registration_def defs)
qed

lemma refused_registration:
  assumes now: "clock_in_range now" and c: "length c = CHALLENGE_BYTES"
    and refused: "\<not> ed_verify_strict E (ed_verifying_key E (replicate 32 7))
       (registration_signing_message ''mesh-a'' lease c) sg"
  shows "\<exists>co co'. issue_challenge ''mesh-a'' ENDPOINT_A now c (snd (authenticated_coordinator E))
      = Returns (co, AuthChallengeIssued ''mesh-a'' c)
    \<and> register_node E ''mesh-a'' lease c sg ENDPOINT_A now co = Returns (co', AuthError ''signature verification failed'')"
  using secs_in_range [OF now] test_durations refused
  by (simp add: Let_def authenticated_coordinator_eq issue_challenge_eq register_node_eq checked_add_instant_ok
      ch_get_pruned pending.get_put while_live_Some accepts_def)

lemma signature_tests:
  assumes "no_confusion E [replicate 32 7, replicate 32 8] registration_messages" and now: "clock_in_range now"
  shows "passes (signature_covers_lease_and_challenge E now)"
    and "passes (different_private_key_cannot_claim_authorized_node_id E now)"
proof -
  let ?c = "replicate CHALLENGE_BYTES 12" and ?d = "replicate CHALLENGE_BYTES 14" and ?a = "from_secret_bytes ''mesh-a''"
  let ?m = "\<lambda>l c. registration_signing_message ''mesh-a'' (from_secs l) c"
  have "?m 300 ?c \<noteq> ?m 30 ?c"
    using registration_signing_message_inject [OF test_literals(4) test_literals(4)] by simp
  then have "\<not> ed_verify_strict E (ed_verifying_key E (replicate 32 7)) (?m 300 ?c) (identity_sign E (?a (replicate 32 7)) (?m 30 ?c))"
    unfolding identity_sign_def from_secret_bytes_def identity.select_convs
    by (intro no_confusionD [OF assms(1)]) (simp_all add: registration_messages_def)
  from refused_registration [OF now _ this] show "passes (signature_covers_lease_and_challenge E now)"
    by (auto simp: passes_def signature_covers_lease_and_challenge_def Let_def authenticated_coordinator_eq)
  have "replicate 32 (7 :: u8) \<noteq> replicate 32 8" by simp
  then have "\<not> ed_verify_strict E (ed_verifying_key E (replicate 32 7)) (?m 30 ?d) (identity_sign E (?a (replicate 32 8)) (?m 30 ?d))"
    unfolding identity_sign_def from_secret_bytes_def identity.select_convs
    by (intro no_confusionD [OF assms(1)]) (simp_all add: registration_messages_def)
  from refused_registration [OF now _ this] show "passes (different_private_key_cannot_claim_authorized_node_id E now)"
    by (auto simp: passes_def different_private_key_cannot_claim_authorized_node_id_def Let_def authenticated_coordinator_eq)
qed

lemma fallback_test: "passes fallback_is_only_allowed_for_reachability_failures"
  by (simp add: passes_def fallback_is_only_allowed_for_reachability_failures_def Let_def)

text \<open>What the key derivation test relies on: the two labels do not expand to the same key.\<close>

definition labels_apart :: "key_exchange \<Rightarrow> bytes \<Rightarrow> bytes \<Rightarrow> bool" where
  "labels_apart K salt secret \<longleftrightarrow>
     kx_expand K salt secret (as_bytes ''MESHLET/3 client-to-server encryption key'') SESSION_KEY_BYTES
     \<noteq> kx_expand K salt secret (as_bytes ''MESHLET/3 server-to-client encryption key'') SESSION_KEY_BYTES"

lemma labels_apart_keys:
  assumes "labels_apart K (kx_digest K transcript) shared" and "derive_session_keys K shared transcript = Ok keys"
  shows "client_to_server keys \<noteq> server_to_client keys"
  using assms by (auto simp: labels_apart_def derive_session_keys_def Let_def split: if_splits)

lemma key_test:
  assumes K: "key_exchange_ok K"
    and apart: "labels_apart K (kx_digest K (as_bytes ''one exact authenticated Meshlet handshake''))
      (kx_shared K csec (kx_public K ssec))"
  shows "passes (both_peers_derive_the_same_directional_keys K csec ssec)"
proof -
  let ?t = "as_bytes ''one exact authenticated Meshlet handshake''"
  obtain keys where keys: "derive_session_keys K (kx_shared K csec (kx_public K ssec)) ?t = Ok keys"
    using derive_session_keys_total [OF K] by blast
  moreover from keys have "derive_session_keys K (kx_shared K ssec (kx_public K csec)) ?t = Ok keys"
    by (subst derive_session_keys_agree [OF K])
  moreover have "client_to_server keys \<noteq> server_to_client keys" by (rule labels_apart_keys [OF apart keys])
  ultimately show ?thesis by (simp add: passes_def both_peers_derive_the_same_directional_keys_def Let_def)
qed

lemma handshake_test:
  assumes E: "signature_scheme_ok E" and K: "key_exchange_ok K"
  shows "passes (complete_authenticated_handshake_derives_matching_keys E K csec ssec)"
proof -
  let ?ci = "from_secret_bytes ''mesh-a'' (replicate 32 7)" and ?si = "from_secret_bytes ''mesh-b'' (replicate 32 9)"
  define hello where "hello = \<lparr>cl_initiator_id = ''mesh-a'', cl_responder_id = ''mesh-b'',
     cl_exchange_public = kx_public K csec,
     cl_signature = identity_sign E ?ci (client_signing_message ''mesh-a'' ''mesh-b'' (kx_public K csec))\<rparr>"
  define answer where "answer = \<lparr>sv_initiator_id = ''mesh-a'', sv_responder_id = ''mesh-b'',
     sv_client_exchange_public = kx_public K csec, sv_server_exchange_public = kx_public K ssec,
     sv_signature = identity_sign E ?si (server_signing_message E hello (kx_public K ssec))\<rparr>"
  have lens: "length (kx_public K s) = EXCHANGE_KEY_BYTES" for s using K by (simp add: key_exchange_ok_def)
  have hello: "client_hello_ok E hello" and answer: "server_hello_ok E answer"
    using test_literals(4,5) lens
    by (simp_all add: client_hello_ok_def server_hello_ok_def hello_def answer_def identity_sign_def sign_wire [OF E])
  let ?tr = "handshake_transcript E hello answer"
  obtain keys where keys: "derive_session_keys K (kx_shared K ssec (kx_public K csec)) ?tr = Ok keys"
    using derive_session_keys_total [OF K] by blast
  then have keys': "derive_session_keys K (kx_shared K csec (kx_public K ssec)) ?tr = Ok keys"
    by (subst derive_session_keys_agree [OF K])
  have parsed: "parse_client_hello E (encode_client_hello E hello) = Ok hello"
    "parse_server_hello E (encode_server_hello E answer) = Ok answer"
    by (rule parse_client_hello_text [OF hello], rule parse_server_hello_text [OF answer])
  have fields: "cl_initiator_id hello = ''mesh-a''" "cl_responder_id hello = ''mesh-b''"
    "cl_exchange_public hello = kx_public K csec"
    "cl_signature hello = identity_sign E ?ci (client_signing_message ''mesh-a'' ''mesh-b'' (kx_public K csec))"
    "sv_initiator_id answer = ''mesh-a''" "sv_responder_id answer = ''mesh-b''"
    "sv_client_exchange_public answer = kx_public K csec" "sv_server_exchange_public answer = kx_public K ssec"
    "sv_signature answer = identity_sign E ?si (server_signing_message E hello (kx_public K ssec))"
    by (simp_all add: hello_def answer_def)
  have client: "verify_signature E (from_key ''mesh-a'' (identity_verifying_key E ?ci)) ''mesh-a''
      (client_signing_message ''mesh-a'' ''mesh-b'' (kx_public K csec))
      (identity_sign E ?ci (client_signing_message ''mesh-a'' ''mesh-b'' (kx_public K csec))) = Ok ()"
    by (simp add: verify_signature_Ok identity_verifying_key_def identity_sign_def sign_verifies [OF E])
  have server: "verify_signature E (from_key ''mesh-b'' (identity_verifying_key E ?si)) ''mesh-b''
      (server_signing_message E hello (kx_public K ssec))
      (identity_sign E ?si (server_signing_message E hello (kx_public K ssec))) = Ok ()"
    by (simp add: verify_signature_Ok identity_verifying_key_def identity_sign_def sign_verifies [OF E])
  have matches: "validate_server_hello answer hello = Ok ()" by (simp add: validate_server_hello_Ok fields)
  show ?thesis
    unfolding passes_def complete_authenticated_handshake_derives_matching_keys_def Let_def
      hello_def [symmetric] parsed unwrap_Ok out_bind_simps fields client answer_def [symmetric] server matches keys keys'
    by simp
qed

section \<open>Properties\<close>

definition unit_tests ::
  "('vk, 'sig) ed25519 \<Rightarrow> key_exchange \<Rightarrow> aead \<Rightarrow> instant \<Rightarrow> bytes \<Rightarrow> bytes \<Rightarrow> unit outcome list" where
  "unit_tests E K C now csec ssec =
     [advertised_route_is_selected_for_its_destination now,
      parses_versioned_register_request,
      register_records_observed_source_endpoint now,
      registration_is_absent_at_expiration_boundary now,
      repeated_registration_refreshes_location_and_deadline now,
      rejects_invalid_node_id_and_lease,
      rejects_unknown_protocol_version,
      valid_challenge_signature_registers_observed_endpoint E now,
      signed_registration_cannot_be_replayed E now,
      challenge_is_bound_to_observed_source_endpoint E now,
      signature_covers_lease_and_challenge E now,
      different_private_key_cannot_claim_authorized_node_id E now,
      expired_challenge_cannot_authorize_registration E now,
      fallback_is_only_allowed_for_reachability_failures,
      both_peers_derive_the_same_directional_keys K csec ssec,
      complete_authenticated_handshake_derives_matching_keys E K csec ssec,
      prefix_rejects_noncanonical_host_bits,
      longest_matching_prefix_selects_the_most_specific_peer now,
      expired_advertisement_is_not_selected now,
      first_client_and_upstream_are_routed_to_each_other,
      one_session_relay_rejects_a_second_client,
      unsolicited_inbound_flow_is_denied now,
      outbound_flow_allows_its_exact_reply now,
      different_source_port_is_denied now,
      tcp_and_udp_flows_are_distinct now,
      one_outbound_flow_does_not_authorize_another_flow now,
      flow_is_denied_at_its_expiration_time now,
      hex_round_trip,
      identity_signs_with_corresponding_public_key E,
      encrypted_packet_round_trips_and_replay_is_rejected C,
      modified_ciphertext_is_rejected_without_advancing_receiver C,
      parses_the_fields_needed_to_observe_an_ipv4_packet,
      rejects_a_non_ipv4_packet,
      percentile_uses_nearest_rank]"

text \<open>A key exchange for the example whose expansion depends on the label.\<close>

definition labelled_key_exchange :: key_exchange where
  "labelled_key_exchange = sample_key_exchange
     \<lparr>kx_expand := (\<lambda>salt secret info n. if n \<le> 255 * 32
        then Some (replicate n (sum_list salt + sum_list secret + hd (drop 10 info @ [0]))) else None)\<rparr>"

lemma labelled_key_exchange_ok: "key_exchange_ok labelled_key_exchange"
  by (auto simp: key_exchange_ok_def labelled_key_exchange_def sample_key_exchange_def EXCHANGE_KEY_BYTES_def add.commute)

lemma labelled_labels_apart: "labels_apart labelled_key_exchange salt secret"
  by (simp add: labels_apart_def labelled_key_exchange_def SESSION_KEY_BYTES_def as_bytes_def)

lemma sample_verifies:
  assumes "length s = 32" and "length t = 32"
  shows "ed_verify_strict sample_ed25519 (ed_verifying_key sample_ed25519 s) m (ed_sign sample_ed25519 t n)
     \<longleftrightarrow> s = t \<and> sum_list m = sum_list n"
  using assms by (auto simp: sample_ed25519_def)

lemma sample_no_confusion_if:
  assumes "list_all (\<lambda>s. length s = 32) secrets" and "distinct (map sum_list messages)"
  shows "no_confusion sample_ed25519 secrets messages"
  using assms by (auto simp: no_confusion_def list_all_iff sample_verifies distinct_map inj_on_def)

lemma sample_no_confusion:
  "no_confusion sample_ed25519 [replicate 32 7] identity_messages"
  "no_confusion sample_ed25519 [replicate 32 7, replicate 32 8] registration_messages"
proof -
  have "distinct (map sum_list identity_messages)" by code_simp
  then show "no_confusion sample_ed25519 [replicate 32 7] identity_messages"
    by (intro sample_no_confusion_if) simp_all
  have hex: "sum_list (as_bytes (encode_hex (replicate k b))) = of_nat k * sum_list (as_bytes (encode_byte b))" for k b
    by (induction k) (simp_all add: algebra_simps as_bytes_def)
  have leases: "decimal 30 = ''30''" "decimal 300 = ''300''" by code_simp+
  have bytes: "encode_byte 12 = ''0c''" "encode_byte 14 = ''0e''" by code_simp+
  have sum: "sum_list (registration_signing_message n l c) = sum_list (registration_signing_message n 0 [])
      - sum_list (as_bytes (decimal (as_secs 0)))
      + sum_list (as_bytes (decimal (as_secs l))) + sum_list (as_bytes (encode_hex c))" for n l c
    by (simp add: registration_signing_message_def as_bytes_def)
  have "distinct (map sum_list registration_messages)"
    by (simp add: registration_messages_def sum [of _ "from_secs n" for n] hex leases bytes CHALLENGE_BYTES_def)
      (simp add: as_bytes_def, code_simp)
  then show "no_confusion sample_ed25519 [replicate 32 7, replicate 32 8] registration_messages"
    by (intro sample_no_confusion_if) simp_all
qed

lemma sample_refuses_flip: "refuses_flip sample_aead (replicate 32 9) ServerToClient (as_bytes ''secret payload'')"
  by code_simp

text \<open>
  The model passes the repository's own unit tests: every test of every module returns without a
  panic, at every time that leaves the clock 300 seconds, for all exchange secrets, and for every
  implementation of the cryptographic parameters that is correct, refuses the few forgeries the
  tests try and, as the key test asserts, derives different keys for the two directions of its
  session (\<open>labels_apart\<close>).
\<close>

theorem unit_tests_pass:
  assumes "signature_scheme_ok E" and "key_exchange_ok K" and "aead_correct C" and "clock_in_range now"
    and "no_confusion E [replicate 32 7] identity_messages"
    and "no_confusion E [replicate 32 7, replicate 32 8] registration_messages"
    and "labels_apart K (kx_digest K (as_bytes ''one exact authenticated Meshlet handshake''))
      (kx_shared K csec (kx_public K ssec))"
    and "refuses_flip C (replicate 32 9) ServerToClient (as_bytes ''secret payload'')"
  shows "list_all passes (unit_tests E K C now csec ssec)"
  by (simp add: unit_tests_def parser_tests registry_tests [OF assms(4)] coordinator_tests [OF assms(1,4)]
      signature_tests [OF assms(6,4)] fallback_test key_test [OF assms(2,7)] handshake_test [OF assms(1,2)]
      routing_tests [OF assms(4)] relay_tests firewall_tests [OF assms(4)] hex_test signature_test [OF assms(1,5)]
      packet_tests(1) [OF assms(3)] packet_tests(2) [OF assms(3,8)] tun_tests main_test)

theorem unit_tests_pass_witness:
  "list_all passes (unit_tests sample_ed25519 labelled_key_exchange sample_aead 0 [3] [5])"
proof -
  have "clock_in_range 0" by (simp add: clock_in_range_def instant_end_def from_secs_def MAX_LEASE_SECONDS_def nanos_per_sec_def)
  from unit_tests_pass [OF sample_ed25519_ok labelled_key_exchange_ok sample_aead_correct this sample_no_confusion
      labelled_labels_apart sample_refuses_flip]
  show ?thesis .
qed

end
