(* ===== verification/Spec2Isabelle.thy ===== *)
theory Spec2Isabelle
  imports Coordinator_Replies Agreement Protocol_Tests
begin

text \<open>
  A model of Meshlet (crate \<open>meshlet\<close>, files \<open>src/src/*.rs\<close>), a small mesh-networking
  program: nodes hold long-term signing keys, register the endpoint a coordinator observes for
  them, look each other up, advertise IPv4 routes, run an authenticated key exchange and an
  encrypted echo, directly or through a relay, and move IPv4 packets between a TUN interface and
  UDP.  The theorems show that each part keeps its contract and that the parts work together.

  \<^bold>\<open>Theories and the code they model.\<close>

  \<^item> \<open>Prelude\<close>, \<open>Std_Text\<close>, \<open>Std_Net\<close>: what the program uses of Rust and its standard library.
    A \<open>Result<T, String>\<close> is a sum with the error text on the left; a panic is the outcome
    \<open>Panics m\<close>.  Bytes are 8-bit words, a \<open>String\<close> or \<open>&str\<close> is the list of its UTF-8 bytes as
    characters.  An \<open>Instant\<close> or \<open>Duration\<close> is a number of nanoseconds, with \<open>checked_add\<close>
    failing at \<open>instant_end\<close>.  A \<open>HashMap\<close> is a finite map.  Decimal parsing and printing, UTF-8
    validation, white-space splitting, and parsing and printing of addresses are written out.
  \<^item> \<open>Lease_Store\<close>: the locales \<open>lease_store\<close> and \<open>consumable_store\<close>, the contract of an
    expiring table (get, put, prune, and remove), with the history theorems proved once from it:
    what a look-up finds after any chronological sequence of operations.
  \<^item> \<open>Node_Id\<close>, \<open>Hex\<close>: \<open>valid_node_id\<close> of \<open>coordinator.rs\<close>, hexadecimal text of \<open>identity.rs\<close>.
  \<^item> \<open>Routing\<close>: \<open>routing.rs\<close>.  \<open>Relay\<close>: \<open>relay.rs\<close>.  \<open>Firewall\<close>: \<open>firewall.rs\<close>.
    \<open>Tun\<close>: \<open>tun.rs\<close>.  \<open>Secure_Packet\<close>: \<open>secure_packet.rs\<close>.  \<open>Identity\<close>: \<open>identity.rs\<close>.
  \<^item> \<open>Coordinator_Wire\<close>, \<open>Registry\<close>, \<open>Auth_Coordinator\<close>, \<open>Coordinator_Server\<close>: the messages,
    the state of the learning coordinator, that of the authenticated one, and the request loops
    and clients of \<open>coordinator.rs\<close>.  \<open>Coordinator_Routes\<close>: its route clients run against its
    server.  \<open>Coordinator_Replies\<close>: the form and size of both coordinators' replies.
  \<^item> \<open>Handshake_Wire\<close>, \<open>Handshake\<close>: the messages and the roles of \<open>handshake.rs\<close>.
  \<^item> \<open>Agreement\<close>: the nodes and the coordinator in a network an attacker controls, as an inductive
    set of traces over the operations of the theories above.
  \<^item> \<open>Sockets\<close>: what a server loop or a client sees of the network, and the locale \<open>service\<close> of
    a loop whose steps keep an invariant and send good replies.
  \<^item> \<open>Cli\<close>: \<open>main.rs\<close>.  \<open>Component_Tests\<close>, \<open>Protocol_Tests\<close>: the unit tests of every file, each
    with a proof that it passes.  This theory: the properties that span components.

  \<^bold>\<open>How state and operations correspond.\<close>  A struct is a record with the source's fields, an enum
  a datatype with its variants, a method a definition that takes and returns the record.  A loop
  that serves requests is its body, a function from the state and one \<open>net_step\<close> (the datagram
  received, the clock, a send failure) to the new state and the datagram sent, iterated by
  \<open>serve\<close> over a list of steps; such a loop is \<open>Blocked\<close> when the list ends, as it waits for the
  next datagram.  A client is a function from its socket to the datagrams it sends and its final
  output or panic.  A \<open>client_socket\<close> holds what the network will deliver, how long each delivery
  takes, and the read timeout the code sets: a delivery that takes as long or longer is not
  received (\<open>cs_received\<close>); \<open>good_socket\<close> delivers at once.  So the two seconds of \<open>CLIENT_TIMEOUT\<close> and \<open>RESPONSE_TIMEOUT\<close> and the
  250 ms of \<open>DIRECT_PATH_TIMEOUT\<close>, which stay on the socket for the echo, decide what a client
  sees.  The echo server's timeout for the request and that of the latency benchmark show in the
  receive results these are given.  Files are given by what reading them returns; key generation
  works on an explicit map from files to contents and modes, where a created file has the mode the
  code asks for without the bits of the process's umask.  No fuel is used: every loop of the
  program is recursion over the finite list of the events it consumes, and the theorems hold for
  all such lists.

  \<^bold>\<open>Parameters.\<close>  Code of other crates is a record of functions with the documented laws as a
  named hypothesis: \<open>signature_scheme_ok\<close> (Ed25519: signatures verify under the matching key, and
  keys and signatures survive their encodings), \<open>key_exchange_ok\<close> (X25519 agreement, HKDF output
  lengths), \<open>aead_correct\<close> and \<open>aead_tidy\<close> (ChaCha20-Poly1305 decrypts what it encrypts, with a
  16-byte tag; a ciphertext that decrypts is the encryption of its plaintext).  Each has a concrete
  instance (\<open>sample_ed25519\<close>, \<open>sample_key_exchange\<close>, \<open>sample_aead\<close>) that satisfies it.
  The safety theorems of the components do not assume unforgeability: they say which signature was
  verified over which message, and what those messages determine.  Only \<open>Agreement\<close> adds it, in the
  premise \<open>genuine\<close> of its steps: if a received signature verifies (\<open>ed_verify_strict\<close>) under a
  node's key, it was made with that key earlier in the trace.  Nothing is assumed of a signature
  that does not verify, so the agreement theorems rest on the checks the code makes.

  \<^bold>\<open>Interfaces.\<close>  \<open>codec\<close> is interpreted for prefixes and \<open>MESHLET/1\<close> requests and
  instantiated for \<open>MESHLET/2\<close> requests and hellos; \<open>lease_store\<close> for the route table, the
  firewall's replies, the registrations of both coordinators, and its extension
  \<open>consumable_store\<close> for the pending challenges; \<open>service\<close> for the relay and both coordinators;
  \<open>ordered_channel\<close> for a packet sender with its receiver.

  \<^bold>\<open>What is shown.\<close>  Coordinators: an accepted registration is authentic and uses a fresh
  challenge once; every reply is a function of the history; the tables hold authorized nodes only;
  no traffic stops a coordinator; the authenticated coordinator refines the learning one; honest
  nodes register and are found, and so are the routes they advertise.  Handshake: sessions are
  authentic on both sides, both ends agree on hellos, transcript and keys whatever the network does,
  transcripts and signed messages bind all their fields, roles cannot be confused, the relay is used
  only when no answer came within 250 ms, the automatic client finishes exactly when the plain one
  does on the selected path within the path's timeout, honest peers complete the echo, also through
  the relay.  Packets: streams survive, replays do not, no nonce encrypts two packets.  Files: what
  is generated is loaded, nothing is overwritten, an authorization file grants what its lines say.
  Routes, firewall, relay, tunnel, command line: the exact behaviour of each decision.
  Tables: what the coordinators store is well formed, and the replies of both reach their clients
  whole.  Tests: the model passes the repository's own unit tests, under the hypotheses on the
  cryptography that \<open>unit_tests_pass\<close> lists.

  \<^bold>\<open>Bounds.\<close>  Datagrams are cut at each receive buffer's size, as \<open>recv\<close> does.  Packet numbers
  are 64-bit words, prefix lengths 8-bit, ports 16-bit.  Theorems that need the clock to be away
  from the end of its range say so (\<open>clock_in_range\<close>).

  \<^bold>\<open>Not modelled.\<close>  Progress lines that are printed and have no effect, floating-point latencies,
  the texts of \<open>Utf8Error\<close> inside panic messages, the local operands \<open>assert_eq!\<close> adds to its
  message, arguments that are not UTF-8, what the kernel does with a TUN device, the scheduling of
  the two tunnel threads beyond their results; the shell script \<open>src/firewall-setup\<close> and the documentation.
\<close>

section \<open>Signing contexts\<close>

text \<open>
  C16.  One long-term key signs in three roles, and a signature made in one role is never one
  over a message of another: the registration message, the client's and the server's handshake
  messages differ for all fields, however these are chosen.
\<close>

theorem signing_contexts_are_separate:
  "registration_signing_message n lease c \<noteq> client_signing_message i r x
   \<and> registration_signing_message n lease c \<noteq> server_signing_message E hello y
   \<and> client_signing_message i r x \<noteq> server_signing_message E hello y"
  by (simp add: roles_differ)

section \<open>The secure echo through the relay\<close>

lemma relay_forwards_echo:
  assumes "peer \<noteq> up" and "list_all (\<lambda>d. length d \<le> relay_max_datagram_bytes) [h1, h2, q1, q2]"
  shows "run_relay None (Inr up) [relayed h1 peer, relayed h2 up, relayed q1 peer, relayed q2 up]
     = ([(h1, up), (h2, peer), (q1, up), (q2, peer)], Finished)"
proof -
  let ?st = "\<lparr>upstream = up, client = Some peer\<rparr>"
  have "relay_step (new_relay up) (relayed h1 peer) = Returns (?st, h1, up)"
    "relay_step ?st (relayed h2 up) = Returns (?st, h2, peer)"
    "relay_step ?st (relayed q1 peer) = Returns (?st, q1, up)"
    "relay_step ?st (relayed q2 up) = Returns (?st, q2, peer)"
    using assms by (simp_all add: relay_step_Returns relayed_def destination_for_def new_relay_def)
  then show ?thesis by (simp add: run_relay_def datagrams_in_one_secure_echo_def)
qed

text \<open>
  C8.  Two honest nodes that authorize each other complete the secure echo through the relay: the
  four datagrams, taken to the other side by the relay in the order they are sent, give the client
  its own message back, let the server, which only sees the relay's address, echo exactly that
  message, and end the relay after the fourth.
\<close>

theorem secure_echo_over_relay:
  assumes "signature_scheme_ok E" and "key_exchange_ok K" and "aead_correct C"
    and "load_identity cp cf = Ok ci" and "load_identity sp sf = Ok si"
    and "load_authorizations E cap caf = Ok Ac" and "load_authorizations E sap saf = Ok As"
    and "auth_get As (id_node_id ci) = Some (ed_verifying_key E (id_signing_key ci))"
    and "auth_get Ac (id_node_id si) = Some (ed_verifying_key E (id_signing_key si))"
    and "peer \<noteq> up"
  shows "\<exists>h1 h2 q1 q2.
     run_secure_echo_client E K C (good_socket (\<lambda>k. if k = 0 then h2 else q2)) csec address cp cf
       (id_node_id si) cap caf = ([h1, q1], Returns LEARNING_MESSAGE)
     \<and> run_secure_echo_server E K C (delivering (h1, relay_address) (q1, relay_address)) ssec sp sf sap saf
       = ([(h2, relay_address), (q2, relay_address)], Returns LEARNING_MESSAGE)
     \<and> run_relay None (Inr up) [relayed h1 peer, relayed h2 up, relayed q1 peer, relayed q2 up]
       = ([(h1, up), (h2, peer), (q1, up), (q2, peer)], Finished)"
proof -
  obtain h1 h2 q1 q2 where runs:
    "run_secure_echo_client E K C (good_socket (\<lambda>k. if k = 0 then h2 else q2)) csec address cp cf
       (id_node_id si) cap caf = ([h1, q1], Returns LEARNING_MESSAGE)"
    "run_secure_echo_server E K C (delivering (h1, relay_address) (q1, relay_address)) ssec sp sf sap saf
       = ([(h2, relay_address), (q2, relay_address)], Returns LEARNING_MESSAGE)"
    and fit: "\<forall>d \<in> {h1, h2, q1, q2}. length d \<le> HANDSHAKE_DATAGRAM_BYTES"
    by (rule echo_run_honest [OF assms(1-9), of csec address relay_address ssec])
  have "list_all (\<lambda>d. length d \<le> relay_max_datagram_bytes) [h1, h2, q1, q2]"
    using fit by (simp add: HANDSHAKE_DATAGRAM_BYTES_def relay_max_datagram_bytes_def)
  from relay_forwards_echo [OF assms(10) this] runs show ?thesis by blast
qed

theorem secure_echo_over_relay_witness:
  "\<exists>h1 h2 q1 q2.
     run_secure_echo_client sample_ed25519 sample_key_exchange sample_aead
       (good_socket (\<lambda>k. if k = 0 then h2 else q2)) [3] ''127.0.0.1:7000'' ''id'' (Inr sample_identity_file)
       ''mesh-a'' ''keys'' (Inr sample_authorization_file) = ([h1, q1], Returns LEARNING_MESSAGE)
     \<and> run_relay None (Inr sample_up)
         [relayed h1 sample_peer, relayed h2 sample_up, relayed q1 sample_peer, relayed q2 sample_up]
       = ([(h1, sample_up), (h2, sample_peer), (q1, sample_up), (q2, sample_peer)], Finished)"
proof -
  have "sample_peer \<noteq> sample_up" by (simp add: sample_peer_def sample_up_def)
  from secure_echo_over_relay [OF sample_ed25519_ok sample_key_exchange_ok sample_aead_correct
      sample_identity_file_loaded [of "''id''"] sample_identity_file_loaded [of "''id''"]
      sample_authorization_loaded [of "''keys''"] sample_authorization_loaded [of "''keys''"] sample_key sample_key this,
      of "[3]" "''127.0.0.1:7000''" "sample_peer" "[5]"]
  show ?thesis by auto
qed

section \<open>From key generation to discovery\<close>

text \<open>
  C7.  A freshly generated node can be found: with the files that \<open>generate\<close> wrote, the node
  loads its identity and the coordinator loads its authorization, the node registers for its
  lease, and until that lease ends anyone who looks the node up is told the endpoint the
  registration came from.
\<close>

theorem generated_node_is_found:
  assumes E: "signature_scheme_ok E" and secret: "length secret = 32"
    and gen: "generate E os (Inr secret) n private_path public_path fs = (fs', Ok ())"
    and secs: "1 \<le> secs" "secs \<le> 300" and c: "length c = 32"
    and times: "clock_in_range t1" "clock_in_range t2" "t2 < t1 + CHALLENGE_LIFETIME" "t3 < t2 + from_secs secs"
  shows "\<exists>private public A d1 d2 d3 r1 r2 r3 co1 co2 co3.
     fmlookup fs' (os_resolve os private_path) = Some private
     \<and> fmlookup fs' (os_resolve os public_path) = Some public
     \<and> load_authorizations E public_path (Inr (str_of_bytes (file_bytes public))) = Ok A
     \<and> register_authenticated E (good_socket (\<lambda>k. if k = 0 then r1 else r2)) n secs private_path
         (Inr (str_of_bytes (file_bytes private)))
       = ([d1, d2], Returns (encode_auth_response (AuthRegistered n source (from_secs secs))))
     \<and> auth_coordinator_step E (new_coordinator A) \<lparr>ns_received = Inr (d1, source), ns_now = t1,
         ns_send_error = None, ns_random = Inr c\<rparr> = Returns (co1, r1, source)
     \<and> auth_coordinator_step E co1 \<lparr>ns_received = Inr (d2, source), ns_now = t2,
         ns_send_error = None, ns_random = Inr c\<rparr> = Returns (co2, r2, source)
     \<and> lookup_authenticated (good_socket (\<lambda>_. r3)) n
       = ([d3], Returns (encode_auth_response (AuthFound n source)))
     \<and> auth_coordinator_step E co2 \<lparr>ns_received = Inr (d3, asker), ns_now = t3,
         ns_send_error = None, ns_random = Inr c\<rparr> = Returns (co3, r3, asker)"
proof -
  obtain priv pub where files: "fmlookup fs' (os_resolve os private_path) = Some priv"
    "fmlookup fs' (os_resolve os public_path) = Some pub"
    and id: "load_identity private_path (Inr (str_of_bytes (file_bytes priv)))
         = Ok \<lparr>id_node_id = n, id_signing_key = secret\<rparr>"
    and A: "load_authorizations E public_path (Inr (str_of_bytes (file_bytes pub)))
         = Ok \<lparr>auth_keys = fmupd n (ed_verifying_key E secret) fmempty\<rparr>"
    using generated_files_load [OF E secret gen] by blast
  let ?i = "\<lparr>id_node_id = n, id_signing_key = secret\<rparr>"
  let ?A = "\<lparr>auth_keys = fmupd n (ed_verifying_key E secret) fmempty\<rparr>"
  have key: "auth_get (co_authorizations (new_coordinator ?A)) (id_node_id ?i)
      = Some (ed_verifying_key E (id_signing_key ?i))" by (simp add: auth_get_def)
  have len: "length c = CHALLENGE_BYTES" using c by (simp add: CHALLENGE_BYTES_def)
  have n: "valid_node_id n" using load_identity_valid [OF id] by simp
  note reg = registration_of_honest_node [OF E id key secs len times(1-3), where source = source,
      unfolded identity.select_convs]
  then obtain d1 d2 r1 r2 co1 where client: "register_authenticated E (good_socket (\<lambda>k. if k = 0 then r1 else r2)) n
        secs private_path (Inr (str_of_bytes (file_bytes priv)))
       = ([d1, d2], Returns (encode_auth_response (AuthRegistered n source (from_secs secs))))"
    and step1: "auth_coordinator_step E (new_coordinator ?A) \<lparr>ns_received = Inr (d1, source), ns_now = t1,
         ns_send_error = None, ns_random = Inr c\<rparr> = Returns (co1, r1, source)"
    and later: "\<forall>others co2 outs random. serve (auth_coordinator_step E) co1 others = (co2, outs, None) \<longrightarrow>
         list_all (from_others source) others \<longrightarrow> list_all (\<lambda>n. ns_now n < t1 + CHALLENGE_LIFETIME) others \<longrightarrow>
         (\<exists>co3. auth_coordinator_step E co2 \<lparr>ns_received = Inr (d2, source), ns_now = t2, ns_send_error = None,
             ns_random = Inr random\<rparr> = Returns (co3, r2, source)
           \<and> member_get co3 n = Some (source, t2 + from_secs secs))"
    by blast
  have "serve (auth_coordinator_step E) co1 [] = (co1, [], None)" by simp
  with later obtain co2 where step2: "auth_coordinator_step E co1 \<lparr>ns_received = Inr (d2, source), ns_now = t2,
         ns_send_error = None, ns_random = Inr c\<rparr> = Returns (co2, r2, source)"
    and member: "member_get co2 n = Some (source, t2 + from_secs secs)"
    by (metis list.pred_inject(1))
  show ?thesis
    using files A client step1 step2 authenticated_lookup_good [OF n member times(4)] by blast
qed

theorem generated_node_is_found_witness:
  "\<exists>d3 r3 co2 co3.
     lookup_authenticated (good_socket (\<lambda>_. r3)) ''mesh-a''
       = ([d3], Returns (encode_auth_response (AuthFound ''mesh-a'' sample_source)))
     \<and> auth_coordinator_step sample_ed25519 co2 \<lparr>ns_received = Inr (d3, sample_peer), ns_now = 2,
         ns_send_error = None, ns_random = Inr sample_challenge\<rparr> = Returns (co3, r3, sample_peer)"
proof -
  obtain fs' where gen: "generate sample_ed25519 sample_os (Inr sample_secret) ''mesh-a'' ''a.identity''
      ''a.authorization'' fmempty = (fs', Ok ())" using sample_generate by blast
  have lens: "length sample_secret = 32" "length sample_challenge = 32"
    by (simp_all add: sample_secret_def sample_challenge_def)
  have times: "clock_in_range 0" "clock_in_range 1" "1 < 0 + CHALLENGE_LIFETIME" "2 < 1 + from_secs 30"
    by (simp_all add: clock_in_range_def CHALLENGE_LIFETIME_def instant_end_def from_secs_def
        MAX_LEASE_SECONDS_def nanos_per_sec_def)
  have secs: "1 \<le> (30 :: nat)" "(30 :: nat) \<le> 300" by simp_all
  from generated_node_is_found [OF sample_ed25519_ok lens(1) gen secs lens(2) times,
      where source = sample_source and asker = sample_peer]
  show ?thesis by blast
qed

end
